(* ===== verification/Hwm_Prelude.thy ===== *)
theory Hwm_Prelude
  imports Main "HOL-Library.Word" "HOL-Library.State_Monad"
begin

text \<open>
  Vocabulary shared by every component: the machine integers of the C++ code, undefined
  behaviour as a value, runs of a component and the locales that carry an invariant or a specification
  over them, the library's status type and its early return, decimal formatting as
  \<^verbatim>\<open>std::format\<close> and \<^verbatim>\<open>std::to_string\<close> do it, with a reader for it, and the
  collections of facts the component proofs use.
\<close>

named_theorems io_simps "what a stateful operation returns and leaves behind"
named_theorems status_simps "codes and messages of a status"
named_theorems time_rules "upper bounds on the time an operation blocks"
named_theorems frame_rules "what an operation leaves alone"

type_synonym u8 = "8 word"
type_synonym i8 = "8 word"
type_synonym u32 = "32 word"
type_synonym i32 = "32 word"
type_synonym i64 = "64 word"

text \<open>
  The program copies \<^verbatim>\<open>double\<close> values between buffers and never computes with them, so a
  double is its bit pattern.
\<close>

type_synonym double = "64 word"

text \<open>A C++ operation either returns or has undefined behaviour.\<close>

datatype 'a outcome = Undefined_Behaviour | Returned 'a

fun defined :: "'a outcome \<Rightarrow> bool" where
  "defined Undefined_Behaviour = False"
| "defined (Returned x) = True"

fun on_returned :: "'a outcome \<Rightarrow> ('a \<Rightarrow> 'b outcome) \<Rightarrow> 'b outcome" where
  "on_returned Undefined_Behaviour f = Undefined_Behaviour"
| "on_returned (Returned x) f = f x"

lemma defined_iff: "defined r \<longleftrightarrow> (\<exists>x. r = Returned x)"
  by (cases r) auto

lemma defined_on_returned [simp]:
  "defined (on_returned r f) \<longleftrightarrow> (\<exists>x. r = Returned x \<and> defined (f x))"
  by (cases r) auto

lemma on_returned_eq_Returned:
  "on_returned r f = Returned y \<longleftrightarrow> (\<exists>x. r = Returned x \<and> f x = Returned y)"
  by (cases r) auto

text \<open>
  A component that answers events one after the other: the answers and the last state, or undefined
  behaviour as soon as one step has it.
\<close>

fun run_events :: "('e \<Rightarrow> 's \<Rightarrow> ('r \<times> 's) outcome) \<Rightarrow> 'e list \<Rightarrow> 's \<Rightarrow> ('r list \<times> 's) outcome" where
  "run_events step [] s = Returned ([], s)"
| "run_events step (e # es) s =
     on_returned (step e s) (\<lambda>(r, s1). on_returned (run_events step es s1) (\<lambda>(rs, s2). Returned (r # rs, s2)))"

text \<open>
  The contract of a component with an invariant: a legal event is answered, the answer is good for it,
  and the invariant holds again.
\<close>

locale safe_component =
  fixes step :: "'e \<Rightarrow> 's \<Rightarrow> ('r \<times> 's) outcome"
    and inv :: "'s \<Rightarrow> bool"
    and legal :: "'e \<Rightarrow> bool"
    and good :: "'e \<Rightarrow> 'r \<Rightarrow> bool"
  assumes safe_step: "inv s \<Longrightarrow> legal e \<Longrightarrow> \<exists>r s'. step e s = Returned (r, s') \<and> good e r \<and> inv s'"
begin

lemma safe_run:
  "inv s \<Longrightarrow> list_all legal es \<Longrightarrow>
     \<exists>rs s'. run_events step es s = Returned (rs, s') \<and> list_all2 good es rs \<and> inv s'"
proof (induction es arbitrary: s)
  case (Cons e es)
  obtain r s1 where 1: "step e s = Returned (r, s1)" "good e r" "inv s1"
    using safe_step [of s e] Cons.prems by auto
  obtain rs s2 where "run_events step es s1 = Returned (rs, s2)" "list_all2 good es rs" "inv s2"
    using Cons.IH [OF 1(3)] Cons.prems by auto
  with 1 show ?case by simp
qed simp

end

text \<open>
  A specification that watches the events and the answers: which answers its state permits, and the
  state that follows. A log of both conforms when every answer was permitted.
\<close>

fun conforms ::
  "('e \<Rightarrow> 'r \<Rightarrow> 'a \<Rightarrow> bool) \<Rightarrow> ('e \<Rightarrow> 'r \<Rightarrow> 'a \<Rightarrow> 'a) \<Rightarrow> 'e list \<Rightarrow> 'r list \<Rightarrow> 'a \<Rightarrow> 'a \<Rightarrow> bool" where
  "conforms permits after [] rs a b \<longleftrightarrow> rs = [] \<and> b = a"
| "conforms permits after (e # es) [] a b \<longleftrightarrow> False"
| "conforms permits after (e # es) (r # rs) a b \<longleftrightarrow> permits e r a \<and> conforms permits after es rs (after e r a) b"

lemma conforms_Cons: "conforms permits after (e # es) rs a b \<longleftrightarrow>
    (\<exists>r rs'. rs = r # rs' \<and> permits e r a \<and> conforms permits after es rs' (after e r a) b)"
  by (cases rs) simp_all

text \<open>Where the specification ignores the answers, its last state follows from the events.\<close>

lemma conforms_fold: "conforms permits (\<lambda>e _. f e) es rs a b \<Longrightarrow> b = fold f es a"
  by (induction es arbitrary: rs a) (auto simp: conforms_Cons)

text \<open>A component that implements such a specification.\<close>

locale refined_component = safe_component step inv legal good
  for step :: "'e \<Rightarrow> 's \<Rightarrow> ('r \<times> 's) outcome" and inv legal good +
  fixes view :: "'s \<Rightarrow> 'a"
    and permits :: "'e \<Rightarrow> 'r \<Rightarrow> 'a \<Rightarrow> bool"
    and after :: "'e \<Rightarrow> 'r \<Rightarrow> 'a \<Rightarrow> 'a"
  assumes simulates: "inv s \<Longrightarrow> legal e \<Longrightarrow> step e s = Returned (r, s') \<Longrightarrow>
    permits e r (view s) \<and> view s' = after e r (view s)"
begin

lemma refined_run:
  "inv s \<Longrightarrow> list_all legal es \<Longrightarrow>
     \<exists>rs s'. run_events step es s = Returned (rs, s') \<and> conforms permits after es rs (view s) (view s') \<and> inv s'"
proof (induction es arbitrary: s)
  case (Cons e es)
  obtain r s1 where 1: "step e s = Returned (r, s1)" "inv s1"
    using safe_step [of s e] Cons.prems by auto
  then have "permits e r (view s)" "view s1 = after e r (view s)"
    using simulates [of s e r s1] Cons.prems by simp_all
  moreover obtain rs s2 where "run_events step es s1 = Returned (rs, s2)"
      "conforms permits after es rs (view s1) (view s2)" "inv s2"
    using Cons.IH [OF 1(2)] Cons.prems by auto
  ultimately show ?case using 1 by simp
qed simp

end

text \<open>Element access with \<^verbatim>\<open>operator[]\<close>: out of range is undefined.\<close>

definition vector_at :: "'a list \<Rightarrow> nat \<Rightarrow> 'a outcome" where
  "vector_at xs i = (if i < length xs then Returned (xs ! i) else Undefined_Behaviour)"

lemma vector_at_in_range [simp]: "i < length xs \<Longrightarrow> vector_at xs i = Returned (xs ! i)"
  by (simp add: vector_at_def)

text \<open>
  Status codes: the ones the sources name, and \<open>kOther\<close> for those a library call may hand
  through. A \<^verbatim>\<open>RealtimeStatus\<close> carries the same two parts.
\<close>

datatype status_code =
  kOk | kInvalidArgument | kFailedPrecondition | kDeadlineExceeded | kUnavailable | kInternal
| kOther nat

record status =
  st_code :: status_code
  st_message :: string

definition ok :: "status \<Rightarrow> bool" where
  "ok s \<longleftrightarrow> st_code s = kOk"

definition OkStatus :: status where
  "OkStatus = \<lparr>st_code = kOk, st_message = []\<rparr>"

definition mk_status :: "status_code \<Rightarrow> string \<Rightarrow> status" where
  "mk_status c m = \<lparr>st_code = c, st_message = m\<rparr>"

lemma ok_OkStatus [simp, status_simps]: "ok OkStatus"
  by (simp add: ok_def OkStatus_def)

lemma ok_mk_status [simp, status_simps]: "ok (mk_status c m) \<longleftrightarrow> c = kOk"
  by (simp add: ok_def mk_status_def)

lemma code_mk_status [simp, status_simps]: "st_code (mk_status c m) = c"
  by (simp add: mk_status_def)

lemma message_mk_status [simp, status_simps]: "st_message (mk_status c m) = m"
  by (simp add: mk_status_def)

lemma code_OkStatus [simp, status_simps]: "st_code OkStatus = kOk"
  by (simp add: OkStatus_def)

lemma not_ok_code: "\<not> ok s \<Longrightarrow> st_code s \<noteq> kOk"
  by (simp add: ok_def)

text \<open>
  Sequencing under \<^verbatim>\<open>INTR_RETURN_STATUS_IF_ERROR\<close>: the first error is the result and
  what follows is not run.
\<close>

definition return_if_error :: "('s, status) state \<Rightarrow> ('s, status) state \<Rightarrow> ('s, status) state" where
  "return_if_error m k = do { r \<leftarrow> m; if ok r then k else State_Monad.return r }"

lemma run_bind [io_simps]:
  "run_state (m \<bind> f) w = (case run_state m w of (x, w') \<Rightarrow> run_state (f x) w')"
  by (simp add: State_Monad.bind_def)

lemma run_if [io_simps]: "run_state (if b then m else n) w = (if b then run_state m w else run_state n w)"
  by simp

lemma run_return_if_error [io_simps]:
  "run_state (return_if_error m k) w =
     (case run_state m w of (r, w') \<Rightarrow> if ok r then run_state k w' else (r, w'))"
  by (simp add: return_if_error_def run_bind split: prod.splits)

text \<open>Decimal formatting.\<close>

definition digit :: "nat \<Rightarrow> char" where
  "digit d = ''0123456789'' ! d"

fun dec_nat :: "nat \<Rightarrow> string" where
  "dec_nat n = (if n < 10 then [digit n] else dec_nat (n div 10) @ [digit (n mod 10)])"

declare dec_nat.simps [simp del]

definition dec_int :: "int \<Rightarrow> string" where
  "dec_int i = (if i < 0 then ''-'' @ dec_nat (nat (- i)) else dec_nat (nat i))"

lemma dec_nat_not_empty [simp]: "dec_nat n \<noteq> []"
  by (subst dec_nat.simps) simp

lemma dec_int_not_empty [simp]: "dec_int i \<noteq> []"
  by (simp add: dec_int_def)

text \<open>Reading decimal numbers back.\<close>

definition digit_value :: "char \<Rightarrow> nat" where
  "digit_value c = of_char c - 48"

definition read_nat :: "string \<Rightarrow> nat" where
  "read_nat s = foldl (\<lambda>n c. 10 * n + digit_value c) 0 s"

definition read_int :: "string \<Rightarrow> int" where
  "read_int s = (case s of [] \<Rightarrow> 0 | c # cs \<Rightarrow> if c = CHR ''-'' then - int (read_nat cs) else int (read_nat s))"

definition digits :: "char set" where
  "digits = set ''0123456789''"

lemma digit_cases:
  assumes "d < 10"
  shows "digit_value (digit d) = d" and "digit d \<in> digits"
proof -
  have "d \<in> set [0..<10]" using assms by simp
  then have "d \<in> {0, 1, 2, 3, 4, 5, 6, 7, 8, 9}" by (simp add: upt_rec numeral_eq_Suc)
  then show "digit_value (digit d) = d" and "digit d \<in> digits"
    by (auto simp: digit_value_def digit_def digits_def)
qed

lemma read_dec_nat [simp]: "read_nat (dec_nat n) = n"
proof (induction n rule: dec_nat.induct)
  case (1 n)
  then show ?case
    by (subst dec_nat.simps) (auto simp: read_nat_def digit_cases(1))
qed

lemma dec_nat_digits: "set (dec_nat n) \<subseteq> digits"
proof (induction n rule: dec_nat.induct)
  case (1 n)
  then show ?case
    using digit_cases(2) [of n] digit_cases(2) [of "n mod 10"] by (subst dec_nat.simps) auto
qed

lemma dec_int_chars: "set (dec_int i) \<subseteq> insert (CHR ''-'') digits"
  using dec_nat_digits [of "nat i"] dec_nat_digits [of "nat (- i)"] by (auto simp: dec_int_def)

lemma not_digits [simp]: "CHR ''-'' \<notin> digits" "CHR '','' \<notin> digits" "CHR 0x20 \<notin> digits"
  by (simp_all add: digits_def)

lemma read_dec_int [simp]: "read_int (dec_int i) = i"
proof (cases "i < 0")
  case False
  obtain c cs where c: "dec_nat (nat i) = c # cs" by (cases "dec_nat (nat i)") simp_all
  have "c \<noteq> CHR ''-''" using dec_nat_digits [of "nat i"] c by auto
  then show ?thesis
    using False read_dec_nat [of "nat i"] c by (simp add: dec_int_def read_int_def)
qed (simp add: dec_int_def read_int_def)

text \<open>The single quote of the messages.\<close>

definition quoted :: "string \<Rightarrow> string" where
  "quoted s = [CHR 0x27] @ s @ [CHR 0x27]"

end
