(* ===== verification/Messages.thy ===== *)
theory Messages
  imports Hwm_Prelude
begin

text \<open>
  The two ROS messages of \<^verbatim>\<open>icon_hwm_controller_msgs\<close>: the vendor node's
  \<^verbatim>\<open>OperationalStatus\<close> and the controller's \<^verbatim>\<open>HardwareModuleState\<close>.
\<close>

section \<open>OperationalStatus.msg\<close>

definition UNKNOWN :: u8 where "UNKNOWN = 0"
definition DISABLED :: u8 where "DISABLED = 1"
definition FAULTED :: u8 where "FAULTED = 2"
definition ENABLED :: u8 where "ENABLED = 3"

lemmas op_state_defs = UNKNOWN_def DISABLED_def FAULTED_def ENABLED_def

lemma op_states_distinct [simp]:
  "UNKNOWN \<noteq> DISABLED" "UNKNOWN \<noteq> FAULTED" "UNKNOWN \<noteq> ENABLED"
  "DISABLED \<noteq> UNKNOWN" "DISABLED \<noteq> FAULTED" "DISABLED \<noteq> ENABLED"
  "FAULTED \<noteq> UNKNOWN" "FAULTED \<noteq> DISABLED" "FAULTED \<noteq> ENABLED"
  "ENABLED \<noteq> UNKNOWN" "ENABLED \<noteq> DISABLED" "ENABLED \<noteq> FAULTED"
  by (simp_all add: op_state_defs)

record operational_status =
  os_state :: u8
  os_message :: string

definition mk_os :: "u8 \<Rightarrow> string \<Rightarrow> operational_status" where
  "mk_os s m = \<lparr>os_state = s, os_message = m\<rparr>"

lemma mk_os_sel [simp]: "os_state (mk_os s m) = s" "os_message (mk_os s m) = m"
  by (simp_all add: mk_os_def)

lemma mk_os_eq [simp]: "mk_os s m = mk_os s' m' \<longleftrightarrow> s = s' \<and> m = m'"
  by (simp add: mk_os_def)

text \<open>
  What the nodes keep of the message's comments: one of the four states, a fault is explained, and
  \<open>ENABLED\<close> comes without a text. The comment allows a text for \<open>FAULTED\<close> only; the nodes also explain
  \<open>UNKNOWN\<close> and \<open>DISABLED\<close>, so a text is allowed there.
\<close>

definition wf_status :: "operational_status \<Rightarrow> bool" where
  "wf_status s \<longleftrightarrow> os_state s \<in> {UNKNOWN, DISABLED, FAULTED, ENABLED}
     \<and> (os_state s = FAULTED \<longrightarrow> os_message s \<noteq> [])
     \<and> (os_state s = ENABLED \<longrightarrow> os_message s = [])"

section \<open>HardwareModuleState.msg\<close>

definition INIT_FAILED :: u8 where "INIT_FAILED = 9"

text \<open>The message field is an array of exactly 256 bytes.\<close>

definition hwm_message_size :: nat where "hwm_message_size = 256"

record hardware_module_state =
  hs_code :: u8
  hs_message :: "u8 list"

definition default_hwm_state :: hardware_module_state where
  "default_hwm_state = \<lparr>hs_code = 0, hs_message = replicate hwm_message_size 0\<rparr>"

end
