(* ===== verification/Ros_Io.thy ===== *)
theory Ros_Io
  imports Messages
begin

text \<open>
  How the components talk to the outside: service clients, sleeping and publishing, as
  operations on a world that records what happened and when. The environment (the ROS graph, the
  vendor drivers, the shared-memory libraries) is a parameter: a record of functions from
  everything that happened so far to what it does next, so that a statement about every
  environment is a statement about every behaviour of the outside. Times are in milliseconds.
\<close>

section \<open>Events\<close>

text \<open>
  \<open>Waited\<close> is a \<^verbatim>\<open>wait_for_service\<close>, \<open>Sent\<close> an \<^verbatim>\<open>async_send_request\<close>,
  \<open>Awaited\<close> a \<^verbatim>\<open>wait_for\<close> on the reply's future, each with how long it blocked and
  whether it succeeded; \<open>Library_Call\<close> a blocking call of the shared-memory library.
\<close>

datatype ('q, 'm) io_event =
  Waited string nat bool
| Sent string 'q
| Awaited string nat bool
| Slept nat
| Library_Call string nat
| Published string 'm

record ('q, 'm) world =
  trace :: "('q, 'm) io_event list"

record ('q, 'm, 'r) ros_env =
  env_wait :: "('q, 'm) io_event list \<Rightarrow> string \<Rightarrow> nat option"
  env_reply :: "('q, 'm) io_event list \<Rightarrow> string \<Rightarrow> 'q \<Rightarrow> (nat \<times> 'r) option"

fun event_time :: "('q, 'm) io_event \<Rightarrow> nat" where
  "event_time (Waited s t b) = t"
| "event_time (Sent s q) = 0"
| "event_time (Awaited s t b) = t"
| "event_time (Slept t) = t"
| "event_time (Library_Call s t) = t"
| "event_time (Published s m) = 0"

definition elapsed :: "('q, 'm) io_event list \<Rightarrow> nat" where
  "elapsed h = sum_list (map event_time h)"

fun sent_of :: "('q, 'm) io_event \<Rightarrow> (string \<times> 'q) list" where
  "sent_of (Sent s q) = [(s, q)]"
| "sent_of e = []"

definition requests :: "('q, 'm) io_event list \<Rightarrow> (string \<times> 'q) list" where
  "requests h = concat (map sent_of h)"

fun published_of :: "('q, 'm) io_event \<Rightarrow> 'm list" where
  "published_of (Published s m) = [m]"
| "published_of e = []"

definition published :: "('q, 'm) io_event list \<Rightarrow> 'm list" where
  "published h = concat (map published_of h)"

lemma history_append [simp]:
  "elapsed (h @ h') = elapsed h + elapsed h'"
  "requests (h @ h') = requests h @ requests h'"
  "published (h @ h') = published h @ published h'"
  by (simp_all add: elapsed_def requests_def published_def)

lemma history_nil [simp]: "elapsed [] = 0" "requests [] = []" "published [] = []"
  by (simp_all add: elapsed_def requests_def published_def)

lemma history_cons [simp]:
  "elapsed (e # h) = event_time e + elapsed h"
  "requests (e # h) = sent_of e @ requests h"
  "published (e # h) = published_of e @ published h"
  by (simp_all add: elapsed_def requests_def published_def)

section \<open>Operations\<close>

definition emit :: "('q, 'm) io_event \<Rightarrow> (('q, 'm, 'z) world_scheme, unit) state" where
  "emit e = State (\<lambda>w. ((), w\<lparr>trace := trace w @ [e]\<rparr>))"

definition observe :: "(('q, 'm) io_event list \<Rightarrow> 'a) \<Rightarrow> (('q, 'm, 'z) world_scheme, 'a) state" where
  "observe f = State (\<lambda>w. (f (trace w), w))"

text \<open>\<^verbatim>\<open>wait_for_service(timeout)\<close>: true as soon as the service is there.\<close>

definition wait_for_service ::
  "('q, 'm, 'r, 'e) ros_env_scheme \<Rightarrow> string \<Rightarrow> nat \<Rightarrow> (('q, 'm, 'z) world_scheme, bool) state" where
  "wait_for_service env name timeout = do {
     there \<leftarrow> observe (\<lambda>h. env_wait env h name);
     (case there of
        None \<Rightarrow> do { _ \<leftarrow> emit (Waited name timeout False); State_Monad.return False }
      | Some d \<Rightarrow>
          if d \<le> timeout then do { _ \<leftarrow> emit (Waited name d True); State_Monad.return True }
          else do { _ \<leftarrow> emit (Waited name timeout False); State_Monad.return False }) }"

text \<open>\<^verbatim>\<open>service_is_ready()\<close>: there already; it does not block.\<close>

definition service_is_ready ::
  "('q, 'm, 'r, 'e) ros_env_scheme \<Rightarrow> string \<Rightarrow> (('q, 'm, 'z) world_scheme, bool) state" where
  "service_is_ready env name = observe (\<lambda>h. env_wait env h name = Some 0)"

text \<open>
  \<^verbatim>\<open>async_send_request\<close>, \<^verbatim>\<open>wait_for(timeout)\<close> on its future and
  \<^verbatim>\<open>get()\<close>: \<open>None\<close> when the future is not ready in time. The request has been sent
  either way.
\<close>

definition send_and_wait ::
  "('q, 'm, 'r, 'e) ros_env_scheme \<Rightarrow> string \<Rightarrow> 'q \<Rightarrow> nat \<Rightarrow> (('q, 'm, 'z) world_scheme, 'r option) state" where
  "send_and_wait env name q timeout = do {
     _ \<leftarrow> emit (Sent name q);
     answer \<leftarrow> observe (\<lambda>h. env_reply env h name q);
     (case answer of
        None \<Rightarrow> do { _ \<leftarrow> emit (Awaited name timeout False); State_Monad.return None }
      | Some (d, r) \<Rightarrow>
          if d \<le> timeout then do { _ \<leftarrow> emit (Awaited name d True); State_Monad.return (Some r) }
          else do { _ \<leftarrow> emit (Awaited name timeout False); State_Monad.return None }) }"

definition sleep_for :: "nat \<Rightarrow> (('q, 'm, 'z) world_scheme, unit) state" where
  "sleep_for t = emit (Slept t)"

definition publish :: "string \<Rightarrow> 'm \<Rightarrow> (('q, 'm, 'z) world_scheme, unit) state" where
  "publish topic m = emit (Published topic m)"

lemma run_emit [io_simps]: "run_state (emit e) w = ((), w\<lparr>trace := trace w @ [e]\<rparr>)"
  by (simp add: emit_def)

lemma run_observe [io_simps]: "run_state (observe f) w = (f (trace w), w)"
  by (simp add: observe_def)

text \<open>The result of a wait and of a call, and the events they add.\<close>

definition wait_result :: "nat option \<Rightarrow> nat \<Rightarrow> nat \<times> bool" where
  "wait_result a timeout =
     (case a of Some d \<Rightarrow> if d \<le> timeout then (d, True) else (timeout, False)
      | None \<Rightarrow> (timeout, False))"

definition reply_result :: "(nat \<times> 'r) option \<Rightarrow> nat \<Rightarrow> nat \<times> 'r option" where
  "reply_result a timeout =
     (case a of Some (d, r) \<Rightarrow> if d \<le> timeout then (d, Some r) else (timeout, None)
      | None \<Rightarrow> (timeout, None))"

lemma run_wait_for_service [io_simps]:
  "run_state (wait_for_service env name timeout) w =
     (let (d, b) = wait_result (env_wait env (trace w) name) timeout
      in (b, w\<lparr>trace := trace w @ [Waited name d b]\<rparr>))"
  by (simp add: wait_for_service_def wait_result_def io_simps split: option.splits)

lemma run_service_is_ready [io_simps]:
  "run_state (service_is_ready env name) w = (env_wait env (trace w) name = Some 0, w)"
  by (simp add: service_is_ready_def io_simps)

lemma run_send_and_wait [io_simps]:
  "run_state (send_and_wait env name q timeout) w =
     (let (d, r) = reply_result (env_reply env (trace w @ [Sent name q]) name q) timeout
      in (r, w\<lparr>trace := trace w @ [Sent name q, Awaited name d (r \<noteq> None)]\<rparr>))"
  by (simp add: send_and_wait_def reply_result_def io_simps split: option.splits)

lemma run_sleep_for [io_simps]:
  "run_state (sleep_for t) w = ((), w\<lparr>trace := trace w @ [Slept t]\<rparr>)"
  by (simp add: sleep_for_def io_simps)

lemma run_publish [io_simps]:
  "run_state (publish topic m) w = ((), w\<lparr>trace := trace w @ [Published topic m]\<rparr>)"
  by (simp add: publish_def io_simps)

lemma wait_result_time: "fst (wait_result a timeout) \<le> timeout"
  by (simp add: wait_result_def split: option.splits)

lemma reply_result_time: "fst (reply_result a timeout) \<le> timeout"
  by (auto simp: reply_result_def split: option.splits)

text \<open>A reply: its success flag (\<^verbatim>\<open>ok\<close> or \<^verbatim>\<open>success\<close>) and its message.\<close>

record reply =
  rp_success :: bool
  rp_message :: string

end
