(* ===== verification/Service_Calls.thy ===== *)
theory Service_Calls
  imports Ros_Io "HOL-Library.Sublist"
begin

text \<open>
  The contract of a call that goes through service clients: which requests it may send and in
  which order, how long it may block, and what an \<open>Ok\<close> result guarantees. Sequencing two such
  calls under early return, rewording an error and skipping a call keep the contract, so the
  operations that are built that way inherit it.
\<close>

section \<open>Time bounds and request plans\<close>

definition blocks_at_most :: "nat \<Rightarrow> (('q, 'm, 'z) world_scheme, 'a) state \<Rightarrow> bool" where
  "blocks_at_most t m \<longleftrightarrow>
     (\<forall>w. elapsed (trace (snd (run_state m w))) \<le> elapsed (trace w) + t)"

definition sends_within :: "(string \<times> 'q) list \<Rightarrow> (('q, 'm, 'z) world_scheme, 'a) state \<Rightarrow> bool" where
  "sends_within plan m \<longleftrightarrow>
     (\<forall>w. \<exists>qs. requests (trace (snd (run_state m w))) = requests (trace w) @ qs \<and> subseq qs plan)"

lemma blocks_return [time_rules]: "blocks_at_most 0 (State_Monad.return x)"
  by (simp add: blocks_at_most_def)

lemma blocks_bind [time_rules]:
  assumes "blocks_at_most s m" and "\<And>x. blocks_at_most t (f x)"
  shows "blocks_at_most (s + t) (m \<bind> f)"
  unfolding blocks_at_most_def
proof
  fix w
  obtain x w' where m: "run_state m w = (x, w')" by (cases "run_state m w")
  have "elapsed (trace w') \<le> elapsed (trace w) + s"
    using assms(1) m unfolding blocks_at_most_def by (metis snd_conv)
  moreover have "elapsed (trace (snd (run_state (f x) w'))) \<le> elapsed (trace w') + t"
    using assms(2) unfolding blocks_at_most_def by blast
  ultimately show "elapsed (trace (snd (run_state (m \<bind> f) w))) \<le> elapsed (trace w) + (s + t)"
    by (simp add: run_bind m)
qed

lemma blocks_mono: "blocks_at_most s m \<Longrightarrow> s \<le> t \<Longrightarrow> blocks_at_most t m"
  unfolding blocks_at_most_def by (meson add_left_mono le_trans)

lemma blocks_if [time_rules]:
  "blocks_at_most s m \<Longrightarrow> blocks_at_most t n \<Longrightarrow> blocks_at_most (max s t) (if b then m else n)"
  by (auto intro: blocks_mono)

text \<open>An operation that changes nothing but the record of what happened.\<close>

definition logs_only :: "(('q, 'm, 'z) world_scheme, 'a) state \<Rightarrow> bool" where
  "logs_only m \<longleftrightarrow>
     (\<forall>w. snd (run_state m w) = w\<lparr>trace := trace (snd (run_state m w))\<rparr>)"

lemma logs_only_snd: "logs_only m \<Longrightarrow> run_state m w = (x, w') \<Longrightarrow> w' = w\<lparr>trace := trace w'\<rparr>"
  unfolding logs_only_def by (metis snd_conv)

lemma logs_return [frame_rules]: "logs_only (State_Monad.return x)"
  by (simp add: logs_only_def)

lemma logs_bind [frame_rules]:
  assumes "logs_only m" and "\<And>x. logs_only (f x)"
  shows "logs_only (m \<bind> f)"
  unfolding logs_only_def
proof
  fix w
  obtain x w' where m: "run_state m w = (x, w')" by (cases "run_state m w")
  obtain y w'' where f: "run_state (f x) w' = (y, w'')" by (cases "run_state (f x) w'")
  have "w' = w\<lparr>trace := trace w'\<rparr>" and "w'' = w'\<lparr>trace := trace w''\<rparr>"
    using logs_only_snd [OF assms(1) m] logs_only_snd [OF assms(2) f] by blast+
  then have "w'' = w\<lparr>trace := trace w''\<rparr>"
    by (metis world.surjective world.update_convs(1))
  then show "snd (run_state (m \<bind> f) w) = w\<lparr>trace := trace (snd (run_state (m \<bind> f) w))\<rparr>"
    by (simp add: run_bind m f)
qed

lemma logs_if [frame_rules]: "logs_only m \<Longrightarrow> logs_only n \<Longrightarrow> logs_only (if b then m else n)"
  by simp

lemma logs_primitives [frame_rules]:
  "logs_only (emit e)" "logs_only (observe f)" "logs_only (wait_for_service env name t)"
  "logs_only (service_is_ready env name)" "logs_only (send_and_wait env name q t)"
  "logs_only (sleep_for t)" "logs_only (publish topic m)"
  by (simp_all add: logs_only_def io_simps case_prod_beta Let_def)

lemma logs_return_if_error [frame_rules]:
  "logs_only m \<Longrightarrow> logs_only k \<Longrightarrow> logs_only (return_if_error m k)"
  unfolding return_if_error_def by (intro frame_rules)

lemma sends_return: "sends_within [] (State_Monad.return x)"
  by (simp add: sends_within_def)

lemma sends_bind:
  assumes "sends_within p m" and "\<And>x. sends_within q (f x)"
  shows "sends_within (p @ q) (m \<bind> f)"
  unfolding sends_within_def
proof
  fix w
  obtain x w' where m: "run_state m w = (x, w')" by (cases "run_state m w")
  obtain ps where ps: "requests (trace w') = requests (trace w) @ ps" "subseq ps p"
    using assms(1) m unfolding sends_within_def by (metis snd_conv)
  obtain qs where qs: "requests (trace (snd (run_state (f x) w'))) = requests (trace w') @ qs"
      "subseq qs q"
    using assms(2) unfolding sends_within_def by blast
  show "\<exists>rs. requests (trace (snd (run_state (m \<bind> f) w))) = requests (trace w) @ rs
      \<and> subseq rs (p @ q)"
    using ps qs by (intro exI [of _ "ps @ qs"]) (simp add: run_bind m list_emb_append_mono)
qed

lemma sends_weaken: "sends_within p m \<Longrightarrow> subseq p q \<Longrightarrow> sends_within q m"
  unfolding sends_within_def by (meson subseq_order.order_trans)

lemma blocks_emit [time_rules]: "blocks_at_most (event_time e) (emit e)"
  by (simp add: blocks_at_most_def io_simps)

lemma blocks_observe [time_rules]: "blocks_at_most 0 (observe f)"
  by (simp add: blocks_at_most_def io_simps)

lemma blocks_wait_for_service [time_rules]: "blocks_at_most t (wait_for_service env name t)"
  by (simp add: blocks_at_most_def io_simps case_prod_beta Let_def wait_result_time)

lemma blocks_service_is_ready [time_rules]: "blocks_at_most 0 (service_is_ready env name)"
  by (simp add: blocks_at_most_def io_simps)

lemma blocks_send_and_wait [time_rules]: "blocks_at_most t (send_and_wait env name q t)"
  by (simp add: blocks_at_most_def io_simps case_prod_beta Let_def reply_result_time)

lemma blocks_sleep [time_rules]: "blocks_at_most t (sleep_for t)"
  by (simp add: blocks_at_most_def io_simps)

lemma blocks_publish [time_rules]: "blocks_at_most 0 (publish topic m)"
  by (simp add: blocks_at_most_def io_simps)

text \<open>An operation that publishes nothing.\<close>

definition publishes_nothing :: "(('q, 'm, 'z) world_scheme, 'a) state \<Rightarrow> bool" where
  "publishes_nothing m \<longleftrightarrow>
     (\<forall>w. published (trace (snd (run_state m w))) = published (trace w))"

lemma quiet_return [frame_rules]: "publishes_nothing (State_Monad.return x)"
  by (simp add: publishes_nothing_def)

lemma quiet_bind [frame_rules]:
  "publishes_nothing m \<Longrightarrow> (\<And>x. publishes_nothing (f x)) \<Longrightarrow> publishes_nothing (m \<bind> f)"
  by (simp add: publishes_nothing_def run_bind case_prod_beta)

lemma quiet_if [frame_rules]:
  "publishes_nothing m \<Longrightarrow> publishes_nothing n \<Longrightarrow> publishes_nothing (if b then m else n)"
  by simp

lemma quiet_primitives [frame_rules]:
  "publishes_nothing (wait_for_service env name t)" "publishes_nothing (service_is_ready env name)"
  "publishes_nothing (send_and_wait env name q t)" "publishes_nothing (sleep_for t)"
  by (simp_all add: publishes_nothing_def sleep_for_def io_simps case_prod_beta Let_def)

lemma quiet_return_if_error [frame_rules]:
  "publishes_nothing m \<Longrightarrow> publishes_nothing k \<Longrightarrow> publishes_nothing (return_if_error m k)"
  unfolding return_if_error_def by (intro frame_rules)

text \<open>An operation that only adds to the record of what happened.\<close>

definition appends :: "(('q, 'm, 'z) world_scheme, 'a) state \<Rightarrow> bool" where
  "appends m \<longleftrightarrow> (\<forall>w. \<exists>io. trace (snd (run_state m w)) = trace w @ io)"

lemma appends_return [frame_rules]: "appends (State_Monad.return x)"
  by (simp add: appends_def)

lemma appends_bind [frame_rules]:
  assumes "appends m" and "\<And>x. appends (f x)"
  shows "appends (m \<bind> f)"
  unfolding appends_def
proof
  fix w
  obtain x w' where m: "run_state m w = (x, w')" by (cases "run_state m w")
  obtain io where "trace w' = trace w @ io"
    using assms(1) m unfolding appends_def by (metis snd_conv)
  moreover obtain io' where "trace (snd (run_state (f x) w')) = trace w' @ io'"
    using assms(2) unfolding appends_def by blast
  ultimately show "\<exists>io. trace (snd (run_state (m \<bind> f) w)) = trace w @ io"
    by (simp add: run_bind m)
qed

lemma appends_if [frame_rules]: "appends m \<Longrightarrow> appends n \<Longrightarrow> appends (if b then m else n)"
  by simp

lemma appends_primitives [frame_rules]:
  "appends (emit e)" "appends (observe f)" "appends (wait_for_service env name t)"
  "appends (service_is_ready env name)" "appends (send_and_wait env name q t)"
  "appends (sleep_for t)" "appends (publish topic m)"
  by (simp_all add: appends_def io_simps case_prod_beta Let_def)

section \<open>The contract of a status-returning call\<close>

locale status_call =
  fixes call :: "(('q, 'm, 'z) world_scheme, status) state"
    and plan :: "(string \<times> 'q) list"
    and budget :: nat
  assumes in_time: "blocks_at_most budget call"
    and follows_plan: "\<exists>qs. requests (trace (snd (run_state call w))) = requests (trace w) @ qs
          \<and> prefix qs plan \<and> (ok (fst (run_state call w)) \<longrightarrow> qs = plan)"
    and only_logs: "logs_only call"
begin

lemma sends_plan: "sends_within plan call"
  unfolding sends_within_def using follows_plan prefix_imp_subseq by blast

lemma ok_sends_all:
  "ok (fst (run_state call w)) \<Longrightarrow>
     requests (trace (snd (run_state call w))) = requests (trace w) @ plan"
  using follows_plan by metis

lemma sends_prefix:
  obtains n where "requests (trace (snd (run_state call w))) = requests (trace w) @ take n plan"
  using follows_plan [of w] by (metis append_eq_conv_conj prefix_def)

end

text \<open>Doing one call, and the next one only if it succeeded.\<close>

locale call_sequence =
  first: status_call call1 plan1 budget1 + second: status_call call2 plan2 budget2
  for call1 :: "(('q, 'm, 'z) world_scheme, status) state" and plan1 budget1
  and call2 :: "(('q, 'm, 'z) world_scheme, status) state" and plan2 budget2
begin

lemma both_in_time: "blocks_at_most (budget1 + budget2) (return_if_error call1 call2)"
  unfolding return_if_error_def
  by (intro blocks_bind first.in_time)
     (auto intro: second.in_time blocks_mono [OF blocks_return])

lemma both_follow_plan:
  "\<exists>qs. requests (trace (snd (run_state (return_if_error call1 call2) w))) = requests (trace w) @ qs
     \<and> prefix qs (plan1 @ plan2)
     \<and> (ok (fst (run_state (return_if_error call1 call2) w)) \<longrightarrow> qs = plan1 @ plan2)"
proof (cases "ok (fst (run_state call1 w))")
  case True
  obtain x w' where 1: "run_state call1 w = (x, w')" by (cases "run_state call1 w")
  obtain qs where "requests (trace (snd (run_state call2 w'))) = requests (trace w') @ qs
      \<and> prefix qs plan2 \<and> (ok (fst (run_state call2 w')) \<longrightarrow> qs = plan2)"
    using second.follows_plan by blast
  moreover have "requests (trace w') = requests (trace w) @ plan1"
    using first.ok_sends_all [OF True] 1 by simp
  ultimately show ?thesis
    using True 1 by (intro exI [of _ "plan1 @ qs"]) (simp add: io_simps)
next
  case False
  obtain x w' where 1: "run_state call1 w = (x, w')" by (cases "run_state call1 w")
  with False have "run_state (return_if_error call1 call2) w = (x, w')" and "\<not> ok x"
    by (simp_all add: io_simps)
  then show ?thesis
    using first.follows_plan [of w] 1 by (metis fst_conv snd_conv prefix_prefix)
qed

end

sublocale call_sequence \<subseteq> both:
  status_call "return_if_error call1 call2" "plan1 @ plan2" "budget1 + budget2"
  by unfold_locales
    (rule both_in_time, rule both_follow_plan, rule logs_return_if_error [OF first.only_logs second.only_logs])

context call_sequence begin

lemma both_contract: "status_call (return_if_error call1 call2) (plan1 @ plan2) (budget1 + budget2)"
  by unfold_locales

end

lemma sequence_call:
  "status_call m p s \<Longrightarrow> status_call k q t \<Longrightarrow>
     status_call (return_if_error m k) (p @ q) (s + t)"
  by (rule call_sequence.both_contract) (simp add: call_sequence_def)

text \<open>Rewording the error of a call.\<close>

definition relabel_error :: "(status \<Rightarrow> status) \<Rightarrow> ('s, status) state \<Rightarrow> ('s, status) state" where
  "relabel_error f m = do { r \<leftarrow> m; State_Monad.return (if ok r then r else f r) }"

lemma run_relabel_error [io_simps]:
  "run_state (relabel_error f m) w =
     (case run_state m w of (r, w') \<Rightarrow> (if ok r then r else f r, w'))"
  by (simp add: relabel_error_def io_simps split: prod.splits)

locale relabelled_call = status_call call plan budget
  for call :: "(('q, 'm, 'z) world_scheme, status) state" and plan budget +
  fixes reword :: "status \<Rightarrow> status"
  assumes still_error: "\<not> ok r \<Longrightarrow> \<not> ok (reword r)"

sublocale relabelled_call \<subseteq> reworded: status_call "relabel_error reword call" plan budget
proof
  show "blocks_at_most budget (relabel_error reword call)"
    using blocks_bind [OF in_time blocks_return] by (simp add: relabel_error_def)
  show "logs_only (relabel_error reword call)"
    unfolding relabel_error_def by (intro frame_rules only_logs)
  show "\<exists>qs. requests (trace (snd (run_state (relabel_error reword call) w))) = requests (trace w) @ qs
      \<and> prefix qs plan \<and> (ok (fst (run_state (relabel_error reword call) w)) \<longrightarrow> qs = plan)" for w
  proof -
    obtain r w' where r: "run_state call w = (r, w')" by (cases "run_state call w")
    have "run_state (relabel_error reword call) w = (if ok r then r else reword r, w')"
      using r by (simp add: io_simps)
    moreover have "ok (if ok r then r else reword r) \<longleftrightarrow> ok r"
      using still_error by simp
    ultimately show ?thesis using follows_plan [of w] r by simp
  qed
qed

lemma status_call_return: "status_call (State_Monad.return OkStatus) [] 0"
  by unfold_locales (simp_all add: blocks_return logs_return)

lemma status_call_mono: "status_call m p s \<Longrightarrow> s \<le> t \<Longrightarrow> status_call m p t"
  by (auto simp: status_call_def intro: blocks_mono)

lemma status_call_when:
  assumes "status_call m p t"
  shows "status_call (if b then m else State_Monad.return OkStatus) (if b then p else []) t"
  using assms by (cases b) (auto intro: status_call_mono [OF status_call_return])

lemma status_call_after_sleep:
  assumes "status_call m p t"
  shows "status_call (do { _ \<leftarrow> sleep_for s; m }) p (s + t)"
proof
  show "blocks_at_most (s + t) (do { _ \<leftarrow> sleep_for s; m })"
    using assms by (intro blocks_bind blocks_sleep) (simp add: status_call_def)
  show "logs_only (do { _ \<leftarrow> sleep_for s; m })"
    using assms by (intro frame_rules) (simp add: status_call_def)
  show "\<exists>qs. requests (trace (snd (run_state (do { _ \<leftarrow> sleep_for s; m }) w))) = requests (trace w) @ qs
      \<and> prefix qs p \<and> (ok (fst (run_state (do { _ \<leftarrow> sleep_for s; m }) w)) \<longrightarrow> qs = p)" for w
    using status_call.follows_plan [OF assms, of "w\<lparr>trace := trace w @ [Slept s]\<rparr>"]
    by (simp add: io_simps sleep_for_def)
qed

section \<open>One round trip\<close>

text \<open>
  The shape all client calls of the program share: wait for the service, send, wait for the reply,
  judge it.
\<close>

definition round_trip ::
  "('q, 'm, 'r, 'e) ros_env_scheme \<Rightarrow> string \<Rightarrow> 'q \<Rightarrow> nat \<Rightarrow> nat \<Rightarrow> status \<Rightarrow> status
     \<Rightarrow> ('r \<Rightarrow> status) \<Rightarrow> (('q, 'm, 'z) world_scheme, status) state" where
  "round_trip env name q wait_ms reply_ms absent late judge = do {
     there \<leftarrow> wait_for_service env name wait_ms;
     if \<not> there then State_Monad.return absent
     else do {
       answer \<leftarrow> send_and_wait env name q reply_ms;
       (case answer of None \<Rightarrow> State_Monad.return late | Some r \<Rightarrow> State_Monad.return (judge r)) } }"

lemma run_round_trip:
  "run_state (round_trip env name q wt rt absent late judge) w =
     (let (d, b) = wait_result (env_wait env (trace w) name) wt in
      if \<not> b then (absent, w\<lparr>trace := trace w @ [Waited name d b]\<rparr>)
      else let h = trace w @ [Waited name d b, Sent name q];
               (d', r) = reply_result (env_reply env h name q) rt
           in (case r of None \<Rightarrow> late | Some x \<Rightarrow> judge x,
               w\<lparr>trace := h @ [Awaited name d' (r \<noteq> None)]\<rparr>))"
  by (simp add: round_trip_def io_simps Let_def split: prod.splits option.splits)

lemma round_trip_status_call:
  assumes "\<not> ok absent" and "\<not> ok late"
  shows "status_call (round_trip env name q wt rt absent late judge) [(name, q)] (wt + rt)"
proof
  have inner: "blocks_at_most rt (do { a \<leftarrow> send_and_wait env name q rt;
      case a of None \<Rightarrow> State_Monad.return late | Some r \<Rightarrow> State_Monad.return (judge r) })"
    by (rule blocks_bind [OF blocks_send_and_wait, where t = 0, simplified])
       (simp add: blocks_return split: option.split)
  show "blocks_at_most (wt + rt) (round_trip env name q wt rt absent late judge)"
    unfolding round_trip_def
    by (intro blocks_bind blocks_wait_for_service) (auto intro: inner blocks_mono [OF blocks_return])
  show "logs_only (round_trip env name q wt rt absent late judge)"
    unfolding round_trip_def by (intro frame_rules) (simp add: frame_rules split: option.split)
  show "\<exists>qs. requests (trace (snd (run_state (round_trip env name q wt rt absent late judge) w)))
      = requests (trace w) @ qs \<and> prefix qs [(name, q)] \<and>
      (ok (fst (run_state (round_trip env name q wt rt absent late judge) w)) \<longrightarrow> qs = [(name, q)])" for w
    using assms by (auto simp: run_round_trip Let_def split: prod.splits)
qed

lemma round_trip_within:
  "\<not> ok absent \<Longrightarrow> \<not> ok late \<Longrightarrow> wt + rt \<le> t \<Longrightarrow>
     status_call (round_trip env name q wt rt absent late judge) [(name, q)] t"
  by (rule status_call_mono [OF round_trip_status_call])

lemma quiet_round_trip [frame_rules]:
  "publishes_nothing (round_trip env name q wt rt absent late judge)"
  unfolding round_trip_def by (intro frame_rules) (simp add: frame_rules split: option.split)

text \<open>
  Whether a request made after \<open>h\<close> is accepted by a service that has to appear within 1 s and to answer within 5 s,
  and what the call adds to the history either way.
\<close>

definition accepts :: "('q, 'm, reply, 'e) ros_env_scheme \<Rightarrow> ('q, 'm) io_event list \<Rightarrow> string \<Rightarrow> 'q \<Rightarrow> bool" where
  "accepts env h s q \<longleftrightarrow>
     (let (d, there) = wait_result (env_wait env h s) 1000 in there
        \<and> (case snd (reply_result (env_reply env (h @ [Waited s d True, Sent s q]) s q) 5000) of
             None \<Rightarrow> False
           | Some r \<Rightarrow> rp_success r))"

definition history_after ::
  "('q, 'm, reply, 'e) ros_env_scheme \<Rightarrow> ('q, 'm) io_event list \<Rightarrow> string \<Rightarrow> 'q \<Rightarrow> ('q, 'm) io_event list" where
  "history_after env h s q =
     (let (d, there) = wait_result (env_wait env h s) 1000 in
      if there
      then let (d', r) = reply_result (env_reply env (h @ [Waited s d True, Sent s q]) s q) 5000
           in h @ [Waited s d True, Sent s q, Awaited s d' (r \<noteq> None)]
      else h @ [Waited s d False])"

lemma round_trip_accepts:
  assumes "\<not> ok absent" and "\<not> ok late" and "\<And>r. ok (judge r) \<longleftrightarrow> rp_success r"
  shows "ok (fst (run_state (round_trip env s q 1000 5000 absent late judge) w)) \<longleftrightarrow> accepts env (trace w) s q"
    and "trace (snd (run_state (round_trip env s q 1000 5000 absent late judge) w)) = history_after env (trace w) s q"
  using assms by (auto simp: run_round_trip accepts_def history_after_def Let_def case_prod_beta split: option.split)

text \<open>An outside whose answers do not depend on what happened before.\<close>

definition stationary ::
  "('q, 'm, 'r, 'e) ros_env_scheme \<Rightarrow> (string \<Rightarrow> nat option) \<Rightarrow> (string \<Rightarrow> 'q \<Rightarrow> (nat \<times> 'r) option) \<Rightarrow> bool" where
  "stationary env W R \<longleftrightarrow> (\<forall>h s. env_wait env h s = W s) \<and> (\<forall>h s q. env_reply env h s q = R s q)"

definition in_time :: "nat option \<Rightarrow> nat \<Rightarrow> bool" where
  "in_time a t \<longleftrightarrow> (\<exists>d \<le> t. a = Some d)"

definition answers :: "(nat \<times> 'r) option \<Rightarrow> nat \<Rightarrow> ('r \<Rightarrow> bool) \<Rightarrow> bool" where
  "answers a t P \<longleftrightarrow> (\<exists>d \<le> t. \<exists>r. a = Some (d, r) \<and> P r)"

lemma round_trip_ok_iff:
  assumes "stationary env W R" and "\<not> ok absent" and "\<not> ok late"
  shows "ok (fst (run_state (round_trip env name q wt rt absent late judge) w)) \<longleftrightarrow>
    in_time (W name) wt \<and> answers (R name q) rt (\<lambda>r. ok (judge r))"
  using assms
  by (auto simp: run_round_trip stationary_def wait_result_def reply_result_def in_time_def
      answers_def Let_def split: option.splits if_splits)

text \<open>How long a successful one takes.\<close>

lemma round_trip_ok_time:
  assumes "stationary env W R" and "\<not> ok absent" and "\<not> ok late"
    and "ok (fst (run_state (round_trip env name q wt rt absent late judge) w))"
  shows "elapsed (trace (snd (run_state (round_trip env name q wt rt absent late judge) w))) =
    elapsed (trace w) + the (W name) + fst (the (R name q))"
  using assms
  by (auto simp: run_round_trip stationary_def wait_result_def reply_result_def
      Let_def split: option.splits if_splits)

section \<open>Exact durations\<close>

text \<open>
  An operation that takes exactly \<open>c\<close> milliseconds in every state, with a result that satisfies \<open>P\<close>: what
  calls do in an outside whose answers do not depend on the past.
\<close>

definition takes :: "nat \<Rightarrow> ('a \<Rightarrow> bool) \<Rightarrow> (('q, 'm, 'z) world_scheme, 'a) state \<Rightarrow> bool" where
  "takes c P m \<longleftrightarrow> (\<forall>w. P (fst (run_state m w))
     \<and> elapsed (trace (snd (run_state m w))) = elapsed (trace w) + c)"

lemma takes_return: "P x \<Longrightarrow> takes 0 P (State_Monad.return x)"
  by (simp add: takes_def)

lemma takes_sleep: "P () \<Longrightarrow> takes t P (sleep_for t)"
  by (simp add: takes_def io_simps)

lemma takes_bind:
  assumes "takes c P m" and "\<And>x. P x \<Longrightarrow> takes d Q (f x)"
  shows "takes (c + d) Q (m \<bind> f)"
  unfolding takes_def
proof
  fix w
  obtain x w' where m: "run_state m w = (x, w')" by (cases "run_state m w")
  have "P x" "elapsed (trace w') = elapsed (trace w) + c"
    using assms(1) m unfolding takes_def by (metis fst_conv, metis snd_conv)
  then show "Q (fst (run_state (m \<bind> f) w))
      \<and> elapsed (trace (snd (run_state (m \<bind> f) w))) = elapsed (trace w) + (c + d)"
    using assms(2) [of x] by (simp add: takes_def run_bind m)
qed

lemma takes_if:
  "(b \<Longrightarrow> takes c P m) \<Longrightarrow> (\<not> b \<Longrightarrow> takes d P k) \<Longrightarrow> takes (if b then c else d) P (if b then m else k)"
  by simp

lemma takes_weaken: "takes c P m \<Longrightarrow> (\<And>x. P x \<Longrightarrow> Q x) \<Longrightarrow> takes c Q m"
  unfolding takes_def by blast

end
