(* ===== verification/Ros2_Hwm.thy ===== *)
theory Ros2_Hwm
  imports Service_Calls
begin

text \<open>
  \<^verbatim>\<open>Ros2HwmImpl\<close> outside the realtime loop (\<^verbatim>\<open>ros2_hwm_impl.cpp\<close>): its
  parameters and members, \<^verbatim>\<open>Create\<close>, \<^verbatim>\<open>Init\<close>, \<^verbatim>\<open>Prepare\<close>,
  \<^verbatim>\<open>EnableMotion\<close>, \<^verbatim>\<open>DisableMotion\<close>, \<^verbatim>\<open>ClearFaults\<close>,
  \<^verbatim>\<open>Shutdown\<close>, the status subscription and the two controller-manager calls. Pointers
  are addresses (\<open>None\<close> is the null pointer).
\<close>

section \<open>Data\<close>

record hwm_params =
  hp_hardware_component_name :: string
  hp_num_dofs :: nat
  hp_state_interfaces :: "nat option"
  hp_command_interfaces :: "nat option"
  hp_state_stride :: nat
  hp_command_stride :: nat
  hp_has_velocity_state :: bool
  hp_has_velocity_command :: bool
  hp_operational_status_topic :: string
  hp_clear_faults_service :: string
  hp_controllers_to_activate :: "string list"
  hp_controllers_to_deactivate :: "string list"
  hp_clock :: "nat option"
  hp_logger :: "nat option"

text \<open>Constants of the controller-manager messages, which the code only passes on.\<close>

datatype strictness = BEST_EFFORT | Other_Strictness i32
datatype lifecycle_state = PRIMARY_STATE_ACTIVE | PRIMARY_STATE_INACTIVE | Other_Lifecycle_State u8

datatype hwm_request =
  SwitchController (sc_activate: "string list") (sc_deactivate: "string list") strictness
| SetHardwareComponentState string lifecycle_state
| TriggerRequest

text \<open>A joint state buffer in shared memory and when it was last stamped.\<close>

record joint_buffer =
  jb_values :: "double list"
  jb_updated_at :: "nat option"

record hwm = "(hwm_request, unit) world" +
  h_params :: hwm_params
  joint_position_state :: "joint_buffer option"
  joint_velocity_state :: "joint_buffer option"
  joint_position_command :: "nat option"
  operational_status_subscription :: "string option"
  latest_operational_status :: operational_status
  clear_faults_client :: "string option"

type_synonym hwm_history = "(hwm_request, unit) io_event list"

record hwm_env = "(hwm_request, unit, reply) ros_env" +
  env_clock_reset :: "hwm_history \<Rightarrow> nat \<Rightarrow> nat \<times> status"

definition switch_controller_service :: string where
  "switch_controller_service = ''/controller_manager/switch_controller''"

definition set_hw_state_service :: string where
  "set_hw_state_service = ''/controller_manager/set_hardware_component_state''"

section \<open>Create and Init\<close>

definition create :: "hwm_params \<Rightarrow> status + hwm" where
  "create params =
    (if hp_state_interfaces params = None then
       Inl (mk_status kInvalidArgument ''state_interfaces pointer cannot be null'')
     else if hp_command_interfaces params = None then
       Inl (mk_status kInvalidArgument ''command_interfaces pointer cannot be null'')
     else if hp_state_stride params = 0 then
       Inl (mk_status kInvalidArgument ''state_stride cannot be 0'')
     else if hp_command_stride params = 0 then
       Inl (mk_status kInvalidArgument ''command_stride cannot be 0'')
     else Inr
       \<lparr>trace = [],
        h_params = params,
        joint_position_state = None,
        joint_velocity_state = None,
        joint_position_command = None,
        operational_status_subscription =
          (if hp_operational_status_topic params \<noteq> [] then Some (hp_operational_status_topic params)
           else None),
        latest_operational_status = mk_os UNKNOWN [],
        clear_faults_client =
          (if hp_clear_faults_service params \<noteq> [] then Some (hp_clear_faults_service params)
           else None)\<rparr>)"

text \<open>
  The interface registry: advertising a state interface hands out a buffer, advertising a command
  interface a handle. Each failed advertisement returns at once, the members assigned before it
  stay assigned.
\<close>

record registry =
  advertise_state :: "string \<Rightarrow> nat \<Rightarrow> status + double list"
  advertise_command :: "string \<Rightarrow> nat \<Rightarrow> status + nat"

definition init :: "registry \<Rightarrow> hwm \<Rightarrow> status \<times> hwm" where
  "init reg h =
    (let n = hp_num_dofs (h_params h) in
     case advertise_state reg ''joint_position_state'' n of
       Inl e \<Rightarrow> (e, h)
     | Inr pos \<Rightarrow>
       (let h1 = h\<lparr>joint_position_state := Some \<lparr>jb_values = pos, jb_updated_at = None\<rparr>\<rparr> in
        case advertise_state reg ''joint_velocity_state'' n of
          Inl e \<Rightarrow> (e, h1)
        | Inr vel \<Rightarrow>
          (let h2 = h1\<lparr>joint_velocity_state := Some \<lparr>jb_values = vel, jb_updated_at = None\<rparr>\<rparr> in
           case advertise_command reg ''joint_position_command'' n of
             Inl e \<Rightarrow> (e, h2)
           | Inr cmd \<Rightarrow> (OkStatus, h2\<lparr>joint_position_command := Some cmd\<rparr>))))"

section \<open>Operational status\<close>

definition on_operational_status :: "operational_status \<Rightarrow> hwm \<Rightarrow> hwm" where
  "on_operational_status msg h = h\<lparr>latest_operational_status := msg\<rparr>"

definition enable_motion :: "hwm \<Rightarrow> status" where
  "enable_motion h =
    (let current = latest_operational_status h in
     if os_state current = FAULTED
     then mk_status kFailedPrecondition
            (''Cannot enable motion while faulted ('' @ os_message current @ '')'')
     else OkStatus)"

definition disable_motion :: "hwm \<Rightarrow> status" where
  "disable_motion h =
    (let current = latest_operational_status h in
     if os_state current = FAULTED
     then mk_status kFailedPrecondition
            (''Cannot disable motion while faulted ('' @ os_message current @ '')'')
     else OkStatus)"

definition hwm_activate :: "hwm \<Rightarrow> status" where
  "hwm_activate h = OkStatus"

definition hwm_deactivate :: "hwm \<Rightarrow> status" where
  "hwm_deactivate h = OkStatus"

section \<open>Calls to the controller manager and the vendor\<close>

definition call_switch_controller ::
  "(hwm_request, 'm, reply, 'e) ros_env_scheme \<Rightarrow> string list \<Rightarrow> string list
     \<Rightarrow> ((hwm_request, 'm, 'z) world_scheme, status) state" where
  "call_switch_controller env activate deactivate = do {
     there \<leftarrow> wait_for_service env switch_controller_service 1000;
     if \<not> there then State_Monad.return (mk_status kDeadlineExceeded
         ''SwitchController service did not become available within 1 second'')
     else do {
       answer \<leftarrow> send_and_wait env switch_controller_service
         (SwitchController activate deactivate BEST_EFFORT) 5000;
       (case answer of
          None \<Rightarrow> State_Monad.return (mk_status kDeadlineExceeded ''SwitchController timeout'')
        | Some response \<Rightarrow> State_Monad.return
           (if \<not> rp_success response then mk_status kInternal ''SwitchController failed''
            else OkStatus)) } }"

definition call_set_hw_state ::
  "(hwm_request, 'm, reply, 'e) ros_env_scheme \<Rightarrow> string \<Rightarrow> lifecycle_state
     \<Rightarrow> ((hwm_request, 'm, 'z) world_scheme, status) state" where
  "call_set_hw_state env name target = do {
     there \<leftarrow> wait_for_service env set_hw_state_service 1000;
     if \<not> there then State_Monad.return (mk_status kUnavailable
         ''SetHardwareComponentState service not available'')
     else do {
       answer \<leftarrow> send_and_wait env set_hw_state_service
         (SetHardwareComponentState name target) 5000;
       (case answer of
          None \<Rightarrow> State_Monad.return (mk_status kDeadlineExceeded ''SetHardwareComponentState timeout'')
        | Some response \<Rightarrow> State_Monad.return
           (if \<not> rp_success response then mk_status kInternal ''SetHardwareComponentState failed''
            else OkStatus)) } }"

definition call_clear_faults_service ::
  "(hwm_request, 'm, reply, 'e) ros_env_scheme \<Rightarrow> string
     \<Rightarrow> ((hwm_request, 'm, 'z) world_scheme, status) state" where
  "call_clear_faults_service env service = do {
     there \<leftarrow> wait_for_service env service 1000;
     if \<not> there then State_Monad.return (mk_status kUnavailable ''ClearFaults service not available'')
     else do {
       answer \<leftarrow> send_and_wait env service TriggerRequest 5000;
       (case answer of
          None \<Rightarrow> State_Monad.return (mk_status kDeadlineExceeded ''ClearFaults service call timed out'')
        | Some response \<Rightarrow> State_Monad.return
           (if \<not> rp_success response
            then mk_status kInternal
                   (''ClearFaults service call failed with message: '' @ rp_message response)
            else OkStatus)) } }"

text \<open>
  Setting the state of the hardware component, when the parameters name one; a failure keeps its
  code and is reworded.
\<close>

definition reword_component :: "string \<Rightarrow> string \<Rightarrow> status \<Rightarrow> status" where
  "reword_component what name res =
     mk_status (st_code res) (what @ quoted name @ '': '' @ st_message res)"

definition set_component ::
  "(hwm_request, 'm, reply, 'e) ros_env_scheme \<Rightarrow> string \<Rightarrow> hwm_params \<Rightarrow> lifecycle_state
     \<Rightarrow> ((hwm_request, 'm, 'z) world_scheme, status) state" where
  "set_component env what params target =
    (if hp_hardware_component_name params \<noteq> []
     then relabel_error (reword_component what (hp_hardware_component_name params))
            (call_set_hw_state env (hp_hardware_component_name params) target)
     else State_Monad.return OkStatus)"

definition reset_clock ::
  "('e) hwm_env_scheme \<Rightarrow> hwm_params \<Rightarrow> nat \<Rightarrow> ((hwm_request, unit, 'z) world_scheme, status) state" where
  "reset_clock env params timeout =
    (if hp_clock params \<noteq> None then do {
       res \<leftarrow> observe (\<lambda>h. env_clock_reset env h timeout);
       _ \<leftarrow> emit (Library_Call ''RealtimeClock::Reset'' (fst res));
       State_Monad.return (snd res) }
     else State_Monad.return OkStatus)"

section \<open>Lifecycle operations\<close>

definition prepare_steps ::
  "('e) hwm_env_scheme \<Rightarrow> hwm_params \<Rightarrow> ((hwm_request, unit, 'z) world_scheme, status) state" where
  "prepare_steps env params =
     return_if_error (reset_clock env params 20000)
      (return_if_error
        (set_component env ''Failed to activate hardware component '' params PRIMARY_STATE_ACTIVE)
        (call_switch_controller env (hp_controllers_to_activate params)
           (hp_controllers_to_deactivate params)))"

definition prepare :: "('e) hwm_env_scheme \<Rightarrow> hwm \<Rightarrow> status \<times> hwm" where
  "prepare env h = run_state (prepare_steps env (h_params h)) h"

definition clear_faults_steps ::
  "(hwm_request, 'm, reply, 'e) ros_env_scheme \<Rightarrow> hwm_params \<Rightarrow> string option
     \<Rightarrow> ((hwm_request, 'm, 'z) world_scheme, status) state" where
  "clear_faults_steps env params client =
     return_if_error
       (case client of Some service \<Rightarrow> call_clear_faults_service env service
        | None \<Rightarrow> State_Monad.return OkStatus)
      (return_if_error
        (set_component env ''ClearFault: Failed to activate hardware component '' params
           PRIMARY_STATE_ACTIVE)
        (call_switch_controller env (hp_controllers_to_activate params)
           (hp_controllers_to_deactivate params)))"

definition clear_faults ::
  "(hwm_request, unit, reply, 'e) ros_env_scheme \<Rightarrow> hwm \<Rightarrow> status \<times> hwm" where
  "clear_faults env h = run_state (clear_faults_steps env (h_params h) (clear_faults_client h)) h"

definition shutdown_steps ::
  "('e) hwm_env_scheme \<Rightarrow> hwm_params \<Rightarrow> ((hwm_request, unit, 'z) world_scheme, status) state" where
  "shutdown_steps env params =
     return_if_error (reset_clock env params 20000)
      (return_if_error
        (call_switch_controller env (hp_controllers_to_deactivate params)
           (hp_controllers_to_activate params))
        (set_component env ''Failed to deactivate hardware component '' params
           PRIMARY_STATE_INACTIVE))"

definition shutdown :: "('e) hwm_env_scheme \<Rightarrow> hwm \<Rightarrow> status \<times> hwm" where
  "shutdown env h = run_state (shutdown_steps env (h_params h)) h"

section \<open>The calls keep the contract\<close>

lemma call_switch_controller_round:
  "call_switch_controller env a d =
     round_trip env switch_controller_service (SwitchController a d BEST_EFFORT) 1000 5000
       (mk_status kDeadlineExceeded ''SwitchController service did not become available within 1 second'')
       (mk_status kDeadlineExceeded ''SwitchController timeout'')
       (\<lambda>r. if \<not> rp_success r then mk_status kInternal ''SwitchController failed'' else OkStatus)"
  by (simp add: call_switch_controller_def round_trip_def)

lemma call_set_hw_state_round:
  "call_set_hw_state env name target =
     round_trip env set_hw_state_service (SetHardwareComponentState name target) 1000 5000
       (mk_status kUnavailable ''SetHardwareComponentState service not available'')
       (mk_status kDeadlineExceeded ''SetHardwareComponentState timeout'')
       (\<lambda>r. if \<not> rp_success r then mk_status kInternal ''SetHardwareComponentState failed''
            else OkStatus)"
  by (simp add: call_set_hw_state_def round_trip_def)

lemma call_clear_faults_service_round:
  "call_clear_faults_service env service =
     round_trip env service TriggerRequest 1000 5000
       (mk_status kUnavailable ''ClearFaults service not available'')
       (mk_status kDeadlineExceeded ''ClearFaults service call timed out'')
       (\<lambda>r. if \<not> rp_success r
            then mk_status kInternal (''ClearFaults service call failed with message: '' @ rp_message r)
            else OkStatus)"
  by (simp add: call_clear_faults_service_def round_trip_def)

definition component_plan :: "hwm_params \<Rightarrow> lifecycle_state \<Rightarrow> (string \<times> hwm_request) list" where
  "component_plan params target =
     (if hp_hardware_component_name params \<noteq> []
      then [(set_hw_state_service,
             SetHardwareComponentState (hp_hardware_component_name params) target)]
      else [])"

definition switch_plan :: "string list \<Rightarrow> string list \<Rightarrow> (string \<times> hwm_request) list" where
  "switch_plan a d = [(switch_controller_service, SwitchController a d BEST_EFFORT)]"

definition trigger_plan :: "string option \<Rightarrow> (string \<times> hwm_request) list" where
  "trigger_plan client = (case client of Some s \<Rightarrow> [(s, TriggerRequest)] | None \<Rightarrow> [])"

interpretation switch: status_call "call_switch_controller env a d" "switch_plan a d" 6000
  for env :: "(hwm_request, 'm, reply, 'e) ros_env_scheme" and a d
  unfolding call_switch_controller_round switch_plan_def
  by (rule round_trip_within) simp_all

lemma set_hw_state_call:
  "status_call (call_set_hw_state env name target)
     [(set_hw_state_service, SetHardwareComponentState name target)] 6000"
  unfolding call_set_hw_state_round
  by (rule round_trip_within) simp_all

interpretation reworded_hw_state:
  relabelled_call "call_set_hw_state env name target"
    "[(set_hw_state_service, SetHardwareComponentState name target)]" 6000 "reword_component what name"
  for env :: "(hwm_request, 'm, reply, 'e) ros_env_scheme" and name target what
  using set_hw_state_call
  by (auto simp: relabelled_call_def relabelled_call_axioms_def reword_component_def ok_def mk_status_def)

interpretation component: status_call "set_component env what p target" "component_plan p target" 6000
  for env :: "(hwm_request, 'm, reply, 'e) ros_env_scheme" and what p target
  unfolding set_component_def component_plan_def
  by (rule status_call_when) (rule reworded_hw_state.reworded.status_call_axioms)

interpretation trigger: status_call
  "case client of Some s \<Rightarrow> call_clear_faults_service env s | None \<Rightarrow> State_Monad.return OkStatus"
  "trigger_plan client" 6000
  for env :: "(hwm_request, 'm, reply, 'e) ros_env_scheme" and client
  unfolding trigger_plan_def call_clear_faults_service_round
  by (cases client) (auto intro: round_trip_within status_call_mono [OF status_call_return])

interpretation reactivate: call_sequence
  "set_component env what p PRIMARY_STATE_ACTIVE" "component_plan p PRIMARY_STATE_ACTIVE" 6000
  "call_switch_controller env a d" "switch_plan a d" 6000
  for env :: "(hwm_request, 'm, reply, 'e) ros_env_scheme" and what p a d
  by unfold_locales

section \<open>What the lifecycle operations request\<close>

definition recovery_plan :: "hwm_params \<Rightarrow> string option \<Rightarrow> (string \<times> hwm_request) list" where
  "recovery_plan p client = trigger_plan client @ component_plan p PRIMARY_STATE_ACTIVE
     @ switch_plan (hp_controllers_to_activate p) (hp_controllers_to_deactivate p)"

definition start_plan :: "hwm_params \<Rightarrow> (string \<times> hwm_request) list" where
  "start_plan p = component_plan p PRIMARY_STATE_ACTIVE
     @ switch_plan (hp_controllers_to_activate p) (hp_controllers_to_deactivate p)"

definition stop_plan :: "hwm_params \<Rightarrow> (string \<times> hwm_request) list" where
  "stop_plan p = switch_plan (hp_controllers_to_deactivate p) (hp_controllers_to_activate p)
     @ component_plan p PRIMARY_STATE_INACTIVE"

interpretation recovery: call_sequence
  "case client of Some s \<Rightarrow> call_clear_faults_service env s | None \<Rightarrow> State_Monad.return OkStatus"
  "trigger_plan client" 6000
  "return_if_error (set_component env what p PRIMARY_STATE_ACTIVE) (call_switch_controller env a d)"
  "component_plan p PRIMARY_STATE_ACTIVE @ switch_plan a d" "6000 + 6000"
  for env :: "(hwm_request, 'm, reply, 'e) ros_env_scheme" and client what p a d
  by unfold_locales

interpretation recover: status_call "clear_faults_steps env p client" "recovery_plan p client" 18000
  for env :: "(hwm_request, 'm, reply, 'e) ros_env_scheme" and p client
  unfolding clear_faults_steps_def recovery_plan_def
  using recovery.both.status_call_axioms by simp

interpretation teardown: call_sequence
  "call_switch_controller env a d" "switch_plan a d" 6000
  "set_component env what p PRIMARY_STATE_INACTIVE" "component_plan p PRIMARY_STATE_INACTIVE" 6000
  for env :: "(hwm_request, 'm, reply, 'e) ros_env_scheme" and what p a d
  by unfold_locales

text \<open>
  The clock of the shared-memory library gives up within the timeout it is handed: what
  \<^verbatim>\<open>Reset(timeout)\<close> documents.
\<close>

definition clock_resets_in_time :: "('e) hwm_env_scheme \<Rightarrow> bool" where
  "clock_resets_in_time env \<longleftrightarrow> (\<forall>h t. fst (env_clock_reset env h t) \<le> t)"

lemma reset_clock_call:
  "clock_resets_in_time env \<Longrightarrow> status_call (reset_clock env p t) [] t"
  by unfold_locales
    (auto simp: reset_clock_def clock_resets_in_time_def blocks_at_most_def logs_only_def io_simps)

lemma prepare_call:
  assumes "clock_resets_in_time env"
  shows "status_call (prepare_steps env p) (start_plan p) 32000"
  using sequence_call [OF reset_clock_call [OF assms, of p 20000] reactivate.both.status_call_axioms]
  unfolding prepare_steps_def start_plan_def by simp

lemma shutdown_call:
  assumes "clock_resets_in_time env"
  shows "status_call (shutdown_steps env p) (stop_plan p) 32000"
  using sequence_call [OF reset_clock_call [OF assms, of p 20000] teardown.both.status_call_axioms]
  unfolding shutdown_steps_def stop_plan_def by simp

section \<open>Concrete and serving environments\<close>

text \<open>A concrete environment in which every service is there and accepts.\<close>

definition accepting_env :: hwm_env where
  "accepting_env =
    \<lparr>env_wait = (\<lambda>h s. Some 0),
     env_reply = (\<lambda>h s q. Some (0, \<lparr>rp_success = True, rp_message = []\<rparr>)),
     env_clock_reset = (\<lambda>h t. (0, OkStatus))\<rparr>"

definition example_params :: hwm_params where
  "example_params =
    \<lparr>hp_hardware_component_name = ''ur5e'', hp_num_dofs = 2,
     hp_state_interfaces = Some 0, hp_command_interfaces = Some 1,
     hp_state_stride = 2, hp_command_stride = 1,
     hp_has_velocity_state = True, hp_has_velocity_command = False,
     hp_operational_status_topic = ''/operational_status'', hp_clear_faults_service = ''/clear_faults'',
     hp_controllers_to_activate = [''icon_controller''],
     hp_controllers_to_deactivate = [''trajectory_controller''],
     hp_clock = Some 2, hp_logger = Some 3\<rparr>"

definition example_hwm :: hwm where
  "example_hwm = projr (create example_params)"

lemma example_hwm_sel:
  "trace example_hwm = []" "h_params example_hwm = example_params"
  "clear_faults_client example_hwm = Some ''/clear_faults''"
  "latest_operational_status example_hwm = mk_os UNKNOWN []"
  "operational_status_subscription example_hwm \<noteq> None"
  by (simp_all add: example_hwm_def create_def example_params_def)

lemmas run_hwm_simps = io_simps Let_def call_clear_faults_service_round call_switch_controller_round
  call_set_hw_state_round run_round_trip set_component_def reset_clock_def

text \<open>A service that appears within a second and accepts the request within five.\<close>

definition serves :: "(hwm_request, 'm, reply, 'e) ros_env_scheme \<Rightarrow> string \<Rightarrow> hwm_request \<Rightarrow> bool" where
  "serves env s q \<longleftrightarrow> (\<forall>h. \<exists>d \<le> 1000. env_wait env h s = Some d)
     \<and> (\<forall>h. \<exists>d \<le> 5000. \<exists>r. env_reply env h s q = Some (d, r) \<and> rp_success r)"

lemma serves_round_trip:
  assumes "serves env name q" and "\<And>r. rp_success r \<Longrightarrow> judge r = OkStatus"
  shows "fst (run_state (round_trip env name q 1000 5000 absent late judge) w) = OkStatus"
proof -
  obtain d where "d \<le> 1000" "env_wait env (trace w) name = Some d"
    using assms(1) unfolding serves_def by blast
  moreover obtain d' r where "d' \<le> 5000" "rp_success r"
      "env_reply env (trace w @ [Waited name d True, Sent name q]) name q = Some (d', r)"
    using assms(1) unfolding serves_def by blast
  ultimately show ?thesis
    using assms(2) by (simp add: run_round_trip wait_result_def reply_result_def)
qed

lemma return_if_error_ok:
  assumes "\<And>w. fst (run_state m w) = OkStatus" and "\<And>w. fst (run_state k w) = OkStatus"
  shows "fst (run_state (return_if_error m k) w) = OkStatus"
  using assms by (simp add: io_simps case_prod_beta)

text \<open>The controller manager does what it is asked, in time.\<close>

definition manager_serves :: "(hwm_request, 'm, reply, 'e) ros_env_scheme \<Rightarrow> bool" where
  "manager_serves env \<longleftrightarrow>
     (\<forall>a d. serves env switch_controller_service (SwitchController a d BEST_EFFORT))
     \<and> (\<forall>name target. serves env set_hw_state_service (SetHardwareComponentState name target))"

lemma manager_calls:
  assumes "manager_serves env"
  shows "fst (run_state (call_switch_controller env a d) w) = OkStatus"
    and "fst (run_state (call_set_hw_state env name target) w) = OkStatus"
    and "fst (run_state (set_component env what p target) w) = OkStatus"
proof -
  show "fst (run_state (call_switch_controller env a d) w) = OkStatus"
    unfolding call_switch_controller_round
    by (rule serves_round_trip) (use assms in \<open>simp_all add: manager_serves_def\<close>)
  show hw: "fst (run_state (call_set_hw_state env name target) w) = OkStatus" for name target w
    unfolding call_set_hw_state_round
    by (rule serves_round_trip) (use assms in \<open>simp_all add: manager_serves_def\<close>)
  show "fst (run_state (set_component env what p target) w) = OkStatus"
    by (simp add: set_component_def io_simps case_prod_beta hw)
qed

lemma vendor_call:
  "serves env service TriggerRequest \<Longrightarrow> fst (run_state (call_clear_faults_service env service) w) = OkStatus"
  unfolding call_clear_faults_service_round by (rule serves_round_trip) simp_all

lemma served_recovery:
  assumes "manager_serves env" and "\<And>s. client = Some s \<Longrightarrow> serves env s TriggerRequest"
  shows "fst (run_state (clear_faults_steps env p client) w) = OkStatus"
  unfolding clear_faults_steps_def
  by (intro return_if_error_ok manager_calls [OF assms(1)])
     (simp add: vendor_call assms(2) split: option.split)

lemma accepting_serves: "serves accepting_env s q" "manager_serves accepting_env"
  by (auto simp: serves_def manager_serves_def accepting_env_def)

section \<open>Properties\<close>

text \<open>
  C7: fault recovery does its steps in order and stops at the first failure. Whatever the outside
  does, the requests \<^verbatim>\<open>ClearFaults\<close> sends are a prefix of: the vendor's trigger (when a
  service is configured), activation of the hardware component (when one is named), the switch of
  controllers; an \<open>Ok\<close> result means all of them were sent; the call blocks at most 18 seconds and
  changes no member.
\<close>

theorem clear_faults_contract:
  "\<exists>qs. requests (trace (snd (clear_faults env h))) = requests (trace h) @ qs
     \<and> prefix qs (recovery_plan (h_params h) (clear_faults_client h))
     \<and> (ok (fst (clear_faults env h)) \<longrightarrow> qs = recovery_plan (h_params h) (clear_faults_client h))
     \<and> elapsed (trace (snd (clear_faults env h))) \<le> elapsed (trace h) + 18000
     \<and> snd (clear_faults env h) = h\<lparr>trace := trace (snd (clear_faults env h))\<rparr>"
  using recover.follows_plan [of env "h_params h" "clear_faults_client h" h]
    recover.in_time [of env "h_params h" "clear_faults_client h"]
    recover.only_logs [of env "h_params h" "clear_faults_client h"]
  unfolding clear_faults_def blocks_at_most_def logs_only_def by blast

theorem clear_faults_contract_witness:
  "ok (fst (clear_faults accepting_env example_hwm))
   \<and> requests (trace (snd (clear_faults accepting_env example_hwm)))
       = recovery_plan example_params (Some ''/clear_faults'')"
proof -
  have "ok (fst (clear_faults accepting_env example_hwm))"
    by (simp add: clear_faults_def served_recovery accepting_serves)
  then show ?thesis
    using clear_faults_contract [of accepting_env example_hwm] by (auto simp: example_hwm_sel)
qed

text \<open>
  C8: when the vendor's fault clearing does not succeed, nothing is reactivated. A missing service
  gives \<open>kUnavailable\<close>, a reply later than 5 seconds \<open>kDeadlineExceeded\<close>, a refusal
  \<open>kInternal\<close> with the vendor's text; in each case neither the hardware component nor the
  controllers are touched.
\<close>

theorem clear_faults_vendor_failure:
  assumes "clear_faults_client h = Some s"
    and "w = wait_result (env_wait env (trace h) s) 1000"
    and "a = reply_result (env_reply env (trace h @ [Waited s (fst w) True, Sent s TriggerRequest])
               s TriggerRequest) 5000"
    and "\<not> snd w \<or> snd a = None \<or> \<not> rp_success (the (snd a))"
  shows "clear_faults env h =
    (if \<not> snd w then (mk_status kUnavailable ''ClearFaults service not available'',
        h\<lparr>trace := trace h @ [Waited s 1000 False]\<rparr>)
     else (case snd a of
        None \<Rightarrow> (mk_status kDeadlineExceeded ''ClearFaults service call timed out'',
          h\<lparr>trace := trace h @ [Waited s (fst w) True, Sent s TriggerRequest, Awaited s 5000 False]\<rparr>)
      | Some r \<Rightarrow> (mk_status kInternal
            (''ClearFaults service call failed with message: '' @ rp_message r),
          h\<lparr>trace := trace h @ [Waited s (fst w) True, Sent s TriggerRequest, Awaited s (fst a) True]\<rparr>)))"
proof -
  have "fst w = 1000" if "\<not> snd w"
    using that assms(2) by (auto simp: wait_result_def split: option.splits if_splits)
  moreover have "fst a = 5000" if "snd a = None"
    using that assms(3) by (auto simp: reply_result_def split: option.splits if_splits)
  ultimately show ?thesis
    using assms(4) unfolding clear_faults_def clear_faults_steps_def assms(1)
    by (auto simp: run_return_if_error call_clear_faults_service_round run_round_trip Let_def
        assms(2,3) [symmetric] case_prod_beta split: option.splits)
qed

text \<open>The vendor refuses the reset: nothing but the trigger is sent.\<close>

definition refusing_env :: hwm_env where
  "refusing_env = accepting_env
     \<lparr>env_reply := \<lambda>h s q. Some (7, \<lparr>rp_success = False, rp_message = ''E-stop pressed''\<rparr>)\<rparr>"

theorem clear_faults_vendor_failure_witness:
  "clear_faults refusing_env example_hwm =
     (mk_status kInternal ''ClearFaults service call failed with message: E-stop pressed'',
      example_hwm\<lparr>trace := [Waited ''/clear_faults'' 0 True, Sent ''/clear_faults'' TriggerRequest,
        Awaited ''/clear_faults'' 7 True]\<rparr>)"
  by (subst clear_faults_vendor_failure [where s = "''/clear_faults''", OF _ refl refl])
     (simp_all add: example_hwm_sel refusing_env_def accepting_env_def wait_result_def reply_result_def)

text \<open>
  Recovery works when the outside does: if the controller manager's services, and the vendor's
  when one is configured, appear within a second and accept within five, \<^verbatim>\<open>ClearFaults\<close>
  returns \<open>Ok\<close> and has sent the whole plan.
\<close>

theorem clear_faults_recovers:
  assumes "manager_serves env" and "\<And>s. clear_faults_client h = Some s \<Longrightarrow> serves env s TriggerRequest"
  shows "fst (clear_faults env h) = OkStatus
    \<and> requests (trace (snd (clear_faults env h))) =
        requests (trace h) @ recovery_plan (h_params h) (clear_faults_client h)"
proof -
  have "fst (run_state (clear_faults_steps env (h_params h) (clear_faults_client h)) h) = OkStatus"
    by (rule served_recovery [OF assms])
  then show ?thesis
    using recover.ok_sends_all [of env "h_params h" "clear_faults_client h" h]
    by (simp add: clear_faults_def)
qed

theorem clear_faults_recovers_witness:
  "fst (clear_faults accepting_env example_hwm) = OkStatus"
  by (rule clear_faults_recovers [THEN conjunct1]) (rule accepting_serves)+

text \<open>
  The verdict of the clock, when there is one, and what asking it adds to the history; whether the hardware
  component, when one is named, accepts a state, and the history afterwards.
\<close>

definition clock_verdict :: "('e) hwm_env_scheme \<Rightarrow> hwm_params \<Rightarrow> hwm_history \<Rightarrow> status \<times> hwm_history" where
  "clock_verdict env p tr =
    (if hp_clock p = None then (OkStatus, tr)
     else (snd (env_clock_reset env tr 20000),
           tr @ [Library_Call ''RealtimeClock::Reset'' (fst (env_clock_reset env tr 20000))]))"

definition component_accepts :: "('e) hwm_env_scheme \<Rightarrow> hwm_params \<Rightarrow> lifecycle_state \<Rightarrow> hwm_history \<Rightarrow> bool" where
  "component_accepts env p target tr \<longleftrightarrow> hp_hardware_component_name p = []
     \<or> accepts env tr set_hw_state_service (SetHardwareComponentState (hp_hardware_component_name p) target)"

definition component_history ::
  "('e) hwm_env_scheme \<Rightarrow> hwm_params \<Rightarrow> lifecycle_state \<Rightarrow> hwm_history \<Rightarrow> hwm_history" where
  "component_history env p target tr =
    (if hp_hardware_component_name p = [] then tr
     else history_after env tr set_hw_state_service (SetHardwareComponentState (hp_hardware_component_name p) target))"

lemma run_reset_clock:
  "run_state (reset_clock env p 20000) h =
     (fst (clock_verdict env p (trace h)), h\<lparr>trace := snd (clock_verdict env p (trace h))\<rparr>)"
  by (simp add: reset_clock_def clock_verdict_def io_simps)

lemma component_outcome:
  "ok (fst (run_state (set_component env what p target) h)) \<longleftrightarrow> component_accepts env p target (trace h)"
  "trace (snd (run_state (set_component env what p target) h)) = component_history env p target (trace h)"
proof -
  have call: "ok (fst (run_state (call_set_hw_state env name target) h)) \<longleftrightarrow>
      accepts env (trace h) set_hw_state_service (SetHardwareComponentState name target)"
    "trace (snd (run_state (call_set_hw_state env name target) h)) =
      history_after env (trace h) set_hw_state_service (SetHardwareComponentState name target)" for name
    unfolding call_set_hw_state_round by (rule round_trip_accepts; simp)+
  have code: "ok (reword_component what name r) \<longleftrightarrow> ok r" for name r
    by (simp add: reword_component_def ok_def)
  show "ok (fst (run_state (set_component env what p target) h)) \<longleftrightarrow> component_accepts env p target (trace h)"
    "trace (snd (run_state (set_component env what p target) h)) = component_history env p target (trace h)"
    by (simp_all add: set_component_def component_accepts_def component_history_def io_simps case_prod_beta call code)
qed

lemma switch_outcome:
  "ok (fst (run_state (call_switch_controller env a d) h)) \<longleftrightarrow>
     accepts env (trace h) switch_controller_service (SwitchController a d BEST_EFFORT)"
  "trace (snd (run_state (call_switch_controller env a d) h)) =
     history_after env (trace h) switch_controller_service (SwitchController a d BEST_EFFORT)"
  unfolding call_switch_controller_round by (rule round_trip_accepts; simp)+

text \<open>
  C33: \<^verbatim>\<open>Prepare\<close> resets the clock, activates the hardware component, switches controllers, and
  stops at the first failure. It returns \<open>Ok\<close> exactly when the clock does (if there is one), the component
  (if one is named) and the controller manager appear within a second and accept within five. What it has
  done is, to the event: only the clock call when that fails, whose status it returns; up to the component's
  answer when that is no acceptance; up to the manager's answer otherwise. The requests are a prefix of
  the plan; the call blocks at most 32 seconds when the clock keeps its own timeout.
\<close>

theorem prepare_contract:
  assumes "clock_resets_in_time env"
    and "p = h_params h" and "clock = clock_verdict env p (trace h)"
    and "switched = component_history env p PRIMARY_STATE_ACTIVE (snd clock)"
    and "q = SwitchController (hp_controllers_to_activate p) (hp_controllers_to_deactivate p) BEST_EFFORT"
  shows "(ok (fst (prepare env h)) \<longleftrightarrow> ok (fst clock)
        \<and> component_accepts env p PRIMARY_STATE_ACTIVE (snd clock)
        \<and> accepts env switched switch_controller_service q)
     \<and> snd (prepare env h) = h\<lparr>trace :=
          (if \<not> ok (fst clock) then snd clock
           else if \<not> component_accepts env p PRIMARY_STATE_ACTIVE (snd clock) then switched
           else history_after env switched switch_controller_service q)\<rparr>
     \<and> (ok (fst clock) \<or> fst (prepare env h) = fst clock)
     \<and> (\<exists>qs. requests (trace (snd (prepare env h))) = requests (trace h) @ qs \<and> prefix qs (start_plan p)
          \<and> (ok (fst (prepare env h)) \<longrightarrow> qs = start_plan p))
     \<and> elapsed (trace (snd (prepare env h))) \<le> elapsed (trace h) + 32000"
proof -
  have frame: "snd (prepare env h) = h\<lparr>trace := trace (snd (prepare env h))\<rparr>"
    using status_call.only_logs [OF prepare_call [OF assms(1)], of p]
    unfolding prepare_def logs_only_def assms(2) by blast
  have outcome: "trace (snd (prepare env h)) =
      (if \<not> ok (fst clock) then snd clock
       else if \<not> component_accepts env p PRIMARY_STATE_ACTIVE (snd clock) then switched
       else history_after env switched switch_controller_service q)"
    "ok (fst (prepare env h)) \<longleftrightarrow> ok (fst clock) \<and> component_accepts env p PRIMARY_STATE_ACTIVE (snd clock)
        \<and> accepts env switched switch_controller_service q"
    "ok (fst clock) \<or> fst (prepare env h) = fst clock"
    unfolding prepare_def prepare_steps_def assms(3-5) assms(2) [symmetric]
    by (auto simp: run_return_if_error run_reset_clock case_prod_beta component_outcome switch_outcome)
  have plan: "\<exists>qs. requests (trace (snd (prepare env h))) = requests (trace h) @ qs \<and> prefix qs (start_plan p)
      \<and> (ok (fst (prepare env h)) \<longrightarrow> qs = start_plan p)"
    using status_call.follows_plan [OF prepare_call [OF assms(1)], of p h] unfolding prepare_def assms(2) .
  have "elapsed (trace (snd (prepare env h))) \<le> elapsed (trace h) + 32000"
    using status_call.in_time [OF prepare_call [OF assms(1)], of p]
    unfolding prepare_def blocks_at_most_def assms(2) by blast
  with outcome(2,3) frame [unfolded outcome(1)] plan show ?thesis by (intro conjI)
qed

text \<open>
  C34: \<^verbatim>\<open>Shutdown\<close> undoes \<^verbatim>\<open>Prepare\<close> in reverse: it first switches the
  controllers back (the two lists exchanged), and deactivates the hardware component only after
  that succeeded; it returns \<open>Ok\<close> exactly when clock, manager and component did their part, and blocks at
  most 32 seconds when the clock keeps its own timeout.
\<close>

theorem shutdown_contract:
  assumes "clock_resets_in_time env"
    and "p = h_params h" and "clock = clock_verdict env p (trace h)"
    and "q = SwitchController (hp_controllers_to_deactivate p) (hp_controllers_to_activate p) BEST_EFFORT"
    and "switched = history_after env (snd clock) switch_controller_service q"
  shows "(ok (fst (shutdown env h)) \<longleftrightarrow> ok (fst clock) \<and> accepts env (snd clock) switch_controller_service q
        \<and> component_accepts env p PRIMARY_STATE_INACTIVE switched)
     \<and> snd (shutdown env h) = h\<lparr>trace :=
          (if \<not> ok (fst clock) then snd clock
           else if \<not> accepts env (snd clock) switch_controller_service q then switched
           else component_history env p PRIMARY_STATE_INACTIVE switched)\<rparr>
     \<and> (ok (fst clock) \<or> fst (shutdown env h) = fst clock)
     \<and> (\<exists>qs. requests (trace (snd (shutdown env h))) = requests (trace h) @ qs
          \<and> prefix qs (switch_plan (hp_controllers_to_deactivate p) (hp_controllers_to_activate p)
               @ component_plan p PRIMARY_STATE_INACTIVE)
          \<and> (ok (fst (shutdown env h)) \<longrightarrow>
               qs = switch_plan (hp_controllers_to_deactivate p) (hp_controllers_to_activate p)
                 @ component_plan p PRIMARY_STATE_INACTIVE))
     \<and> elapsed (trace (snd (shutdown env h))) \<le> elapsed (trace h) + 32000"
proof -
  have frame: "snd (shutdown env h) = h\<lparr>trace := trace (snd (shutdown env h))\<rparr>"
    using status_call.only_logs [OF shutdown_call [OF assms(1)], of p]
    unfolding shutdown_def logs_only_def assms(2) by blast
  have outcome: "trace (snd (shutdown env h)) =
      (if \<not> ok (fst clock) then snd clock
       else if \<not> accepts env (snd clock) switch_controller_service q then switched
       else component_history env p PRIMARY_STATE_INACTIVE switched)"
    "ok (fst (shutdown env h)) \<longleftrightarrow> ok (fst clock) \<and> accepts env (snd clock) switch_controller_service q
        \<and> component_accepts env p PRIMARY_STATE_INACTIVE switched"
    "ok (fst clock) \<or> fst (shutdown env h) = fst clock"
    unfolding shutdown_def shutdown_steps_def assms(3-5) assms(2) [symmetric]
    by (auto simp: run_return_if_error run_reset_clock case_prod_beta component_outcome switch_outcome)
  have plan: "\<exists>qs. requests (trace (snd (shutdown env h))) = requests (trace h) @ qs \<and> prefix qs (stop_plan p)
      \<and> (ok (fst (shutdown env h)) \<longrightarrow> qs = stop_plan p)"
    using status_call.follows_plan [OF shutdown_call [OF assms(1)], of p h] unfolding shutdown_def assms(2) .
  have "elapsed (trace (snd (shutdown env h))) \<le> elapsed (trace h) + 32000"
    using status_call.in_time [OF shutdown_call [OF assms(1)], of p]
    unfolding shutdown_def blocks_at_most_def assms(2) by blast
  with outcome(2,3) frame [unfolded outcome(1)] plan [unfolded stop_plan_def] show ?thesis by (intro conjI)
qed

lemma accepting_clock: "clock_resets_in_time accepting_env"
  by (simp add: clock_resets_in_time_def accepting_env_def)

lemma accepting_run_ok:
  "ok (fst (prepare accepting_env h))" "ok (fst (shutdown accepting_env h))"
proof -
  have clock: "fst (run_state (reset_clock accepting_env p t) w) = OkStatus" for p t and w :: hwm
    by (simp add: reset_clock_def io_simps accepting_env_def)
  note oks = clock manager_calls [OF accepting_serves(2)]
  show "ok (fst (prepare accepting_env h))"
    unfolding prepare_def prepare_steps_def by (simp add: return_if_error_ok oks)
  show "ok (fst (shutdown accepting_env h))"
    unfolding shutdown_def shutdown_steps_def by (simp add: return_if_error_ok oks)
qed

theorem prepare_contract_witness:
  "ok (fst (prepare accepting_env example_hwm))
   \<and> requests (trace (snd (prepare accepting_env example_hwm))) =
      [(set_hw_state_service, SetHardwareComponentState ''ur5e'' PRIMARY_STATE_ACTIVE),
       (switch_controller_service,
        SwitchController [''icon_controller''] [''trajectory_controller''] BEST_EFFORT)]"
  using prepare_contract [OF accepting_clock refl refl refl refl, of example_hwm] accepting_run_ok(1) [of example_hwm]
  by (auto simp: example_hwm_sel start_plan_def component_plan_def switch_plan_def example_params_def)

theorem shutdown_contract_witness:
  "ok (fst (shutdown accepting_env example_hwm))
   \<and> requests (trace (snd (shutdown accepting_env example_hwm))) =
      [(switch_controller_service,
        SwitchController [''trajectory_controller''] [''icon_controller''] BEST_EFFORT),
       (set_hw_state_service, SetHardwareComponentState ''ur5e'' PRIMARY_STATE_INACTIVE)]"
  using shutdown_contract [OF accepting_clock refl refl refl refl, of example_hwm] accepting_run_ok(2) [of example_hwm]
  by (auto simp: example_hwm_sel component_plan_def switch_plan_def example_params_def)

end
