(* ===== verification/Hwm_Realtime.thy ===== *)
theory Hwm_Realtime
  imports Ros2_Hwm
begin

text \<open>
  The realtime half of \<^verbatim>\<open>Ros2HwmImpl\<close>: \<^verbatim>\<open>ReadStatus\<close> copies the loaned state
  interfaces into the shared-memory buffers, \<^verbatim>\<open>ApplyCommand\<close> copies ICON's command into the
  loaned command interfaces. Vector accesses are checked: an index out of range is undefined
  behaviour, and the layout that excludes it is what the controller's configuration sets up.
\<close>

section \<open>Loaned interfaces\<close>

text \<open>
  \<open>ls_value\<close> is what \<^verbatim>\<open>get_optional<double>()\<close> returns this cycle, \<open>lc_accepts\<close>
  whether \<^verbatim>\<open>set_value<double>()\<close> succeeds this cycle.
\<close>

record loaned_state =
  ls_name :: string
  ls_value :: "double option"

record loaned_command =
  lc_name :: string
  lc_value :: double
  lc_accepts :: bool

text \<open>The vectors the parameters point to; their owner is the controller.\<close>

record iface_memory =
  state_vec :: "nat \<Rightarrow> loaned_state list"
  command_vec :: "nat \<Rightarrow> loaned_command list"

text \<open>ICON's command message; the library builds it with both vectors present.\<close>

record position_command =
  pc_position :: "double list"
  pc_velocity_feedforward :: "double list"

definition mutate :: "double list \<Rightarrow> nat \<Rightarrow> double \<Rightarrow> double list outcome" where
  "mutate buf i v = (if i < length buf then Returned (buf[i := v]) else Undefined_Behaviour)"

definition set_value :: "loaned_command list \<Rightarrow> nat \<Rightarrow> double \<Rightarrow> (bool \<times> loaned_command list) outcome" where
  "set_value cs k v = on_returned (vector_at cs k)
     (\<lambda>c. Returned (if lc_accepts c then (True, cs[k := c\<lparr>lc_value := v\<rparr>]) else (False, cs)))"

section \<open>ReadStatus\<close>

fun read_joints ::
  "string \<Rightarrow> nat \<Rightarrow> nat \<Rightarrow> loaned_state list \<Rightarrow> nat list \<Rightarrow> double list
     \<Rightarrow> (status \<times> double list) outcome" where
  "read_joints what off stride ifs [] buf = Returned (OkStatus, buf)"
| "read_joints what off stride ifs (i # is) buf =
     on_returned (vector_at ifs (off + i * stride)) (\<lambda>l.
       case ls_value l of
         None \<Rightarrow> Returned (mk_status kInternal
                   (''Failed to read '' @ what @ '' for joint '' @ dec_nat i), buf)
       | Some v \<Rightarrow> on_returned (mutate buf i v) (read_joints what off stride ifs is))"

definition stamp_joint_states :: "nat \<Rightarrow> hwm \<Rightarrow> (status \<times> hwm) outcome" where
  "stamp_joint_states now h =
    (case (joint_position_state h, joint_velocity_state h) of
       (Some pb, Some vb) \<Rightarrow> Returned (OkStatus,
          h\<lparr>joint_position_state := Some (pb\<lparr>jb_updated_at := Some now\<rparr>),
            joint_velocity_state := Some (vb\<lparr>jb_updated_at := Some now\<rparr>)\<rparr>)
     | _ \<Rightarrow> Undefined_Behaviour)"

definition read_velocities :: "loaned_state list \<Rightarrow> hwm \<Rightarrow> (status \<times> hwm) outcome" where
  "read_velocities ifs h =
    (case joint_velocity_state h of
       None \<Rightarrow> Undefined_Behaviour
     | Some vb \<Rightarrow>
         on_returned
           (read_joints ''velocity'' 1 (hp_state_stride (h_params h)) ifs
              [0..<hp_num_dofs (h_params h)] (jb_values vb))
           (\<lambda>(r, vals). Returned (r, h\<lparr>joint_velocity_state := Some (vb\<lparr>jb_values := vals\<rparr>)\<rparr>)))"

definition read_positions :: "loaned_state list \<Rightarrow> hwm \<Rightarrow> (status \<times> hwm) outcome" where
  "read_positions ifs h =
    (case joint_position_state h of
       None \<Rightarrow> Undefined_Behaviour
     | Some pb \<Rightarrow>
         on_returned
           (read_joints ''position'' 0 (hp_state_stride (h_params h)) ifs
              [0..<hp_num_dofs (h_params h)] (jb_values pb))
           (\<lambda>(r, vals). Returned (r, h\<lparr>joint_position_state := Some (pb\<lparr>jb_values := vals\<rparr>)\<rparr>)))"

definition read_status :: "iface_memory \<Rightarrow> nat \<Rightarrow> hwm \<Rightarrow> (status \<times> hwm) outcome" where
  "read_status mem now h =
    (let unavailable = mk_status kUnavailable ''State interfaces not available'' in
     case hp_state_interfaces (h_params h) of
       None \<Rightarrow> Returned (unavailable, h)
     | Some a \<Rightarrow>
       if state_vec mem a = [] then Returned (unavailable, h)
       else
         on_returned (read_positions (state_vec mem a) h) (\<lambda>(r, h1).
           if \<not> ok r then Returned (r, h1)
           else if hp_has_velocity_state (h_params h) then
             on_returned (read_velocities (state_vec mem a) h1) (\<lambda>(r2, h2).
               if \<not> ok r2 then Returned (r2, h2) else stamp_joint_states now h2)
           else stamp_joint_states now h1))"

section \<open>ApplyCommand\<close>

text \<open>
  The check of the operational status: \<open>got\<close> is whether \<^verbatim>\<open>try_get\<close> obtained the box's
  lock; if not, the check is skipped this cycle.
\<close>

definition check_operational_status :: "bool \<Rightarrow> hwm \<Rightarrow> status" where
  "check_operational_status got h =
    (let current = latest_operational_status h in
     if got then
       (if os_state current = DISABLED then
          mk_status kFailedPrecondition ''Cannot ApplyCommand while disabled''
        else if os_state current = FAULTED then
          mk_status kFailedPrecondition
            (''Cannot ApplyCommand while faulted ('' @ os_message current @ '')'')
        else OkStatus)
     else OkStatus)"

fun write_joints ::
  "hwm_params \<Rightarrow> double list \<Rightarrow> double list \<Rightarrow> nat list \<Rightarrow> loaned_command list
     \<Rightarrow> (status \<times> loaned_command list) outcome" where
  "write_joints p pos vel [] cs = Returned (OkStatus, cs)"
| "write_joints p pos vel (i # is) cs =
     on_returned (vector_at pos i) (\<lambda>x.
     on_returned (set_value cs (i * hp_command_stride p) x) (\<lambda>(accepted, cs1).
       if \<not> accepted then
         Returned (mk_status kInternal (''Failed to set position command for joint '' @ dec_nat i), cs1)
       else if hp_has_velocity_command p then
         on_returned (vector_at vel i) (\<lambda>y.
         on_returned (set_value cs1 (1 + i * hp_command_stride p) y) (\<lambda>(accepted2, cs2).
           if \<not> accepted2 then
             Returned (mk_status kInternal
               (''Failed to set velocity command for joint '' @ dec_nat i), cs2)
           else write_joints p pos vel is cs2))
       else write_joints p pos vel is cs1))"

definition size_mismatch :: "string \<Rightarrow> nat \<Rightarrow> nat \<Rightarrow> status" where
  "size_mismatch what expected got = mk_status kInternal
     (what @ '' command vector size mismatch (expected '' @ dec_nat expected @ '', got''
      @ dec_nat got @ '')'')"

definition apply_command ::
  "bool \<Rightarrow> status + position_command \<Rightarrow> hwm \<Rightarrow> iface_memory \<Rightarrow> (status \<times> iface_memory) outcome" where
  "apply_command got command h mem =
    (let p = h_params h; n = hp_num_dofs p; gate = check_operational_status got h in
     if \<not> ok gate then Returned (gate, mem)
     else case command of
       Inl e \<Rightarrow> Returned (e, mem)
     | Inr c \<Rightarrow>
       if length (pc_position c) \<noteq> n then
         Returned (size_mismatch ''Position'' n (length (pc_position c)), mem)
       else if length (pc_velocity_feedforward c) \<noteq> n then
         Returned (size_mismatch ''Velocity'' n (length (pc_velocity_feedforward c)), mem)
       else case hp_command_interfaces p of
         None \<Rightarrow> Returned (mk_status kUnavailable ''Command interfaces not available'', mem)
       | Some a \<Rightarrow>
         if command_vec mem a = [] then
           Returned (mk_status kUnavailable ''Command interfaces not available'', mem)
         else
           on_returned
             (write_joints p (pc_position c) (pc_velocity_feedforward c)
                [0..<length (pc_position c)] (command_vec mem a))
             (\<lambda>(r, cs). Returned (r, mem\<lparr>command_vec := (command_vec mem)(a := cs)\<rparr>)))"

section \<open>The writes of a command, in order\<close>

definition writes_of ::
  "hwm_params \<Rightarrow> double list \<Rightarrow> double list \<Rightarrow> nat \<Rightarrow> (nat \<times> double) list" where
  "writes_of p pos vel i =
     (i * hp_command_stride p, pos ! i)
     # (if hp_has_velocity_command p then [(1 + i * hp_command_stride p, vel ! i)] else [])"

definition command_writes ::
  "hwm_params \<Rightarrow> double list \<Rightarrow> double list \<Rightarrow> nat list \<Rightarrow> (nat \<times> double) list" where
  "command_writes p pos vel is = concat (map (writes_of p pos vel) is)"

definition store :: "nat \<times> double \<Rightarrow> loaned_command list \<Rightarrow> loaned_command list" where
  "store w cs = cs[fst w := (cs ! fst w)\<lparr>lc_value := snd w\<rparr>]"

definition accepted_writes ::
  "loaned_command list \<Rightarrow> (nat \<times> double) list \<Rightarrow> (nat \<times> double) list" where
  "accepted_writes cs = takeWhile (\<lambda>w. lc_accepts (cs ! fst w))"

lemma length_store [simp]: "length (store w cs) = length cs"
  by (simp add: store_def)

lemma nth_store:
  "j < length cs \<Longrightarrow> store w cs ! j = (if j = fst w then (cs ! j)\<lparr>lc_value := snd w\<rparr> else cs ! j)"
  by (simp add: store_def nth_list_update)

lemma accepts_store [simp]: "lc_accepts (store w cs ! j) = lc_accepts (cs ! j)"
  by (cases "j = fst w"; cases "j < length cs") (simp_all add: store_def list_update_beyond)

lemma accepted_writes_store [simp]: "accepted_writes (store w cs) ws = accepted_writes cs ws"
  by (simp add: accepted_writes_def)

lemma set_value_store:
  "k < length cs \<Longrightarrow>
     set_value cs k v = Returned (lc_accepts (cs ! k), if lc_accepts (cs ! k) then store (k, v) cs else cs)"
  by (simp add: set_value_def store_def)

lemma write_joints_eq:
  assumes "\<forall>i \<in> set is. i < length pos \<and> (hp_has_velocity_command p \<longrightarrow> i < length vel)"
    and "\<forall>w \<in> set (command_writes p pos vel is). fst w < length cs"
  shows "\<exists>r. write_joints p pos vel is cs =
      Returned (r, fold store (accepted_writes cs (command_writes p pos vel is)) cs)
    \<and> st_code r = (if list_all (\<lambda>w. lc_accepts (cs ! fst w)) (command_writes p pos vel is)
                   then kOk else kInternal)"
  using assms
proof (induction "is" arbitrary: cs)
  case Nil
  then show ?case by (simp add: command_writes_def accepted_writes_def)
next
  case (Cons i "is")
  let ?ws = "command_writes p pos vel is"
  have split: "command_writes p pos vel (i # is) = writes_of p pos vel i @ ?ws"
    by (simp add: command_writes_def)
  have IH: "\<exists>r. write_joints p pos vel is cs' =
      Returned (r, fold store (accepted_writes cs ?ws) cs')
    \<and> st_code r = (if list_all (\<lambda>w. lc_accepts (cs ! fst w)) ?ws then kOk else kInternal)"
    if "length cs' = length cs" and "\<And>j. lc_accepts (cs' ! j) = lc_accepts (cs ! j)" for cs'
    using Cons.IH [of cs'] Cons.prems that by (simp add: split accepted_writes_def)
  show ?case
    using Cons.prems IH [of "store (i * hp_command_stride p, pos ! i) cs"]
      IH [of "store (1 + i * hp_command_stride p, vel ! i) (store (i * hp_command_stride p, pos ! i) cs)"]
    by (auto simp: split writes_of_def set_value_store accepted_writes_def)
qed

section \<open>Layout\<close>

text \<open>
  Joint \<open>i\<close> owns the block of \<open>stride\<close> interfaces starting at \<open>i * stride\<close>; a second
  interface exists when the module says it has one.
\<close>

definition block_layout :: "nat \<Rightarrow> bool \<Rightarrow> nat \<Rightarrow> 'a list \<Rightarrow> bool" where
  "block_layout stride second n xs \<longleftrightarrow>
     0 < stride \<and> (second \<longrightarrow> 2 \<le> stride) \<and> length xs = n * stride"

definition command_layout :: "hwm_params \<Rightarrow> loaned_command list \<Rightarrow> bool" where
  "command_layout p = block_layout (hp_command_stride p) (hp_has_velocity_command p) (hp_num_dofs p)"

definition state_layout :: "hwm_params \<Rightarrow> loaned_state list \<Rightarrow> bool" where
  "state_layout p = block_layout (hp_state_stride p) (hp_has_velocity_state p) (hp_num_dofs p)"

lemma block_index:
  assumes "i < n" and "k < s"
  shows "k + i * s < n * (s::nat)"
proof -
  have "k + i * s < Suc i * s" using assms(2) by simp
  also have "\<dots> \<le> n * s" using assms(1) by (intro mult_le_mono1) simp
  finally show ?thesis .
qed

lemma layout_first: "block_layout s b n xs \<Longrightarrow> i < n \<Longrightarrow> i * s < length xs"
  using block_index [of i n 0 s] by (simp add: block_layout_def)

lemma layout_second: "block_layout s True n xs \<Longrightarrow> i < n \<Longrightarrow> Suc (i * s) < length xs"
  using block_index [of i n 1 s] by (simp add: block_layout_def)

lemma command_writes_in_range:
  assumes "command_layout p cs" and "w \<in> set (command_writes p pos vel [0..<hp_num_dofs p])"
  shows "fst w < length cs"
  using assms layout_first layout_second
  unfolding command_layout_def command_writes_def writes_of_def
  by (auto split: if_splits)

lemma command_writes_range:
  assumes "0 < hp_command_stride p" "hp_has_velocity_command p \<longrightarrow> 2 \<le> hp_command_stride p"
    and "w \<in> set (command_writes p pos vel [0..<n])"
  shows "fst w < n * hp_command_stride p"
proof -
  obtain i where "i < n" "fst w = i * hp_command_stride p \<or>
      (hp_has_velocity_command p \<and> fst w = 1 + i * hp_command_stride p)"
    using assms(3) unfolding command_writes_def writes_of_def by (auto split: if_splits)
  then show ?thesis
    using block_index [of i n 0 "hp_command_stride p"] block_index [of i n 1 "hp_command_stride p"]
      assms(1,2) by auto
qed

lemma command_writes_distinct:
  assumes "0 < hp_command_stride p" "hp_has_velocity_command p \<longrightarrow> 2 \<le> hp_command_stride p"
  shows "distinct (map fst (command_writes p pos vel [0..<n]))"
proof (induction n)
  case 0
  show ?case by (simp add: command_writes_def)
next
  case (Suc n)
  have "command_writes p pos vel [0..<Suc n] = command_writes p pos vel [0..<n] @ writes_of p pos vel n"
    by (simp add: command_writes_def)
  moreover have "fst w < n * hp_command_stride p"
    if "w \<in> set (command_writes p pos vel [0..<n])" for w
    using command_writes_range [OF assms that] .
  ultimately show ?case
    using Suc by (fastforce simp: writes_of_def)
qed

lemma fold_store_length [simp]: "length (fold store ws cs) = length cs"
  by (induction ws arbitrary: cs) simp_all

lemma fold_store_nth:
  assumes "distinct (map fst ws)" and "j < length cs"
  shows "fold store ws cs ! j =
    (case map_of ws j of None \<Rightarrow> cs ! j | Some v \<Rightarrow> (cs ! j)\<lparr>lc_value := v\<rparr>)"
  using assms
proof (induction ws arbitrary: cs)
  case Nil
  then show ?case by simp
next
  case (Cons w ws)
  have "map_of ws (fst w) = None" if "j = fst w"
    using Cons.prems(1) by (simp add: map_of_eq_None_iff)
  then show ?case
    using Cons by (cases w) (auto simp: nth_store split: option.split)
qed

lemma fold_store_name [simp]: "map lc_name (fold store ws cs) = map lc_name cs"
proof (induction ws arbitrary: cs)
  case (Cons w ws)
  have "map lc_name (store w cs) = map lc_name cs"
    by (rule nth_equalityI) (simp_all add: nth_store)
  with Cons show ?case by simp
qed simp

section \<open>Properties of ApplyCommand\<close>

text \<open>
  No motion while the robot reports a fault or is disabled. If the realtime thread sees a
  \<open>FAULTED\<close> or \<open>DISABLED\<close> status, \<^verbatim>\<open>ApplyCommand\<close> writes to no command interface,
  whatever ICON commands, and returns \<open>kFailedPrecondition\<close>.
\<close>

theorem apply_command_blocked:
  assumes "os_state (latest_operational_status h) \<in> {FAULTED, DISABLED}"
  shows "\<exists>r. apply_command True command h mem = Returned (r, mem) \<and> st_code r = kFailedPrecondition"
  using assms by (auto simp: apply_command_def check_operational_status_def Let_def)

theorem apply_command_blocked_witness:
  "os_state (latest_operational_status (on_operational_status (mk_os FAULTED ''E-stop'') example_hwm))
     \<in> {FAULTED, DISABLED}
   \<and> (\<exists>r. apply_command True (Inr \<lparr>pc_position = [1, 2], pc_velocity_feedforward = [0, 0]\<rparr>)
        (on_operational_status (mk_os FAULTED ''E-stop'') example_hwm)
        \<lparr>state_vec = (\<lambda>_. []), command_vec = (\<lambda>_. [])\<rparr>
       = Returned (r, \<lparr>state_vec = (\<lambda>_. []), command_vec = (\<lambda>_. [])\<rparr>)
      \<and> st_code r = kFailedPrecondition)"
proof -
  have "os_state (latest_operational_status (on_operational_status (mk_os FAULTED ''E-stop'') example_hwm))
     \<in> {FAULTED, DISABLED}"
    by (simp add: on_operational_status_def)
  from this apply_command_blocked [OF this] show ?thesis by (intro conjI)
qed

definition command_ready :: "hwm \<Rightarrow> nat \<Rightarrow> iface_memory \<Rightarrow> bool" where
  "command_ready h a mem \<longleftrightarrow> hp_command_interfaces (h_params h) = Some a
     \<and> command_vec mem a \<noteq> [] \<and> command_layout (h_params h) (command_vec mem a)"

definition fits :: "hwm \<Rightarrow> position_command \<Rightarrow> bool" where
  "fits h c \<longleftrightarrow> length (pc_position c) = hp_num_dofs (h_params h)
     \<and> length (pc_velocity_feedforward c) = hp_num_dofs (h_params h)"

abbreviation writes_for :: "hwm \<Rightarrow> position_command \<Rightarrow> (nat \<times> double) list" where
  "writes_for h c \<equiv> command_writes (h_params h) (pc_position c) (pc_velocity_feedforward c)
     [0..<hp_num_dofs (h_params h)]"

lemma apply_effect:
  assumes "command_ready h a mem" and "fits h c" and "ok (check_operational_status got h)"
  shows "\<exists>r. apply_command got (Inr c) h mem =
      Returned (r, mem\<lparr>command_vec := (command_vec mem)
        (a := fold store (accepted_writes (command_vec mem a) (writes_for h c)) (command_vec mem a))\<rparr>)
    \<and> st_code r = (if list_all (\<lambda>w. lc_accepts (command_vec mem a ! fst w)) (writes_for h c)
                   then kOk else kInternal)"
proof -
  have "\<forall>w \<in> set (writes_for h c). fst w < length (command_vec mem a)"
    using assms(1) command_writes_in_range unfolding command_ready_def by blast
  with assms show ?thesis
    using write_joints_eq [of "[0..<hp_num_dofs (h_params h)]" "pc_position c" "h_params h"
        "pc_velocity_feedforward c" "command_vec mem a"]
    by (auto simp: apply_command_def command_ready_def fits_def Let_def on_returned_eq_Returned)
qed

text \<open>The interfaces after all writes of a command, index by index.\<close>

lemma all_writes_values:
  assumes "command_layout p cs"
    and "ws = command_writes p pos vel [0..<hp_num_dofs p]" and "s = hp_command_stride p"
  shows "i < hp_num_dofs p \<Longrightarrow> lc_value (fold store ws cs ! (i * s)) = pos ! i"
    and "i < hp_num_dofs p \<Longrightarrow> hp_has_velocity_command p \<Longrightarrow>
      lc_value (fold store ws cs ! (1 + i * s)) = vel ! i"
    and "j < length cs \<Longrightarrow>
      \<forall>i < hp_num_dofs p. j \<noteq> i * s \<and> (hp_has_velocity_command p \<longrightarrow> j \<noteq> 1 + i * s) \<Longrightarrow>
      fold store ws cs ! j = cs ! j"
proof -
  have dist: "distinct (map fst ws)"
    using assms command_writes_distinct by (simp add: command_layout_def block_layout_def)
  have range: "fst w < length cs" if "w \<in> set ws" for w
    using that assms command_writes_in_range by blast
  have val: "lc_value (fold store ws cs ! k) = v" if "(k, v) \<in> set ws" for k v
    using fold_store_nth [OF dist range [OF that, simplified]] that dist by simp
  show "lc_value (fold store ws cs ! (i * s)) = pos ! i" if "i < hp_num_dofs p"
    using that assms by (intro val) (auto simp: command_writes_def writes_of_def)
  show "lc_value (fold store ws cs ! (1 + i * s)) = vel ! i"
    if "i < hp_num_dofs p" "hp_has_velocity_command p"
    using that assms by (intro val) (force simp: command_writes_def writes_of_def)
  show "fold store ws cs ! j = cs ! j" if "j < length cs"
    "\<forall>i < hp_num_dofs p. j \<noteq> i * s \<and> (hp_has_velocity_command p \<longrightarrow> j \<noteq> 1 + i * s)"
  proof -
    have "map_of ws j = None"
      using that(2) assms(2,3) by (fastforce simp: map_of_eq_None_iff command_writes_def writes_of_def
          split: if_splits)
    then show ?thesis using fold_store_nth [OF dist that(1)] by simp
  qed
qed

text \<open>
  What a command does to the hardware interfaces, refusals included. With the layout the
  controller configures and a command of the right size, \<^verbatim>\<open>ApplyCommand\<close> performs the
  writes joint by joint (position, then velocity where there is one) up to the first interface that
  refuses: exactly the writes before it take effect, nothing after it does, and the result is
  \<open>kOk\<close> if no interface refused and \<open>kInternal\<close> otherwise.
\<close>

theorem apply_command_effect:
  assumes "command_ready h a mem" and "fits h c" and "ok (check_operational_status got h)"
    and "ws = command_writes (h_params h) (pc_position c) (pc_velocity_feedforward c)
           [0..<hp_num_dofs (h_params h)]"
  shows "\<exists>r. apply_command got (Inr c) h mem =
      Returned (r, mem\<lparr>command_vec := (command_vec mem)
        (a := fold store (takeWhile (\<lambda>w. lc_accepts (command_vec mem a ! fst w)) ws)
                (command_vec mem a))\<rparr>)
    \<and> st_code r = (if list_all (\<lambda>w. lc_accepts (command_vec mem a ! fst w)) ws
                   then kOk else kInternal)"
  using apply_effect [OF assms(1-3)] unfolding assms(4) accepted_writes_def .

text \<open>
  A command that is accepted reaches the right joints. If every interface accepts, the result is
  \<open>kOk\<close>, the first interface of joint \<open>i\<close> holds the commanded position \<open>i\<close>, its second one (where the
  module has one) the commanded velocity, and every other interface, every name and every other
  vector is unchanged.
\<close>

lemma accepted_command:
  assumes "command_ready h a mem" and "fits h c" and "ok (check_operational_status got h)"
    and "list_all lc_accepts (command_vec mem a)"
    and "s = hp_command_stride (h_params h)" and "n = hp_num_dofs (h_params h)"
  shows "\<exists>r mem'. apply_command got (Inr c) h mem = Returned (r, mem') \<and> st_code r = kOk
    \<and> (\<forall>i<n. lc_value (command_vec mem' a ! (i * s)) = pc_position c ! i
         \<and> (hp_has_velocity_command (h_params h) \<longrightarrow>
              lc_value (command_vec mem' a ! (1 + i * s)) = pc_velocity_feedforward c ! i))
    \<and> (\<forall>j < length (command_vec mem a). (\<forall>i<n. j \<noteq> i * s \<and> (hp_has_velocity_command (h_params h) \<longrightarrow> j \<noteq> 1 + i * s)) \<longrightarrow>
         command_vec mem' a ! j = command_vec mem a ! j)
    \<and> map lc_name (command_vec mem' a) = map lc_name (command_vec mem a)
    \<and> (\<forall>b. b \<noteq> a \<longrightarrow> command_vec mem' b = command_vec mem b) \<and> state_vec mem' = state_vec mem"
proof -
  let ?cs = "command_vec mem a"
  let ?ws = "writes_for h c"
  have layout: "command_layout (h_params h) ?cs" using assms(1) by (simp add: command_ready_def)
  have acc: "\<forall>w \<in> set ?ws. lc_accepts (?cs ! fst w)"
    using assms(4) command_writes_in_range [OF layout] by (metis list_all_length)
  then have all: "accepted_writes ?cs ?ws = ?ws"
    by (simp add: accepted_writes_def takeWhile_eq_all_conv)
  obtain r where r: "apply_command got (Inr c) h mem =
      Returned (r, mem\<lparr>command_vec := (command_vec mem)(a := fold store ?ws ?cs)\<rparr>)"
    and "st_code r = kOk"
    using apply_effect [OF assms(1-3)] acc unfolding all by (auto simp: list_all_iff)
  moreover note all_writes_values [OF layout refl refl, folded assms(5,6)]
  ultimately show ?thesis by (simp flip: assms(5,6))
qed

lemma apply_command_frame:
  assumes "\<And>a. hp_command_interfaces (h_params h) = Some a \<Longrightarrow> command_vec mem a \<noteq> [] \<Longrightarrow>
      command_layout (h_params h) (command_vec mem a)"
  shows "\<exists>r mem'. apply_command got command h mem = Returned (r, mem')
    \<and> (\<forall>a. map lc_name (command_vec mem' a) = map lc_name (command_vec mem a))
    \<and> state_vec mem' = state_vec mem"
proof (cases "\<exists>a c. command_ready h a mem \<and> command = Inr c \<and> fits h c
    \<and> ok (check_operational_status got h)")
  case True
  then show ?thesis using apply_effect by fastforce
next
  case False
  then show ?thesis
    using assms by (auto simp: apply_command_def Let_def fits_def command_ready_def
        split: sum.split option.split)
qed

text \<open>
  The realtime write never leaves the vectors. Whatever ICON sends and whatever the hardware
  refuses, as long as the command interfaces are either released or laid out as configured,
  \<^verbatim>\<open>ApplyCommand\<close> has defined behaviour and keeps number and names of the interfaces.
\<close>

theorem apply_command_memory_safe:
  assumes "\<And>a. hp_command_interfaces (h_params h) = Some a \<Longrightarrow> command_vec mem a \<noteq> [] \<Longrightarrow>
      command_layout (h_params h) (command_vec mem a)"
  shows "\<exists>r mem'. apply_command got command h mem = Returned (r, mem')
    \<and> (\<forall>a. map lc_name (command_vec mem' a) = map lc_name (command_vec mem a))"
  using apply_command_frame [OF assms] by blast

section \<open>A concrete module with two joints\<close>

definition example_params_pv :: hwm_params where
  "example_params_pv = example_params\<lparr>hp_command_stride := 2, hp_has_velocity_command := True\<rparr>"

definition example_pv :: hwm where
  "example_pv = projr (create example_params_pv)"

text \<open>The velocity interface of joint 1 refuses when \<open>b\<close> is false.\<close>

definition example_memory :: "bool \<Rightarrow> iface_memory" where
  "example_memory b = \<lparr>state_vec = (\<lambda>_. []),
     command_vec = (\<lambda>a. if a = 1 then
        [\<lparr>lc_name = ''j1/position'', lc_value = 0, lc_accepts = True\<rparr>,
         \<lparr>lc_name = ''j1/velocity'', lc_value = 0, lc_accepts = b\<rparr>,
         \<lparr>lc_name = ''j2/position'', lc_value = 0, lc_accepts = True\<rparr>,
         \<lparr>lc_name = ''j2/velocity'', lc_value = 0, lc_accepts = True\<rparr>] else [])\<rparr>"

definition example_command :: position_command where
  "example_command = \<lparr>pc_position = [10, 20], pc_velocity_feedforward = [3, 4]\<rparr>"

lemma example_pv_sel:
  "h_params example_pv = example_params_pv" "latest_operational_status example_pv = mk_os UNKNOWN []"
  by (simp_all add: example_pv_def create_def example_params_pv_def example_params_def)

lemma example_ready:
  "command_ready example_pv 1 (example_memory b)" "fits example_pv example_command"
  "ok (check_operational_status True example_pv)"
  by (simp_all add: command_ready_def fits_def check_operational_status_def example_pv_sel Let_def
      example_params_pv_def example_params_def example_memory_def example_command_def
      command_layout_def block_layout_def)

lemma example_upt: "[0..<2] = [0, Suc 0]"
  by (simp add: upt_rec numeral_2_eq_2)

lemma example_writes:
  "writes_for example_pv example_command = [(0, 10), (1, 3), (2, 20), (3, 4)]"
  by (simp add: example_pv_sel example_params_pv_def example_params_def example_command_def
      command_writes_def writes_of_def example_upt)

theorem apply_command_effect_witness:
  "\<exists>r mem. apply_command True (Inr example_command) example_pv (example_memory False) = Returned (r, mem)
     \<and> st_code r = kInternal \<and> map lc_value (command_vec mem 1) = [10, 0, 0, 0]"
  using apply_command_effect [OF example_ready(1) [of False] example_ready(2,3) refl]
  unfolding example_writes by (auto simp: example_memory_def store_def)

theorem apply_command_memory_safe_witness:
  "\<exists>r mem. apply_command True (Inr example_command) example_pv (example_memory False) = Returned (r, mem)
     \<and> map lc_name (command_vec mem 1) = [''j1/position'', ''j1/velocity'', ''j2/position'', ''j2/velocity'']"
proof -
  have "command_layout (h_params example_pv) (command_vec (example_memory False) a)"
    if "hp_command_interfaces (h_params example_pv) = Some a" for a
    using that example_ready(1) [of False] by (simp add: command_ready_def)
  from apply_command_memory_safe [OF this, of True "Inr example_command"]
  obtain r mem where
    "apply_command True (Inr example_command) example_pv (example_memory False) = Returned (r, mem)"
    "\<forall>a. map lc_name (command_vec mem a) = map lc_name (command_vec (example_memory False) a)"
    by auto
  then show ?thesis by (simp add: example_memory_def)
qed

section \<open>What ReadStatus copies\<close>

lemma read_joints_eq:
  assumes "\<forall>i \<in> set is. off + i * s < length ifs \<and> i < length buf"
  shows "\<exists>r. read_joints what off s ifs is buf =
      Returned (r, fold (\<lambda>i b. b[i := the (ls_value (ifs ! (off + i * s)))])
        (takeWhile (\<lambda>i. ls_value (ifs ! (off + i * s)) \<noteq> None) is) buf)
    \<and> st_code r = (if list_all (\<lambda>i. ls_value (ifs ! (off + i * s)) \<noteq> None) is then kOk else kInternal)
    \<and> (ok r \<longrightarrow> r = OkStatus)"
  using assms
proof (induction "is" arbitrary: buf)
  case Nil
  then show ?case by simp
next
  case (Cons i "is")
  then show ?case
    by (cases "ls_value (ifs ! (off + i * s))") (auto simp: mutate_def)
qed

lemma fold_update_nth:
  "j < length buf \<Longrightarrow> fold (\<lambda>i b. b[i := f i]) is buf ! j = (if j \<in> set is then f j else buf ! j)"
proof (induction "is" arbitrary: buf)
  case (Cons i "is")
  then show ?case by (auto simp: nth_list_update)
qed simp

lemma fold_update_length [simp]: "length (fold (\<lambda>i b. b[i := f i]) is buf) = length buf"
  by (induction "is" arbitrary: buf) simp_all

lemma fold_update_all: "length buf = n \<Longrightarrow> fold (\<lambda>i b. b[i := f i]) [0..<n] buf = map f [0..<n]"
  by (rule nth_equalityI) (simp_all add: fold_update_nth)

text \<open>The buffers are advertised and sized, the state interfaces are claimed and laid out.\<close>

definition state_ready :: "hwm \<Rightarrow> nat \<Rightarrow> iface_memory \<Rightarrow> bool" where
  "state_ready h a mem \<longleftrightarrow> hp_state_interfaces (h_params h) = Some a
     \<and> state_layout (h_params h) (state_vec mem a)
     \<and> (\<exists>pb vb. joint_position_state h = Some pb \<and> joint_velocity_state h = Some vb
          \<and> length (jb_values pb) = hp_num_dofs (h_params h)
          \<and> length (jb_values vb) = hp_num_dofs (h_params h))"

abbreviation reading :: "iface_memory \<Rightarrow> nat \<Rightarrow> nat \<Rightarrow> double option" where
  "reading mem a k \<equiv> ls_value (state_vec mem a ! k)"

lemma list_all_upt: "list_all P [0..<n] \<longleftrightarrow> (\<forall>i<n. P i)"
  by (auto simp: list_all_iff)

lemma takeWhile_upt_all: "\<forall>i<n. P i \<Longrightarrow> takeWhile P [0..<n] = [0..<n]"
  by (simp add: takeWhile_eq_all_conv)

lemma read_block:
  assumes "block_layout s b n (state_vec mem a)" and "length buf = n" and "off = 0 \<or> (off = 1 \<and> b)"
  obtains r vals where
    "read_joints what off s (state_vec mem a) [0..<n] buf = Returned (r, vals)"
    "st_code r = (if \<forall>i<n. reading mem a (off + i * s) \<noteq> None then kOk else kInternal)"
    "ok r \<Longrightarrow> r = OkStatus \<and> vals = map (\<lambda>i. the (reading mem a (off + i * s))) [0..<n]"
    "length vals = n"
proof -
  let ?vals = "fold (\<lambda>i b. b[i := the (reading mem a (off + i * s))])
      (takeWhile (\<lambda>i. reading mem a (off + i * s) \<noteq> None) [0..<n]) buf"
  have "\<forall>i \<in> set [0..<n]. off + i * s < length (state_vec mem a) \<and> i < length buf"
    using assms layout_first [OF assms(1)] layout_second [of s n "state_vec mem a"] by auto
  from read_joints_eq [OF this, of what] obtain r where
    r: "read_joints what off s (state_vec mem a) [0..<n] buf = Returned (r, ?vals)"
    and c: "st_code r = (if \<forall>i<n. reading mem a (off + i * s) \<noteq> None then kOk else kInternal)"
    and o: "ok r \<longrightarrow> r = OkStatus"
    unfolding list_all_upt by blast
  have "?vals = map (\<lambda>i. the (reading mem a (off + i * s))) [0..<n]" if "ok r"
  proof -
    from that c have "\<forall>i<n. reading mem a (off + i * s) \<noteq> None"
      unfolding ok_def by (metis status_code.distinct(9))
    then have "takeWhile (\<lambda>i. reading mem a (off + i * s) \<noteq> None) [0..<n] = [0..<n]"
      by (rule takeWhile_upt_all)
    then show ?thesis by (simp only: fold_update_all [OF assms(2)])
  qed
  with r c o show ?thesis by (intro that [of r ?vals]) (simp_all add: assms(2))
qed

text \<open>
  What a successful read publishes. With claimed, laid out interfaces and advertised buffers, if
  every needed interface yields a value, \<^verbatim>\<open>ReadStatus\<close> returns \<open>Ok\<close>, the position
  buffer holds the first interface of every joint in order, the velocity buffer the second one (it
  keeps its content when the module has no velocity state), and both buffers carry the time stamp
  taken at entry.
\<close>

lemma read_status_reads:
  assumes "state_ready h a mem" and "state_vec mem a \<noteq> []"
    and "joint_velocity_state h = Some vb"
    and "s = hp_state_stride (h_params h)" and "n = hp_num_dofs (h_params h)"
    and "\<forall>i<n. ls_value (state_vec mem a ! (i * s)) \<noteq> None"
    and "hp_has_velocity_state (h_params h) \<longrightarrow> (\<forall>i<n. ls_value (state_vec mem a ! (1 + i * s)) \<noteq> None)"
  shows "read_status mem now h = Returned (OkStatus,
    h\<lparr>joint_position_state := Some \<lparr>jb_values =
          map (\<lambda>i. the (ls_value (state_vec mem a ! (i * s)))) [0..<n], jb_updated_at = Some now\<rparr>,
      joint_velocity_state := Some \<lparr>jb_values =
          (if hp_has_velocity_state (h_params h)
           then map (\<lambda>i. the (ls_value (state_vec mem a ! (1 + i * s)))) [0..<n] else jb_values vb),
          jb_updated_at = Some now\<rparr>\<rparr>)"
proof -
  obtain pb where pb: "joint_position_state h = Some pb" "length (jb_values pb) = n"
      "length (jb_values vb) = n" "hp_state_interfaces (h_params h) = Some a"
    and lay: "block_layout s (hp_has_velocity_state (h_params h)) n (state_vec mem a)"
    using assms(1,3-5) by (auto simp: state_ready_def state_layout_def)
  have pos: "read_joints ''position'' 0 s (state_vec mem a) [0..<n] (jb_values pb) =
      Returned (OkStatus, map (\<lambda>i. the (reading mem a (i * s))) [0..<n])"
    by (rule read_block [OF lay pb(2), of 0 "''position''"]) (use assms(6) in \<open>simp_all add: ok_def\<close>)
  have vel: "read_joints ''velocity'' 1 s (state_vec mem a) [0..<n] (jb_values vb) =
      Returned (OkStatus, map (\<lambda>i. the (reading mem a (1 + i * s))) [0..<n])"
    if "hp_has_velocity_state (h_params h)"
    by (rule read_block [OF lay pb(3), of 1 "''velocity''"]) (use assms(7) that in \<open>simp_all add: ok_def\<close>)
  show ?thesis
    using pos vel pb assms(2,3)
    by (simp add: read_status_def read_positions_def read_velocities_def stamp_joint_states_def
        flip: assms(4,5))
qed

text \<open>
  A failed read never passes for fresh data, and reading is memory safe. With interfaces that are
  released or laid out as configured, \<^verbatim>\<open>ReadStatus\<close> has defined behaviour; when it returns
  an error, neither buffer is stamped, so their time stamps are those of the last complete read.
\<close>

theorem read_status_failure_not_stamped:
  assumes "state_ready h a mem \<or> (hp_state_interfaces (h_params h) = Some a \<and> state_vec mem a = [])
      \<or> hp_state_interfaces (h_params h) = None"
  shows "\<exists>r h'. read_status mem now h = Returned (r, h')
    \<and> (\<not> ok r \<longrightarrow> st_code r \<in> {kUnavailable, kInternal}
        \<and> map_option jb_updated_at (joint_position_state h') = map_option jb_updated_at (joint_position_state h)
        \<and> map_option jb_updated_at (joint_velocity_state h') = map_option jb_updated_at (joint_velocity_state h))"
proof (cases "hp_state_interfaces (h_params h) = Some a \<and> state_vec mem a \<noteq> []")
  case False
  with assms show ?thesis
    by (auto simp: read_status_def Let_def state_ready_def)
next
  case True
  let ?p = "h_params h"
  obtain pb vb where b: "joint_position_state h = Some pb" "joint_velocity_state h = Some vb"
      "length (jb_values pb) = hp_num_dofs ?p" "length (jb_values vb) = hp_num_dofs ?p"
    and lay: "block_layout (hp_state_stride ?p) (hp_has_velocity_state ?p) (hp_num_dofs ?p) (state_vec mem a)"
    using assms True by (auto simp: state_ready_def state_layout_def)
  obtain r1 v1 where 1: "read_joints ''position'' 0 (hp_state_stride ?p) (state_vec mem a)
      [0..<hp_num_dofs ?p] (jb_values pb) = Returned (r1, v1)" "st_code r1 \<in> {kOk, kInternal}"
    by (rule read_block [OF lay b(3), of 0 "''position''"]) (auto split: if_splits)
  obtain r2 v2 where 2: "hp_has_velocity_state ?p \<Longrightarrow> read_joints ''velocity'' 1 (hp_state_stride ?p)
      (state_vec mem a) [0..<hp_num_dofs ?p] (jb_values vb) = Returned (r2, v2)" "st_code r2 \<in> {kOk, kInternal}"
  proof (cases "hp_has_velocity_state ?p")
    case vel: True
    show ?thesis
      by (rule read_block [OF lay b(4), of 1 "''velocity''"])
        (use vel that in \<open>auto split: if_splits\<close>)
  qed (use that [of OkStatus] in simp)
  show ?thesis
    using True b 1 2
    by (auto simp: read_status_def read_positions_def read_velocities_def stamp_joint_states_def ok_def)
qed

text \<open>Two joints with position and velocity; the last velocity is missing when \<open>b\<close> is false.\<close>

definition example_reading_hwm :: hwm where
  "example_reading_hwm = snd (init
     \<lparr>advertise_state = (\<lambda>s n. Inr (replicate n 0)), advertise_command = (\<lambda>s n. Inr n)\<rparr> example_hwm)"

definition example_state_memory :: "bool \<Rightarrow> iface_memory" where
  "example_state_memory b = \<lparr>state_vec = (\<lambda>a. if a = 0 then
        [\<lparr>ls_name = ''j1/position'', ls_value = Some 11\<rparr>, \<lparr>ls_name = ''j1/velocity'', ls_value = Some 12\<rparr>,
         \<lparr>ls_name = ''j2/position'', ls_value = Some 21\<rparr>,
         \<lparr>ls_name = ''j2/velocity'', ls_value = (if b then Some 22 else None)\<rparr>] else []),
     command_vec = (\<lambda>_. [])\<rparr>"

lemma example_state_ready:
  "state_ready example_reading_hwm 0 (example_state_memory b)"
  "hp_state_stride (h_params example_reading_hwm) = 2" "hp_num_dofs (h_params example_reading_hwm) = 2"
  "hp_has_velocity_state (h_params example_reading_hwm)"
  "joint_position_state example_reading_hwm = Some \<lparr>jb_values = [0, 0], jb_updated_at = None\<rparr>"
  "joint_velocity_state example_reading_hwm = Some \<lparr>jb_values = [0, 0], jb_updated_at = None\<rparr>"
  by (simp_all add: example_reading_hwm_def init_def example_hwm_sel example_params_def Let_def
      state_ready_def state_layout_def block_layout_def example_state_memory_def numeral_2_eq_2)

lemma all_less_2: "(\<forall>i<2. P i) \<longleftrightarrow> P 0 \<and> P (Suc 0)"
  by (auto simp: less_2_cases_iff)

lemma example_read_fails:
  "\<exists>h. read_status (example_state_memory False) 5 example_reading_hwm =
     Returned (mk_status kInternal ''Failed to read velocity for joint 1'', h)"
proof -
  have "hp_state_interfaces (h_params example_reading_hwm) = Some 0"
    using example_state_ready(1) by (simp add: state_ready_def)
  then show ?thesis
    by (simp add: read_status_def read_positions_def read_velocities_def example_state_ready(2-6) Let_def
        example_upt example_state_memory_def mutate_def vector_at_def dec_nat.simps digit_def)
qed

theorem read_status_failure_not_stamped_witness:
  "\<exists>r h. read_status (example_state_memory False) 5 example_reading_hwm = Returned (r, h)
     \<and> st_code r = kInternal \<and> map_option jb_updated_at (joint_position_state h) = Some None"
  using read_status_failure_not_stamped [of example_reading_hwm 0 "example_state_memory False" 5]
    example_state_ready(1,5) example_read_fails by auto

end
