(* ===== verification/Cxx_Text.thy ===== *)
theory Cxx_Text
  imports Messages
begin

text \<open>
  The numeric casts, the log severities and the byte buffers of \<^verbatim>\<open>icon_hwm_controller.cpp\<close>:
  \<^verbatim>\<open>clamp_cast\<close>, \<^verbatim>\<open>ConvertSeverity\<close>, the log bridge of the constructor, and the
  copies into the 256-byte message of \<^verbatim>\<open>HardwareModuleState\<close>.
\<close>

section \<open>Integral types and clamp_cast\<close>

record int_type =
  it_signed :: bool
  it_bits :: nat

definition type_min :: "int_type \<Rightarrow> int" where
  "type_min t = (if it_signed t then - (2 ^ (it_bits t - 1)) else 0)"

definition type_max :: "int_type \<Rightarrow> int" where
  "type_max t = (if it_signed t then 2 ^ (it_bits t - 1) - 1 else 2 ^ it_bits t - 1)"

text \<open>\<^verbatim>\<open>static_cast\<close> between integral types: modulo the width of the target.\<close>

definition static_cast :: "int_type \<Rightarrow> int \<Rightarrow> int" where
  "static_cast t v =
    (let m = v mod 2 ^ it_bits t in
     if it_signed t \<and> 2 ^ (it_bits t - 1) \<le> m then m - 2 ^ it_bits t else m)"

text \<open>
  \<^verbatim>\<open>std::cmp_greater\<close> and \<^verbatim>\<open>std::cmp_less\<close> compare the values, whatever the types.
\<close>

definition clamp_cast :: "int_type \<Rightarrow> int \<Rightarrow> int" where
  "clamp_cast t from_val =
    (if type_max t < from_val then type_max t
     else if from_val < type_min t then type_min t
     else static_cast t from_val)"

definition cxx_int :: int_type where "cxx_int = \<lparr>it_signed = True, it_bits = 32\<rparr>"
definition cxx_size_t :: int_type where "cxx_size_t = \<lparr>it_signed = False, it_bits = 64\<rparr>"

definition in_type :: "int_type \<Rightarrow> int \<Rightarrow> bool" where
  "in_type t v \<longleftrightarrow> type_min t \<le> v \<and> v \<le> type_max t"

lemma static_cast_in_range:
  assumes "0 < it_bits t" and "in_type t v"
  shows "static_cast t v = v"
proof -
  obtain k where k: "it_bits t = Suc k" using assms(1) by (cases "it_bits t") auto
  show ?thesis
  proof (cases "it_signed t \<and> v < 0")
    case True
    then have "(v + 2 * 2 ^ k) mod (2 * 2 ^ k) = v + 2 * 2 ^ k"
      using assms(2) k by (intro mod_pos_pos_trivial) (auto simp: in_type_def type_min_def)
    then have "v mod (2 * 2 ^ k) = v + 2 * 2 ^ k" by simp
    then show ?thesis
      using True assms(2) k by (auto simp: static_cast_def in_type_def type_min_def Let_def)
  next
    case False
    then show ?thesis
      using assms(2) k
      by (auto simp: static_cast_def in_type_def type_min_def type_max_def Let_def split: if_splits)
  qed
qed

lemma type_min_le_max: "0 < it_bits t \<Longrightarrow> type_min t \<le> type_max t"
  by (simp add: type_min_def type_max_def)

lemma clamp_cast_value: "0 < it_bits t \<Longrightarrow> clamp_cast t v = max (type_min t) (min (type_max t) v)"
  using static_cast_in_range [of t v] type_min_le_max [of t]
  by (auto simp: clamp_cast_def in_type_def)

section \<open>Logging\<close>

datatype severity = kDebug | kInfo | kWarning | kError | kFatal | Other_Severity nat

datatype rcutils_severity =
  RCUTILS_LOG_SEVERITY_UNSET | RCUTILS_LOG_SEVERITY_DEBUG | RCUTILS_LOG_SEVERITY_INFO
| RCUTILS_LOG_SEVERITY_WARN | RCUTILS_LOG_SEVERITY_ERROR | RCUTILS_LOG_SEVERITY_FATAL

fun convert_severity :: "severity \<Rightarrow> rcutils_severity" where
  "convert_severity kDebug = RCUTILS_LOG_SEVERITY_DEBUG"
| "convert_severity kInfo = RCUTILS_LOG_SEVERITY_INFO"
| "convert_severity kWarning = RCUTILS_LOG_SEVERITY_WARN"
| "convert_severity kError = RCUTILS_LOG_SEVERITY_ERROR"
| "convert_severity kFatal = RCUTILS_LOG_SEVERITY_FATAL"
| "convert_severity _ = RCUTILS_LOG_SEVERITY_UNSET"

record log_entry =
  le_severity :: severity
  le_function :: string
  le_file :: string
  le_line :: nat
  le_msg :: "u8 list"

record rcutils_call =
  rc_function :: string
  rc_file :: string
  rc_line :: nat
  rc_severity :: rcutils_severity
  rc_name :: string
  rc_precision :: int
  rc_data :: "u8 list"

definition log_callback ::
  "(string \<Rightarrow> rcutils_severity \<Rightarrow> bool) \<Rightarrow> string \<Rightarrow> log_entry \<Rightarrow> rcutils_call option" where
  "log_callback enabled name entry =
    (let sev = convert_severity (le_severity entry) in
     if \<not> enabled name sev then None
     else Some \<lparr>rc_function = le_function entry, rc_file = le_file entry, rc_line = le_line entry,
                rc_severity = sev, rc_name = name,
                rc_precision = clamp_cast cxx_int (int (length (le_msg entry))),
                rc_data = le_msg entry\<rparr>)"

section \<open>Byte buffers\<close>

definition bytes :: "string \<Rightarrow> u8 list" where
  "bytes s = map of_char s"

text \<open>
  \<^verbatim>\<open>strncpy(dst, src, n)\<close> into a buffer of exactly \<open>n\<close> bytes: \<open>src\<close> up to its first NUL
  (or its end, where \<^verbatim>\<open>c_str()\<close> has one), the rest filled with NUL.
\<close>

fun strncpy :: "nat \<Rightarrow> u8 list \<Rightarrow> u8 list" where
  "strncpy 0 src = []"
| "strncpy (Suc n) [] = 0 # strncpy n []"
| "strncpy (Suc n) (c # src) = (if c = 0 then 0 # strncpy n [] else c # strncpy n src)"

definition memcpy :: "u8 list \<Rightarrow> u8 list \<Rightarrow> nat \<Rightarrow> u8 list" where
  "memcpy dst src n = take n src @ drop n dst"

text \<open>The reader's view of a buffer as a C string.\<close>

definition c_string :: "u8 list \<Rightarrow> u8 list" where
  "c_string buf = takeWhile (\<lambda>b. b \<noteq> 0) buf"

lemma strncpy_nil: "strncpy n [] = replicate n 0"
  by (induction n) simp_all

lemma length_strncpy [simp]: "length (strncpy n src) = n"
  by (induction n src rule: strncpy.induct) (simp_all add: strncpy_nil)

lemma strncpy_eq: "strncpy n src = take n (c_string src @ replicate n 0)"
proof (induction n src rule: strncpy.induct)
  case (3 n c src)
  have "take n (c_string src @ replicate (Suc n) 0) = take n (c_string src @ replicate n 0)"
    by (simp del: replicate_Suc add: min_def)
  with 3 show ?case by (auto simp: c_string_def strncpy_nil)
qed (simp_all add: strncpy_nil c_string_def)

lemma no_nul_c_string: "0 \<notin> set (c_string s)"
  unfolding c_string_def by (auto dest: set_takeWhileD)

lemma c_string_pad: "0 \<notin> set s \<Longrightarrow> c_string (s @ 0 # t) = s"
  unfolding c_string_def by (induction s) auto

section \<open>Properties\<close>

text \<open>
  \<^verbatim>\<open>clamp_cast\<close> saturates: for every target type the result is representable, it is
  the value itself when that is representable, and no representable value is nearer.
\<close>

theorem clamp_cast_nearest:
  assumes "0 < it_bits t"
  shows "in_type t (clamp_cast t v) \<and> (in_type t v \<longrightarrow> clamp_cast t v = v)
    \<and> (\<forall>w. in_type t w \<longrightarrow> \<bar>v - clamp_cast t v\<bar> \<le> \<bar>v - w\<bar>)"
  using type_min_le_max [OF assms] clamp_cast_value [OF assms, of v]
  by (auto simp: in_type_def)

theorem clamp_cast_nearest_witness:
  "clamp_cast cxx_int 4294967295 = 2147483647 \<and> clamp_cast cxx_size_t (-42) = 0
   \<and> in_type cxx_int (clamp_cast cxx_int 4294967295)"
proof -
  have "0 < it_bits cxx_int" by (simp add: cxx_int_def)
  from clamp_cast_nearest [OF this, of 4294967295] show ?thesis
    by (simp add: clamp_cast_def type_max_def type_min_def cxx_int_def cxx_size_t_def)
qed

text \<open>
  The log bridge never makes \<^verbatim>\<open>printf\<close> read past a message. The precision of the
  \<^verbatim>\<open>%.*s\<close> it logs with is never negative (which would mean no limit) and never more than
  the length of the message, which is not NUL-terminated.
\<close>

theorem log_precision_in_bounds:
  assumes "log_callback enabled name entry = Some call"
  shows "0 \<le> rc_precision call \<and> rc_precision call \<le> int (length (le_msg entry))
    \<and> rc_data call = le_msg entry \<and> enabled name (rc_severity call)"
proof -
  have "rc_precision call = clamp_cast cxx_int (int (length (le_msg entry)))"
    and "rc_data call = le_msg entry" "enabled name (rc_severity call)"
    using assms by (auto simp: log_callback_def Let_def split: if_splits)
  moreover have "0 < it_bits cxx_int" by (simp add: cxx_int_def)
  ultimately show ?thesis
    by (simp add: clamp_cast_value) (simp add: type_min_def type_max_def cxx_int_def)
qed

theorem log_precision_in_bounds_witness:
  "\<exists>call. log_callback (\<lambda>n s. True) ''icon'' \<lparr>le_severity = kError, le_function = ''f'', le_file = ''f.cpp'',
      le_line = 3, le_msg = [104, 105]\<rparr> = Some call \<and> rc_precision call \<le> 2"
proof -
  let ?e = "\<lparr>le_severity = kError, le_function = ''f'', le_file = ''f.cpp'', le_line = 3,
      le_msg = [104, 105 :: u8]\<rparr>"
  obtain call where "log_callback (\<lambda>n s. True) ''icon'' ?e = Some call"
    by (simp add: log_callback_def Let_def)
  from this log_precision_in_bounds [OF this] show ?thesis by auto
qed

end
