(* ===== verification/Icon_Controller.thy ===== *)
theory Icon_Controller
  imports Hwm_Realtime Cxx_Text
begin

text \<open>
  \<^verbatim>\<open>IconHwmController\<close> (\<^verbatim>\<open>icon_hwm_controller.cpp\<close>): the claimed interfaces, the
  lifecycle handlers, the cyclic \<^verbatim>\<open>update\<close> and the periodic state publication. The
  shared-memory libraries it creates objects of (memory manager, clock, hardware module runtime) are
  the functions of the environment record.
\<close>

section \<open>Parameters and state\<close>

text \<open>The parameters of \<^verbatim>\<open>icon_hwm_controller_parameters.yaml\<close> the code reads.\<close>

record controller_params =
  cp_name :: string
  cp_shm_namespace :: string
  cp_cpu_affinity :: "i64 list"
  cp_drives_realtime_clock :: bool
  cp_dof_names :: "string list"
  cp_command_interfaces :: "string list"
  cp_reference_and_state_interfaces :: "string list"
  cp_hardware_component_name :: string
  cp_controllers_to_activate :: "string list"
  cp_controllers_to_deactivate :: "string list"
  cp_operational_status_topic :: string
  cp_clear_faults_trigger_service :: string
  cp_control_frequency_hz :: i64

text \<open>The runtime owns the module it was created with.\<close>

record runtime =
  rt_id :: nat
  rt_hwm :: hwm

record controller =
  c_params :: controller_params
  c_clock :: "nat option"
  c_runtime :: "runtime option"
  c_publisher :: bool
  c_timer :: bool
  c_init_error :: "hardware_module_state option"

text \<open>
  The outside: the node, and what the library calls return. Clocks, memory managers and runtimes are
  known by their addresses; a state fetched from the runtime is its code and the bytes of its message.
\<close>

record controller_env =
  e_node_name :: string
  e_update_rate :: u32
  e_shm_create :: "string \<Rightarrow> string \<Rightarrow> status + nat"
  e_clock_create :: "nat \<Rightarrow> status + nat"
  e_runtime_create :: "string \<Rightarrow> int \<Rightarrow> nat \<Rightarrow> hwm \<Rightarrow> status + nat"
  e_has_realtime_kernel :: bool
  e_runtime_run :: "nat \<Rightarrow> bool \<Rightarrow> i32 list \<Rightarrow> status"
  e_runtime_stop :: "nat \<Rightarrow> status"
  e_runtime_state :: "nat \<Rightarrow> status + (u8 \<times> u8 list)"
  e_to_string :: "status \<Rightarrow> string"

datatype callback_return = SUCCESS | FAILURE | ERROR

text \<open>The members whose addresses the hardware module gets.\<close>

definition state_interfaces_addr :: nat where "state_interfaces_addr = 0"
definition command_interfaces_addr :: nat where "command_interfaces_addr = 1"
definition logger_addr :: nat where "logger_addr = 2"

section \<open>Interface configuration\<close>

definition interface_names :: "string list \<Rightarrow> string list \<Rightarrow> string list" where
  "interface_names dof_names interface_types =
     foldl (\<lambda>names dof_name.
       foldl (\<lambda>names interface_type. names @ [dof_name @ ''/'' @ interface_type]) names interface_types)
     [] dof_names"

definition command_interface_configuration :: "controller \<Rightarrow> string list" where
  "command_interface_configuration c =
     interface_names (cp_dof_names (c_params c)) (cp_command_interfaces (c_params c))"

definition state_interface_configuration :: "controller \<Rightarrow> string list" where
  "state_interface_configuration c =
     interface_names (cp_dof_names (c_params c)) (cp_reference_and_state_interfaces (c_params c))"

section \<open>on_init\<close>

text \<open>\<open>loaded\<close> is what the parameter listener yields: parameters or the text of an exception.\<close>

definition on_init ::
  "controller_env \<Rightarrow> string + controller_params \<Rightarrow> controller \<Rightarrow> callback_return \<times> controller" where
  "on_init env loaded c =
    (case loaded of
       Inl what \<Rightarrow> (ERROR, c)
     | Inr ps \<Rightarrow>
         (SUCCESS, c\<lparr>c_params :=
            (if e_node_name env \<notin> set (cp_controllers_to_activate ps)
             then ps\<lparr>cp_controllers_to_activate := cp_controllers_to_activate ps @ [e_node_name env]\<rparr>
             else ps)\<rparr>))"

section \<open>on_configure\<close>

definition init_error_message :: "string \<Rightarrow> u8 list" where
  "init_error_message error_string =
     (strncpy hwm_message_size (bytes error_string))[hwm_message_size - 1 := 0]"

definition log_and_save_init_error :: "string \<Rightarrow> controller \<Rightarrow> controller" where
  "log_and_save_init_error error_string c = c\<lparr>c_init_error := Some
     \<lparr>hs_code = INIT_FAILED, hs_message = init_error_message error_string\<rparr>\<rparr>"

definition fail_init :: "string \<Rightarrow> controller \<Rightarrow> (callback_return \<times> controller) outcome" where
  "fail_init error_string c = Returned (ERROR, log_and_save_init_error error_string c)"

definition hwm_params_of :: "controller_params \<Rightarrow> nat \<Rightarrow> hwm_params" where
  "hwm_params_of ps clock =
    (let state_stride = length (cp_reference_and_state_interfaces ps);
         command_stride = length (cp_command_interfaces ps) in
     \<lparr>hp_hardware_component_name = cp_hardware_component_name ps,
      hp_num_dofs = length (cp_dof_names ps),
      hp_state_interfaces = Some state_interfaces_addr,
      hp_command_interfaces = Some command_interfaces_addr,
      hp_state_stride = state_stride,
      hp_command_stride = command_stride,
      hp_has_velocity_state = (state_stride > 1),
      hp_has_velocity_command = (command_stride > 1),
      hp_operational_status_topic = cp_operational_status_topic ps,
      hp_clear_faults_service = cp_clear_faults_trigger_service ps,
      hp_controllers_to_activate = cp_controllers_to_activate ps,
      hp_controllers_to_deactivate = cp_controllers_to_deactivate ps,
      hp_clock = Some clock,
      hp_logger = Some logger_addr\<rparr>)"

text \<open>\<^verbatim>\<open>static_cast<unsigned int>\<close> of the 64-bit parameter keeps its low 32 bits.\<close>

definition frequency_mismatch :: "controller_params \<Rightarrow> u32 \<Rightarrow> bool" where
  "frequency_mismatch ps rate \<longleftrightarrow>
     0 < sint (cp_control_frequency_hz ps) \<and> (ucast (cp_control_frequency_hz ps) :: u32) \<noteq> rate"

text \<open>\<^verbatim>\<open>std::nano::den / get_update_rate()\<close>; dividing by zero is undefined.\<close>

definition control_period :: "u32 \<Rightarrow> int outcome" where
  "control_period rate =
     (if rate = 0 then Undefined_Behaviour else Returned (1000000000 div uint rate))"

definition start_runtime :: "controller_env \<Rightarrow> nat \<Rightarrow> hwm \<Rightarrow> controller
    \<Rightarrow> (callback_return \<times> controller) outcome" where
  "start_runtime env shm impl c =
    on_returned (control_period (e_update_rate env)) (\<lambda>period.
      case e_runtime_create env (cp_name (c_params c)) period shm impl of
        Inl e \<Rightarrow> fail_init (''Failed to create HWM runtime:  '' @ e_to_string env e) c
      | Inr r \<Rightarrow>
          (let c1 = c\<lparr>c_runtime := Some \<lparr>rt_id = r, rt_hwm = impl\<rparr>\<rparr>;
               affinity_ints = map ucast (cp_cpu_affinity (c_params c)) :: i32 list;
               run_result = e_runtime_run env r (e_has_realtime_kernel env) affinity_ints in
           if \<not> ok run_result
           then fail_init (''Failed to start HWM runtime: '' @ e_to_string env run_result) c1
           else Returned (SUCCESS, c1)))"

definition create_module :: "controller_env \<Rightarrow> nat \<Rightarrow> controller
    \<Rightarrow> (callback_return \<times> controller) outcome" where
  "create_module env shm c =
    (if \<not> cp_drives_realtime_clock (c_params c)
     then fail_init ''IconHwmController must be a clock driver.'' c
     else case e_clock_create env shm of
       Inl e \<Rightarrow> fail_init ''Failed to create RealtimeClock.'' c
     | Inr clock \<Rightarrow>
         (let c1 = c\<lparr>c_clock := Some clock\<rparr> in
          case create (hwm_params_of (c_params c) clock) of
            Inl e \<Rightarrow> fail_init (''Failed to create HWM: '' @ e_to_string env e) c1
          | Inr impl \<Rightarrow> start_runtime env shm impl c1))"

definition on_configure ::
  "controller_env \<Rightarrow> controller \<Rightarrow> (callback_return \<times> controller) outcome" where
  "on_configure env c0 =
    (let c = c0\<lparr>c_init_error := None, c_publisher := True, c_timer := True\<rparr>;
         ps = c_params c0 in
     if cp_name ps = [] then fail_init ''Parameter 'name' (ICON module name) is empty.'' c
     else if cp_command_interfaces ps = [] then
       fail_init ''Parameter 'command_interfaces' is empty.'' c
     else if cp_reference_and_state_interfaces ps = [] then
       fail_init ''Parameter 'reference_and_state_interfaces' is empty.'' c
     else if cp_dof_names ps = [] then fail_init ''Parameter 'dof_names' is empty.'' c
     else if frequency_mismatch ps (e_update_rate env) then
       fail_init (''Parameter 'control_frequency_hz' ('' @ dec_int (sint (cp_control_frequency_hz ps))
         @ '') does not match update_rate ('' @ dec_nat (unat (e_update_rate env)) @ '').'') c
     else case e_shm_create env (cp_shm_namespace ps) (cp_name ps) of
       Inl e \<Rightarrow> fail_init (''Failed to create SharedMemoryManager: '' @ st_message e) c
     | Inr shm \<Rightarrow> create_module env shm c)"

section \<open>The other handlers\<close>

definition on_activate :: "controller \<Rightarrow> callback_return" where
  "on_activate c = SUCCESS"

definition on_deactivate :: "controller \<Rightarrow> callback_return" where
  "on_deactivate c = SUCCESS"

text \<open>Cancelling the timer dereferences its pointer: undefined when there is none.\<close>

definition on_cleanup ::
  "controller_env \<Rightarrow> controller \<Rightarrow> (callback_return \<times> controller) outcome" where
  "on_cleanup env c0 =
    (if \<not> c_timer c0 then Undefined_Behaviour
     else let c = c0\<lparr>c_timer := False\<rparr> in
       case c_runtime c of
         Some rt \<Rightarrow>
           (if \<not> ok (e_runtime_stop env (rt_id rt)) then Returned (ERROR, c)
            else Returned (SUCCESS, c\<lparr>c_runtime := None, c_clock := None\<rparr>))
       | None \<Rightarrow> Returned (SUCCESS, c\<lparr>c_clock := None\<rparr>))"

text \<open>
  One cycle: the calls on the clock, in order, and the result. \<open>tick\<close> and \<open>reset\<close> are what the
  clock returns; times are in nanoseconds.
\<close>

datatype clock_call = TickBlockingWithDeadline int int | Reset int

datatype return_type = UPDATE_OK | UPDATE_ERROR

definition update ::
  "(int \<Rightarrow> int \<Rightarrow> status) \<Rightarrow> (int \<Rightarrow> status) \<Rightarrow> int \<Rightarrow> int \<Rightarrow> controller
     \<Rightarrow> return_type \<times> clock_call list" where
  "update tick reset now period c =
    (if c_clock c = None then (UPDATE_ERROR, [])
     else let deadline = now + period in
       if \<not> ok (tick now deadline) then
         (if \<not> ok (reset 10000000)
          then (UPDATE_OK, [TickBlockingWithDeadline now deadline, Reset 10000000])
          else (UPDATE_OK, [TickBlockingWithDeadline now deadline, Reset 10000000]))
       else (UPDATE_OK, [TickBlockingWithDeadline now deadline]))"

text \<open>The timer callback: the message it publishes, if any.\<close>

definition publish_current_hwm_state ::
  "controller_env \<Rightarrow> controller \<Rightarrow> hardware_module_state option" where
  "publish_current_hwm_state env c =
    (case c_runtime c of
       None \<Rightarrow> (case c_init_error c of None \<Rightarrow> None | Some e \<Rightarrow> Some e)
     | Some rt \<Rightarrow>
         (case e_runtime_state env (rt_id rt) of
            Inl e \<Rightarrow> None
          | Inr (state_code, msg) \<Rightarrow> Some \<lparr>hs_code = state_code,
              hs_message = memcpy (hs_message default_hwm_state) msg (min hwm_message_size (length msg))\<rparr>))"

section \<open>Claimed interfaces\<close>

lemma foldl_append: "foldl (\<lambda>ns t. ns @ [f t]) acc ts = acc @ map f ts"
  by (induction ts arbitrary: acc) simp_all

lemma foldl_blocks: "foldl (\<lambda>ns d. ns @ g d) acc ds = acc @ concat (map g ds)"
  by (induction ds arbitrary: acc) simp_all

lemma interface_names_eq:
  "interface_names ds ts = concat (map (\<lambda>d. map (\<lambda>t. d @ ''/'' @ t) ts) ds)"
  by (simp add: interface_names_def foldl_append foldl_blocks)

lemma length_interface_names [simp]: "length (interface_names ds ts) = length ds * length ts"
  by (simp add: interface_names_eq length_concat sum_list_triv o_def)

lemma interface_names_nth:
  "i < length ds \<Longrightarrow> k < length ts \<Longrightarrow>
     interface_names ds ts ! (k + i * length ts) = ds ! i @ ''/'' @ ts ! k"
proof (induction ds arbitrary: i)
  case (Cons d ds)
  show ?case
  proof (cases i)
    case 0
    with Cons.prems show ?thesis by (simp add: interface_names_eq nth_append)
  next
    case (Suc j)
    have "interface_names (d # ds) ts ! (k + i * length ts) = interface_names ds ts ! (k + j * length ts)"
      by (simp add: interface_names_eq nth_append Suc)
    with Cons Suc show ?thesis by simp
  qed
qed simp

section \<open>What on_configure builds\<close>

lemma fail_init_not_success [simp]:
  "fail_init s c \<noteq> Returned (SUCCESS, c')" "fail_init s c \<noteq> Returned (FAILURE, c')"
  "defined (fail_init s c)"
  by (simp_all add: fail_init_def)

text \<open>What a successful configuration has created.\<close>

definition configured :: "controller_params \<Rightarrow> controller \<Rightarrow> bool" where
  "configured ps c \<longleftrightarrow> (\<exists>rt clock. c_clock c = Some clock \<and> c_runtime c = Some rt
     \<and> create (hwm_params_of ps clock) = Inr (rt_hwm rt)
     \<and> c_timer c \<and> c_publisher c \<and> c_init_error c = None \<and> c_params c = ps
     \<and> cp_name ps \<noteq> [] \<and> cp_command_interfaces ps \<noteq> [] \<and> cp_reference_and_state_interfaces ps \<noteq> []
     \<and> cp_dof_names ps \<noteq> [] \<and> cp_drives_realtime_clock ps)"

lemma start_runtime_success:
  assumes "start_runtime env shm impl c = Returned (SUCCESS, c')"
  obtains r where "c' = c\<lparr>c_runtime := Some \<lparr>rt_id = r, rt_hwm = impl\<rparr>\<rparr>"
  using assms
  by (cases "control_period (e_update_rate env)")
     (auto simp: start_runtime_def Let_def split: if_split_asm sum.split_asm)

lemma create_module_success:
  assumes "create_module env shm c = Returned (SUCCESS, c')"
  obtains r clock impl where "cp_drives_realtime_clock (c_params c)"
    "create (hwm_params_of (c_params c) clock) = Inr impl"
    "c' = c\<lparr>c_clock := Some clock, c_runtime := Some \<lparr>rt_id = r, rt_hwm = impl\<rparr>\<rparr>"
  using assms
  by (auto simp: create_module_def Let_def split: if_split_asm sum.split_asm elim!: start_runtime_success)

lemma on_configure_configured:
  "on_configure env c = Returned (SUCCESS, c') \<Longrightarrow> configured (c_params c) c'"
  by (auto simp: on_configure_def configured_def Let_def
      split: if_split_asm sum.split_asm elim!: create_module_success)

lemma create_sel:
  assumes "create p = Inr h"
  shows "h_params h = p" "latest_operational_status h = mk_os UNKNOWN []" "trace h = []"
  using assms by (auto simp: create_def split: if_splits)

lemma configured_sel:
  assumes "configured ps c"
  obtains rt clock where "c_clock c = Some clock" "c_runtime c = Some rt"
    "h_params (rt_hwm rt) = hwm_params_of ps clock"
    "latest_operational_status (rt_hwm rt) = mk_os UNKNOWN []"
  using assms create_sel unfolding configured_def by blast

lemma hwm_params_of_sel [simp]:
  "hp_num_dofs (hwm_params_of ps k) = length (cp_dof_names ps)"
  "hp_command_stride (hwm_params_of ps k) = length (cp_command_interfaces ps)"
  "hp_state_stride (hwm_params_of ps k) = length (cp_reference_and_state_interfaces ps)"
  "hp_has_velocity_command (hwm_params_of ps k) = (1 < length (cp_command_interfaces ps))"
  "hp_has_velocity_state (hwm_params_of ps k) = (1 < length (cp_reference_and_state_interfaces ps))"
  "hp_command_interfaces (hwm_params_of ps k) = Some command_interfaces_addr"
  "hp_state_interfaces (hwm_params_of ps k) = Some state_interfaces_addr"
  "hp_clock (hwm_params_of ps k) = Some k"
  by (simp_all add: hwm_params_of_def Let_def)

text \<open>
  The controller manager hands out exactly the requested interfaces in the requested order: what
  \<^verbatim>\<open>interface_configuration_type::INDIVIDUAL\<close> documents.
\<close>

definition claimed :: "controller \<Rightarrow> iface_memory \<Rightarrow> bool" where
  "claimed c mem \<longleftrightarrow>
     map lc_name (command_vec mem command_interfaces_addr) = command_interface_configuration c
   \<and> map ls_name (state_vec mem state_interfaces_addr) = state_interface_configuration c"

lemma claimed_lengths:
  assumes "claimed c mem"
  shows "length (command_vec mem command_interfaces_addr) =
      length (cp_dof_names (c_params c)) * length (cp_command_interfaces (c_params c))"
    and "length (state_vec mem state_interfaces_addr) =
      length (cp_dof_names (c_params c)) * length (cp_reference_and_state_interfaces (c_params c))"
  using assms unfolding claimed_def command_interface_configuration_def state_interface_configuration_def
  by (metis length_interface_names length_map)+

text \<open>Interface \<open>k\<close> of joint \<open>i\<close> is there and carries the joint's name and the type's.\<close>

lemma claimed_command_name:
  assumes "claimed c mem" and "i < length (cp_dof_names (c_params c))"
    and "k < length (cp_command_interfaces (c_params c))"
    and "map lc_name cs = map lc_name (command_vec mem command_interfaces_addr)"
  shows "k + i * length (cp_command_interfaces (c_params c)) < length cs"
    and "lc_name (cs ! (k + i * length (cp_command_interfaces (c_params c)))) =
      cp_dof_names (c_params c) ! i @ ''/'' @ cp_command_interfaces (c_params c) ! k"
proof -
  have names: "map lc_name cs = command_interface_configuration c"
    using assms(1,4) by (simp add: claimed_def)
  show bound: "k + i * length (cp_command_interfaces (c_params c)) < length cs"
    using block_index [OF assms(2,3)] arg_cong [OF names, of length]
    by (simp add: command_interface_configuration_def)
  show "lc_name (cs ! (k + i * length (cp_command_interfaces (c_params c)))) =
      cp_dof_names (c_params c) ! i @ ''/'' @ cp_command_interfaces (c_params c) ! k"
    using interface_names_nth [OF assms(2,3)] names nth_map [OF bound, of lc_name]
    by (simp add: command_interface_configuration_def)
qed

lemma claimed_state_name:
  assumes "claimed c mem" and "i < length (cp_dof_names (c_params c))"
    and "k < length (cp_reference_and_state_interfaces (c_params c))"
  shows "k + i * length (cp_reference_and_state_interfaces (c_params c))
      < length (state_vec mem state_interfaces_addr)"
    and "ls_name (state_vec mem state_interfaces_addr
        ! (k + i * length (cp_reference_and_state_interfaces (c_params c)))) =
      cp_dof_names (c_params c) ! i @ ''/'' @ cp_reference_and_state_interfaces (c_params c) ! k"
proof -
  have names: "map ls_name (state_vec mem state_interfaces_addr) = state_interface_configuration c"
    using assms(1) by (simp add: claimed_def)
  show bound: "k + i * length (cp_reference_and_state_interfaces (c_params c))
      < length (state_vec mem state_interfaces_addr)"
    using block_index [OF assms(2,3)] claimed_lengths(2) [OF assms(1)] by simp
  show "ls_name (state_vec mem state_interfaces_addr
        ! (k + i * length (cp_reference_and_state_interfaces (c_params c)))) =
      cp_dof_names (c_params c) ! i @ ''/'' @ cp_reference_and_state_interfaces (c_params c) ! k"
    using interface_names_nth [OF assms(2,3)] names nth_map [OF bound, of ls_name]
    by (simp add: state_interface_configuration_def)
qed

text \<open>The parameters of the module in the runtime are those of the controller.\<close>

lemma runtime_params:
  assumes "configured ps c" and "c_runtime c = Some rt"
  obtains clock where "h_params (rt_hwm rt) = hwm_params_of ps clock"
  using configured_sel [OF assms(1)] assms(2) by (metis option.inject)

lemma claimed_command_ready:
  assumes "configured ps c" and "claimed c mem" and "c_runtime c = Some rt"
  shows "command_ready (rt_hwm rt) command_interfaces_addr mem"
proof -
  obtain clock where "h_params (rt_hwm rt) = hwm_params_of ps clock"
    by (rule runtime_params [OF assms(1,3)])
  moreover have "0 < length (cp_command_interfaces ps)" "0 < length (cp_dof_names ps)" "c_params c = ps"
    using assms(1) by (auto simp: configured_def)
  moreover from this have "0 < length (cp_dof_names ps) * length (cp_command_interfaces ps)" by simp
  ultimately show ?thesis
    using claimed_lengths(1) [OF assms(2)]
    by (auto simp: command_ready_def command_layout_def block_layout_def)
qed

lemma claimed_state_layout:
  assumes "configured ps c" and "claimed c mem" and "c_runtime c = Some rt"
  shows "state_layout (h_params (rt_hwm rt)) (state_vec mem state_interfaces_addr)"
proof -
  obtain clock where "h_params (rt_hwm rt) = hwm_params_of ps clock"
    by (rule runtime_params [OF assms(1,3)])
  moreover have "0 < length (cp_reference_and_state_interfaces ps)" "c_params c = ps"
    using assms(1) by (auto simp: configured_def)
  ultimately show ?thesis
    using claimed_lengths(2) [OF assms(2)] by (simp add: state_layout_def block_layout_def)
qed

section \<open>Initialization errors\<close>

lemma c_string_padded: "0 \<notin> set s \<Longrightarrow> c_string (s @ replicate k 0 @ [0]) = s"
  by (cases k) (simp_all add: c_string_pad)

lemma init_error_message_eq:
  "init_error_message s = take 255 (c_string (bytes s))
     @ replicate (255 - length (c_string (bytes s))) 0 @ [0]"
proof -
  let ?cs = "c_string (bytes s)"
  have "init_error_message s = take 255 (strncpy 256 (bytes s)) @ [0]"
    by (simp add: init_error_message_def hwm_message_size_def upd_conv_take_nth_drop)
  also have "take 255 (strncpy 256 (bytes s)) = take 255 ?cs @ take (255 - length ?cs) (replicate 256 0)"
    by (simp only: strncpy_eq take_take take_append) simp
  also have "take (255 - length ?cs) (replicate 256 (0::u8)) = replicate (255 - length ?cs) 0"
    by (simp only: take_replicate) simp
  finally show ?thesis by simp
qed

lemma init_error_message_shape:
  "length (init_error_message s) = 256" "last (init_error_message s) = 0"
  "c_string (init_error_message s) = take 255 (c_string (bytes s))"
proof -
  show "length (init_error_message s) = 256"
    by (simp add: init_error_message_def hwm_message_size_def)
  show "last (init_error_message s) = 0"
    by (simp add: init_error_message_eq)
  have "0 \<notin> set (take 255 (c_string (bytes s)))"
    using no_nul_c_string in_set_takeD by metis
  then show "c_string (init_error_message s) = take 255 (c_string (bytes s))"
    unfolding init_error_message_eq by (rule c_string_padded)
qed

text \<open>An error that is recorded with its code and a readable, terminated text.\<close>

definition error_recorded :: "controller \<Rightarrow> bool" where
  "error_recorded c \<longleftrightarrow> (\<exists>m. c_init_error c = Some m \<and> hs_code m = INIT_FAILED
     \<and> length (hs_message m) = 256 \<and> last (hs_message m) = 0 \<and> c_string (hs_message m) \<noteq> [])"

text \<open>What every path through \<^verbatim>\<open>on_configure\<close> guarantees about its result.\<close>

definition configure_result :: "controller_env \<Rightarrow> controller_params \<Rightarrow> (callback_return \<times> controller) outcome \<Rightarrow> bool" where
  "configure_result env ps out \<longleftrightarrow>
     (case out of
        Undefined_Behaviour \<Rightarrow> e_update_rate env = 0
      | Returned (r, c) \<Rightarrow> c_timer c \<and> c_publisher c \<and> c_params c = ps
          \<and> (r = SUCCESS \<and> configured ps c \<or> r = ERROR \<and> error_recorded c))"

lemma configure_result_fail:
  assumes "of_char a \<noteq> (0 :: u8)" and "c_timer c" and "c_publisher c" and "c_params c = ps"
  shows "configure_result env ps (fail_init (a # s) c)"
proof -
  have "c_string (init_error_message (a # s)) \<noteq> []"
    using assms(1) by (simp add: init_error_message_shape) (simp add: c_string_def bytes_def)
  then show ?thesis
    using assms(2-4) by (simp add: configure_result_def fail_init_def log_and_save_init_error_def
        error_recorded_def init_error_message_shape)
qed

lemma message_initials [simp]:
  "of_char CHR ''P'' \<noteq> (0 :: u8)" "of_char CHR ''F'' \<noteq> (0 :: u8)" "of_char CHR ''I'' \<noteq> (0 :: u8)"
  by (simp_all add: of_char_def)

lemma start_runtime_result:
  assumes "c_timer c" "c_publisher c" "c_init_error c = None" "c_clock c = Some clock"
    "create (hwm_params_of (c_params c) clock) = Inr impl"
    "cp_name (c_params c) \<noteq> []" "cp_command_interfaces (c_params c) \<noteq> []"
    "cp_reference_and_state_interfaces (c_params c) \<noteq> []" "cp_dof_names (c_params c) \<noteq> []"
    "cp_drives_realtime_clock (c_params c)"
  shows "configure_result env (c_params c) (start_runtime env shm impl c)"
proof (cases "e_update_rate env = 0")
  case True
  then show ?thesis by (simp add: start_runtime_def control_period_def configure_result_def)
next
  case False
  then obtain period where p: "control_period (e_update_rate env) = Returned period"
    by (simp add: control_period_def)
  show ?thesis
  proof (cases "e_runtime_create env (cp_name (c_params c)) period shm impl")
    case (Inl e)
    then show ?thesis using assms p by (simp add: start_runtime_def configure_result_fail)
  next
    case (Inr r)
    then show ?thesis
      using assms p by (simp add: start_runtime_def Let_def configure_result_fail)
        (simp add: configure_result_def configured_def)
  qed
qed

lemma create_module_result:
  assumes "c_timer c" "c_publisher c" "c_init_error c = None"
    "cp_name (c_params c) \<noteq> []" "cp_command_interfaces (c_params c) \<noteq> []"
    "cp_reference_and_state_interfaces (c_params c) \<noteq> []" "cp_dof_names (c_params c) \<noteq> []"
  shows "configure_result env (c_params c) (create_module env shm c)"
proof -
  have "configure_result env (c_params c) (start_runtime env shm impl (c\<lparr>c_clock := Some k\<rparr>))"
    if "create (hwm_params_of (c_params c) k) = Inr impl" "cp_drives_realtime_clock (c_params c)" for k impl
    using start_runtime_result [of "c\<lparr>c_clock := Some k\<rparr>" k impl env shm] that assms by simp
  then show ?thesis
    using assms by (auto simp: create_module_def Let_def configure_result_fail split: sum.split)
qed

lemma on_configure_result: "configure_result env (c_params c) (on_configure env c)"
proof -
  let ?c = "c\<lparr>c_init_error := None, c_publisher := True, c_timer := True\<rparr>"
  have "configure_result env (c_params c) (create_module env shm ?c)"
    if "cp_name (c_params c) \<noteq> []" "cp_command_interfaces (c_params c) \<noteq> []"
      "cp_reference_and_state_interfaces (c_params c) \<noteq> []" "cp_dof_names (c_params c) \<noteq> []" for shm
    using create_module_result [of ?c env shm] that by simp
  then show ?thesis
    by (auto simp: on_configure_def Let_def configure_result_fail split: sum.split)
qed

section \<open>When configuration succeeds\<close>

text \<open>With interfaces configured, none of the checks of \<^verbatim>\<open>Ros2HwmImpl::Create\<close> can fail.\<close>

lemma create_cannot_fail:
  assumes "cp_command_interfaces ps \<noteq> []" and "cp_reference_and_state_interfaces ps \<noteq> []"
  obtains h where "create (hwm_params_of ps clock) = Inr h" "h_params h = hwm_params_of ps clock"
  using assms that by (simp add: create_def hwm_params_of_def Let_def)

text \<open>The parameters are complete and every library call on the way returns what it should.\<close>

definition configurable :: "controller_env \<Rightarrow> controller_params \<Rightarrow> bool" where
  "configurable env ps \<longleftrightarrow>
     cp_name ps \<noteq> [] \<and> cp_command_interfaces ps \<noteq> [] \<and> cp_reference_and_state_interfaces ps \<noteq> []
     \<and> cp_dof_names ps \<noteq> [] \<and> \<not> frequency_mismatch ps (e_update_rate env) \<and> cp_drives_realtime_clock ps
     \<and> e_update_rate env \<noteq> 0
     \<and> (\<exists>shm clock r. e_shm_create env (cp_shm_namespace ps) (cp_name ps) = Inr shm
          \<and> e_clock_create env shm = Inr clock
          \<and> e_runtime_create env (cp_name ps) (1000000000 div uint (e_update_rate env)) shm
               (projr (create (hwm_params_of ps clock))) = Inr r
          \<and> ok (e_runtime_run env r (e_has_realtime_kernel env) (map ucast (cp_cpu_affinity ps))))"

lemma start_runtime_succeeds_iff:
  "(\<exists>c'. start_runtime env shm impl c = Returned (SUCCESS, c')) \<longleftrightarrow> e_update_rate env \<noteq> 0
     \<and> (\<exists>r. e_runtime_create env (cp_name (c_params c)) (1000000000 div uint (e_update_rate env)) shm impl = Inr r
          \<and> ok (e_runtime_run env r (e_has_realtime_kernel env) (map ucast (cp_cpu_affinity (c_params c)))))"
  by (simp add: start_runtime_def control_period_def Let_def split: sum.split)

lemma create_module_succeeds_iff:
  assumes "cp_command_interfaces (c_params c) \<noteq> []" and "cp_reference_and_state_interfaces (c_params c) \<noteq> []"
  shows "(\<exists>c'. create_module env shm c = Returned (SUCCESS, c')) \<longleftrightarrow> cp_drives_realtime_clock (c_params c)
     \<and> (\<exists>clock. e_clock_create env shm = Inr clock
          \<and> (\<exists>c'. start_runtime env shm (projr (create (hwm_params_of (c_params c) clock)))
                (c\<lparr>c_clock := Some clock\<rparr>) = Returned (SUCCESS, c')))"
proof -
  have created: "create (hwm_params_of (c_params c) k) = Inr (projr (create (hwm_params_of (c_params c) k)))" for k
    by (rule create_cannot_fail [OF assms, of k]) simp
  have "(\<exists>c'. create_module env shm c = Returned (SUCCESS, c')) \<longleftrightarrow> cp_drives_realtime_clock (c_params c)
     \<and> (\<exists>clock h. e_clock_create env shm = Inr clock \<and> create (hwm_params_of (c_params c) clock) = Inr h
          \<and> (\<exists>c'. start_runtime env shm h (c\<lparr>c_clock := Some clock\<rparr>) = Returned (SUCCESS, c')))"
    by (auto simp: create_module_def Let_def split: sum.split)
  then show ?thesis using created by (metis sum.sel(2))
qed

lemma on_configure_succeeds_iff:
  "(\<exists>c'. on_configure env c = Returned (SUCCESS, c')) \<longleftrightarrow> configurable env (c_params c)"
proof -
  let ?ps = "c_params c" and ?c = "c\<lparr>c_init_error := None, c_publisher := True, c_timer := True\<rparr>"
  have checks: "(\<exists>c'. on_configure env c = Returned (SUCCESS, c')) \<longleftrightarrow>
      cp_name ?ps \<noteq> [] \<and> cp_command_interfaces ?ps \<noteq> [] \<and> cp_reference_and_state_interfaces ?ps \<noteq> []
      \<and> cp_dof_names ?ps \<noteq> [] \<and> \<not> frequency_mismatch ?ps (e_update_rate env)
      \<and> (\<exists>shm. e_shm_create env (cp_shm_namespace ?ps) (cp_name ?ps) = Inr shm
           \<and> (\<exists>c'. create_module env shm ?c = Returned (SUCCESS, c')))"
    by (simp add: on_configure_def Let_def split: sum.split)
  have module: "(\<exists>c'. create_module env shm ?c = Returned (SUCCESS, c')) \<longleftrightarrow> cp_drives_realtime_clock ?ps
      \<and> e_update_rate env \<noteq> 0 \<and> (\<exists>clock r. e_clock_create env shm = Inr clock
        \<and> e_runtime_create env (cp_name ?ps) (1000000000 div uint (e_update_rate env)) shm
             (projr (create (hwm_params_of ?ps clock))) = Inr r
        \<and> ok (e_runtime_run env r (e_has_realtime_kernel env) (map ucast (cp_cpu_affinity ?ps))))"
    if "cp_command_interfaces ?ps \<noteq> []" "cp_reference_and_state_interfaces ?ps \<noteq> []" for shm
    using create_module_succeeds_iff [of ?c env shm] that
    by (simp add: start_runtime_succeeds_iff) blast
  show ?thesis
  proof (cases "cp_command_interfaces ?ps = [] \<or> cp_reference_and_state_interfaces ?ps = []")
    case True
    then show ?thesis unfolding checks configurable_def by blast
  next
    case False
    then show ?thesis unfolding checks configurable_def by (simp add: module) blast
  qed
qed

section \<open>Properties\<close>

text \<open>
  C27: configuration has exactly two outcomes, and it is known when which. Unless the update rate is
  zero (a division by zero), \<^verbatim>\<open>on_configure\<close> returns; it returns \<open>SUCCESS\<close> exactly when the
  parameters are complete and consistent and every library call succeeds (the module's own checks never
  fail), and then clock, runtime and a module created from the parameters exist and no error is recorded;
  otherwise it returns \<open>ERROR\<close> with an error recorded: code \<open>INIT_FAILED\<close> and a non-empty,
  NUL-terminated message of exactly 256 bytes.
\<close>

theorem on_configure_outcome:
  "(case on_configure env c of
     Undefined_Behaviour \<Rightarrow> e_update_rate env = 0
   | Returned (r, c') \<Rightarrow> c_timer c' \<and> c_publisher c' \<and> c_params c' = c_params c
       \<and> (r = SUCCESS \<and> configured (c_params c) c' \<or> r = ERROR \<and> error_recorded c'))
   \<and> ((\<exists>c'. on_configure env c = Returned (SUCCESS, c')) \<longleftrightarrow> configurable env (c_params c))"
  using on_configure_result [of env c] on_configure_succeeds_iff [of env c] by (simp add: configure_result_def)

text \<open>
  C37: an initialization error is readable by whoever receives it. The message field is always 256
  bytes and ends in NUL, and read as a C string it is the error text up to its first NUL, cut to 255
  bytes.
\<close>

theorem init_error_readable:
  "\<exists>m. c_init_error (log_and_save_init_error s c) = Some m \<and> hs_code m = INIT_FAILED
     \<and> length (hs_message m) = hwm_message_size \<and> last (hs_message m) = 0
     \<and> c_string (hs_message m) = take (hwm_message_size - 1) (c_string (bytes s))"
  by (simp add: log_and_save_init_error_def init_error_message_shape hwm_message_size_def)

text \<open>
  What the frequency check accepts. The parameter passes if it is not positive, or if its value
  modulo \<open>2 ^ 32\<close> is the update rate; in particular a parameter above \<open>2 ^ 32\<close> can pass
  although it differs from the rate, and below that a positive one passes exactly when it is equal.
\<close>

theorem frequency_check:
  "\<not> frequency_mismatch ps rate \<longleftrightarrow>
     sint (cp_control_frequency_hz ps) \<le> 0
     \<or> sint (cp_control_frequency_hz ps) mod 2 ^ 32 = uint rate"
proof -
  have "uint (ucast w :: u32) = sint w mod 2 ^ 32" for w :: i64
  proof -
    have "uint (ucast w :: u32) = uint w mod 2 ^ 32"
      by (simp add: unsigned_ucast_eq take_bit_eq_mod)
    also have "uint w = sint w mod 2 ^ 64"
      by (simp add: uint_sint take_bit_eq_mod)
    also have "sint w mod 2 ^ 64 mod 2 ^ 32 = sint w mod 2 ^ 32"
      by (rule mod_mod_cancel) simp
    finally show ?thesis .
  qed
  then show ?thesis
    by (auto simp: frequency_mismatch_def word_uint_eq_iff not_less)
qed

text \<open>
  The control period handed to the runtime is the largest whole number of nanoseconds whose
  multiple by the update rate fits in a second; it is undefined exactly for rate zero.
\<close>

theorem control_period_bounds:
  "case control_period rate of
     Undefined_Behaviour \<Rightarrow> rate = 0
   | Returned p \<Rightarrow> 0 < rate \<and> 0 \<le> p \<and> p \<le> 1000000000
       \<and> uint rate * p \<le> 1000000000 \<and> 1000000000 < uint rate * (p + 1)"
proof (cases "rate = 0")
  case True
  then show ?thesis by (simp add: control_period_def)
next
  case False
  let ?r = "uint rate" and ?p = "1000000000 div uint rate"
  have r: "0 < ?r" using False by (simp add: word_neq_0_conv word_less_def)
  have split: "?r * ?p + 1000000000 mod ?r = 1000000000" by (rule mult_div_mod_eq)
  have m: "0 \<le> 1000000000 mod ?r" "1000000000 mod ?r < ?r" using r by simp_all
  have p0: "0 \<le> ?p" using r by (simp add: pos_imp_zdiv_nonneg_iff)
  have step: "?r * (?p + 1) = ?r * ?p + ?r" by (simp only: distrib_left mult_1_right)
  have "?r * ?p \<le> 1000000000" "1000000000 < ?r * (?p + 1)"
    unfolding step using split m by linarith+
  moreover have "1 * ?p \<le> ?r * ?p" using r p0 by (intro mult_right_mono) simp_all
  moreover note p0
  ultimately show ?thesis
    using False r by (simp add: control_period_def word_less_def del: mult_div_mod_eq)
qed

end
