(* ===== verification/Controller_Lifecycle.thy ===== *)
theory Controller_Lifecycle
  imports Icon_Controller
begin

text \<open>
  The controller under its lifecycle manager. The protocol is the documented one of ROS managed
  nodes: configure only when unconfigured, activate only when inactive, an \<open>ERROR\<close> ends in the
  finalized state because the controller does not override \<^verbatim>\<open>on_error\<close>, and shutting down
  changes no member because it does not override \<^verbatim>\<open>on_shutdown\<close> either. The outside may
  answer differently at every step; only the update rate is fixed.
\<close>

datatype lifecycle = Unconfigured | Inactive | Active | Finalized

definition new_controller :: "controller_params \<Rightarrow> controller" where
  "new_controller ps = \<lparr>c_params = ps, c_clock = None, c_runtime = None, c_publisher = False,
     c_timer = False, c_init_error = None\<rparr>"

inductive lifecycle_step :: "u32 \<Rightarrow> lifecycle \<times> controller \<Rightarrow> lifecycle \<times> controller \<Rightarrow> bool"
  for rate :: u32 where
  configure_ok: "e_update_rate env = rate \<Longrightarrow> on_configure env c = Returned (SUCCESS, c') \<Longrightarrow>
     lifecycle_step rate (Unconfigured, c) (Inactive, c')"
| configure_error: "e_update_rate env = rate \<Longrightarrow> on_configure env c = Returned (ERROR, c') \<Longrightarrow>
     lifecycle_step rate (Unconfigured, c) (Finalized, c')"
| activate: "on_activate c = SUCCESS \<Longrightarrow> lifecycle_step rate (Inactive, c) (Active, c)"
| deactivate: "on_deactivate c = SUCCESS \<Longrightarrow> lifecycle_step rate (Active, c) (Inactive, c)"
| cleanup_ok: "on_cleanup env c = Returned (SUCCESS, c') \<Longrightarrow>
     lifecycle_step rate (Inactive, c) (Unconfigured, c')"
| cleanup_error: "on_cleanup env c = Returned (ERROR, c') \<Longrightarrow>
     lifecycle_step rate (Inactive, c) (Finalized, c')"
| shut_down: "l \<noteq> Finalized \<Longrightarrow> lifecycle_step rate (l, c) (Finalized, c)"

inductive_cases from_unconfigured: "lifecycle_step rate (Unconfigured, c) s"
inductive_cases from_inactive: "lifecycle_step rate (Inactive, c) s"
inductive_cases from_active: "lifecycle_step rate (Active, c) s"
inductive_simps from_finalized [simp]: "lifecycle_step rate (Finalized, c) s"

inductive reachable :: "u32 \<Rightarrow> lifecycle \<times> controller \<Rightarrow> bool" for rate :: u32 where
  initialized: "on_init env (Inr ps) (new_controller ps) = (SUCCESS, c) \<Longrightarrow>
     reachable rate (Unconfigured, c)"
| step: "reachable rate s \<Longrightarrow> lifecycle_step rate s s' \<Longrightarrow> reachable rate s'"

text \<open>The module in the runtime points to the clock the controller owns.\<close>

definition clock_owned :: "controller \<Rightarrow> bool" where
  "clock_owned c \<longleftrightarrow> (\<forall>rt. c_runtime c = Some rt \<longrightarrow>
     c_clock c \<noteq> None \<and> hp_clock (h_params (rt_hwm rt)) = c_clock c)"

fun lifecycle_inv :: "lifecycle \<times> controller \<Rightarrow> bool" where
  "lifecycle_inv (Unconfigured, c) \<longleftrightarrow> c_runtime c = None \<and> c_clock c = None"
| "lifecycle_inv (Inactive, c) \<longleftrightarrow> configured (c_params c) c"
| "lifecycle_inv (Active, c) \<longleftrightarrow> configured (c_params c) c"
| "lifecycle_inv (Finalized, c) \<longleftrightarrow> clock_owned c"

lemma configured_clock_owned: "configured ps c \<Longrightarrow> clock_owned c"
  unfolding clock_owned_def by (auto elim!: configured_sel)

lemma fail_init_runtime:
  "fail_init s c = Returned (r, c') \<Longrightarrow> c_runtime c' = c_runtime c \<and> c_clock c' = c_clock c"
  by (auto simp: fail_init_def log_and_save_init_error_def)

lemma fail_init_clock_owned:
  "fail_init s c = Returned (r, c') \<Longrightarrow> clock_owned c \<Longrightarrow> clock_owned c'"
  using fail_init_runtime unfolding clock_owned_def by metis

lemma start_runtime_clock_owned:
  assumes "start_runtime env shm impl c = Returned (r, c')" and "c_runtime c = None"
    and "c_clock c = Some k" and "h_params impl = hwm_params_of ps k"
  shows "clock_owned c'"
proof -
  have "clock_owned c" "clock_owned (c\<lparr>c_runtime := Some \<lparr>rt_id = i, rt_hwm = impl\<rparr>\<rparr>)" for i
    using assms(2-4) by (simp_all add: clock_owned_def)
  then show ?thesis
    using assms(1)
    by (cases "control_period (e_update_rate env)")
       (auto simp: start_runtime_def Let_def split: if_split_asm sum.split_asm dest: fail_init_clock_owned)
qed

lemma on_configure_clock_owned:
  assumes "on_configure env c = Returned (r, c')" and "c_runtime c = None"
  shows "clock_owned c'"
proof -
  have none: "clock_owned d" if "c_runtime d = None" for d
    using that by (simp add: clock_owned_def)
  have started: "clock_owned c'"
    if "start_runtime env shm impl (d\<lparr>c_clock := Some k\<rparr>) = Returned (r, c')"
      "create (hwm_params_of ps k) = Inr impl" "c_runtime d = None" for shm impl d k ps
    using start_runtime_clock_owned [OF that(1)] that create_sel(1) by auto
  show ?thesis
    using assms(1,2) unfolding on_configure_def create_module_def Let_def
    by (auto split: if_split_asm sum.split_asm
        dest: fail_init_clock_owned [OF _ none] intro: started)
qed

lemma lifecycle_inv_step:
  assumes "lifecycle_step rate s s'" and "lifecycle_inv s"
  shows "lifecycle_inv s'"
  using assms
proof (induction rule: lifecycle_step.induct)
  case (configure_ok env c c')
  then show ?case
    using on_configure_configured by (fastforce simp: configured_def)
next
  case (configure_error env c c')
  then show ?case using on_configure_clock_owned by simp
next
  case (cleanup_ok env c c')
  then show ?case by (auto simp: on_cleanup_def Let_def split: if_split_asm option.split_asm)
next
  case (cleanup_error env c c')
  then show ?case using configured_clock_owned
    by (auto simp: on_cleanup_def Let_def clock_owned_def split: if_split_asm option.split_asm)
next
  case (shut_down l c)
  then show ?case using configured_clock_owned by (cases l) (auto simp: clock_owned_def)
qed simp_all

lemma reachable_inv: "reachable rate s \<Longrightarrow> lifecycle_inv s"
proof (induction rule: reachable.induct)
  case (initialized env ps c)
  then show ?case by (auto simp: on_init_def new_controller_def)
next
  case (step s s')
  then show ?case by (blast intro: lifecycle_inv_step)
qed

lemma reachable_clock_owned:
  assumes "reachable rate (l, c)"
  shows "clock_owned c"
  using reachable_inv [OF assms] configured_clock_owned by (cases l) (auto simp: clock_owned_def)

text \<open>Every recorded error fills the message field exactly.\<close>

definition errors_sized :: "controller \<Rightarrow> bool" where
  "errors_sized c \<longleftrightarrow> (\<forall>m. c_init_error c = Some m \<longrightarrow> length (hs_message m) = hwm_message_size)"

lemma on_configure_errors_sized:
  assumes "on_configure env c = Returned (r, c')"
  shows "errors_sized c'"
  using on_configure_result [of env c] assms
  by (auto simp: configure_result_def configured_def error_recorded_def errors_sized_def hwm_message_size_def)

lemma errors_sized_step: "lifecycle_step rate (l, c) (l', c') \<Longrightarrow> errors_sized c \<Longrightarrow> errors_sized c'"
  by (cases rule: lifecycle_step.cases)
     (auto simp: on_cleanup_def Let_def errors_sized_def [of "_ :: controller"] split: if_split_asm option.split_asm
       dest: on_configure_errors_sized)

lemma reachable_errors_sized: "reachable rate s \<Longrightarrow> errors_sized (snd s)"
proof (induction rule: reachable.induct)
  case (initialized env ps c)
  then show ?case by (auto simp: on_init_def new_controller_def errors_sized_def)
next
  case (step s s')
  then show ?case by (cases s; cases s') (auto intro: errors_sized_step)
qed

lemma reachable_active: "reachable rate (Active, c) \<Longrightarrow> configured (c_params c) c"
  using reachable_inv by fastforce

section \<open>A concrete run\<close>

definition example_controller_params :: controller_params where
  "example_controller_params = \<lparr>cp_name = ''robot'', cp_shm_namespace = ''icon'', cp_cpu_affinity = [2],
     cp_drives_realtime_clock = True, cp_dof_names = [''j1'', ''j2''],
     cp_command_interfaces = [''position''],
     cp_reference_and_state_interfaces = [''position'', ''velocity''],
     cp_hardware_component_name = ''ur5e'', cp_controllers_to_activate = [],
     cp_controllers_to_deactivate = [], cp_operational_status_topic = ''/operational_status'',
     cp_clear_faults_trigger_service = ''/clear_faults'', cp_control_frequency_hz = 500\<rparr>"

text \<open>\<open>run_ok\<close> is whether starting the runtime succeeds.\<close>

definition example_controller_env :: "bool \<Rightarrow> controller_env" where
  "example_controller_env run_ok = \<lparr>e_node_name = ''icon_controller'', e_update_rate = 500,
     e_shm_create = (\<lambda>ns n. Inr 1), e_clock_create = (\<lambda>s. Inr 2),
     e_runtime_create = (\<lambda>n p s h. Inr 3), e_has_realtime_kernel = True,
     e_runtime_run = (\<lambda>r rt cpus. if run_ok then OkStatus else mk_status kInternal ''no thread''),
     e_runtime_stop = (\<lambda>r. OkStatus), e_runtime_state = (\<lambda>r. Inr (1, [72, 105])),
     e_to_string = st_message\<rparr>"

definition example_initialized :: controller where
  "example_initialized = snd (on_init (example_controller_env True) (Inr example_controller_params)
     (new_controller example_controller_params))"

definition example_outcome :: "bool \<Rightarrow> (callback_return \<times> controller) outcome" where
  "example_outcome run_ok = on_configure (example_controller_env run_ok) example_initialized"

definition example_configured :: "bool \<Rightarrow> controller" where
  "example_configured run_ok = (case example_outcome run_ok of Returned (r, c) \<Rightarrow> c)"

lemmas example_controller_simps = example_initialized_def on_init_def example_controller_env_def
  example_controller_params_def new_controller_def

lemma example_initialized_reachable: "reachable 500 (Unconfigured, example_initialized)"
  by (rule reachable.initialized [of "example_controller_env True" example_controller_params])
     (simp add: example_controller_simps)

lemma example_outcome_eq:
  "example_outcome run_ok = Returned (if run_ok then SUCCESS else ERROR, example_configured run_ok)"
  by (cases run_ok) (simp_all add: example_configured_def example_outcome_def on_configure_def
      create_module_def start_runtime_def control_period_def frequency_mismatch_def create_def
      hwm_params_of_def fail_init_def Let_def example_controller_simps
      state_interfaces_addr_def command_interfaces_addr_def)

lemma example_configured_reachable:
  "reachable 500 (Inactive, example_configured True)" "reachable 500 (Active, example_configured True)"
proof -
  have "lifecycle_step 500 (Unconfigured, example_initialized) (Inactive, example_configured True)"
    using example_outcome_eq [of True]
    by (intro configure_ok [of "example_controller_env True"])
       (simp_all add: example_outcome_def, simp add: example_controller_env_def)
  then show inactive: "reachable 500 (Inactive, example_configured True)"
    using example_initialized_reachable by (rule step [rotated])
  show "reachable 500 (Active, example_configured True)"
    by (rule step [OF inactive activate]) (simp add: on_activate_def)
qed

lemma example_configured_runtime:
  "c_runtime (example_configured b) \<noteq> None" "c_clock (example_configured b) = Some 2"
  by (cases b; simp add: example_configured_def example_outcome_def on_configure_def
      create_module_def start_runtime_def control_period_def frequency_mismatch_def create_def
      hwm_params_of_def fail_init_def Let_def example_controller_simps log_and_save_init_error_def
      state_interfaces_addr_def command_interfaces_addr_def)+

section \<open>Properties\<close>

text \<open>
  An active controller drives the clock. In every reachable active state \<^verbatim>\<open>update\<close>
  returns \<open>OK\<close>, whatever the clock does; it ticks exactly once, first, with the end of the period as
  deadline, and resets the clock (with 10 ms) exactly when that tick failed.
\<close>

theorem active_update_ticks:
  assumes "reachable rate (Active, c)"
  shows "update tick reset now period c = (UPDATE_OK, TickBlockingWithDeadline now (now + period)
    # (if ok (tick now (now + period)) then [] else [Reset 10000000]))"
proof -
  have "lifecycle_inv (Active, c)" using assms by (rule reachable_inv)
  then have "c_clock c \<noteq> None" by (auto simp: configured_def)
  then show ?thesis by (simp add: update_def Let_def)
qed

theorem active_update_ticks_witness:
  "update (\<lambda>t d. mk_status kDeadlineExceeded ''late'') (\<lambda>t. OkStatus) 100 2000000 (example_configured True)
   = (UPDATE_OK, [TickBlockingWithDeadline 100 2000100, Reset 10000000])"
  by (subst active_update_ticks [OF example_configured_reachable(2)]) simp

text \<open>
  The lifecycle handlers are defined wherever they are called. In an unconfigured state
  \<^verbatim>\<open>on_configure\<close> returns unless the update rate is zero; in an inactive state
  \<^verbatim>\<open>on_cleanup\<close> returns, and leaves neither runtime nor clock when it succeeds.
\<close>

theorem handlers_defined:
  assumes "reachable rate s"
  shows "case s of
      (Unconfigured, c) \<Rightarrow> (\<forall>env. e_update_rate env = rate \<and> rate \<noteq> 0 \<longrightarrow> defined (on_configure env c))
    | (Inactive, c) \<Rightarrow> (\<forall>env. \<exists>r c'. on_cleanup env c = Returned (r, c')
          \<and> (r = SUCCESS \<longrightarrow> c_runtime c' = None \<and> c_clock c' = None))
    | _ \<Rightarrow> True"
proof -
  obtain l c where s: "s = (l, c)" by (cases s)
  have inv: "lifecycle_inv (l, c)" using assms s reachable_inv by blast
  have "defined (on_configure env c)" if "e_update_rate env \<noteq> 0" for env
    using that on_configure_result [of env c]
    by (cases "on_configure env c") (auto simp: configure_result_def)
  moreover have "\<exists>r c'. on_cleanup env c = Returned (r, c')
      \<and> (r = SUCCESS \<longrightarrow> c_runtime c' = None \<and> c_clock c' = None)" if "l = Inactive" for env
    using that inv by (auto simp: on_cleanup_def Let_def configured_def)
  ultimately show ?thesis using s by (auto split: lifecycle.split)
qed

theorem handlers_defined_witness:
  "defined (on_configure (example_controller_env False) example_initialized)"
  using handlers_defined [OF example_initialized_reachable] by (simp add: example_controller_env_def)

text \<open>
  C3: a command reaches the joint it is meant for, by name. In an active state, with the interfaces
  the controller asked for, an accepted command of the right size puts position \<open>i\<close> into the interface
  called after the \<open>i\<close>-th configured joint and the first configured command type, and, when a second
  type is configured, velocity \<open>i\<close> into the interface called after that joint and the second type.
\<close>

theorem command_reaches_named_joint:
  assumes "reachable rate (Active, c)" and "c_runtime c = Some rt" and "claimed c mem"
    and "h_params h = h_params (rt_hwm rt)" and "fits h cmd" and "ok (check_operational_status got h)"
    and "list_all lc_accepts (command_vec mem command_interfaces_addr)"
    and "dofs = cp_dof_names (c_params c)" and "types = cp_command_interfaces (c_params c)"
  shows "\<exists>r mem'. apply_command got (Inr cmd) h mem = Returned (r, mem') \<and> st_code r = kOk
    \<and> (\<forall>i < length dofs. \<exists>k.
         lc_name (command_vec mem' command_interfaces_addr ! k) = dofs ! i @ ''/'' @ types ! 0
         \<and> lc_value (command_vec mem' command_interfaces_addr ! k) = pc_position cmd ! i)
    \<and> (1 < length types \<longrightarrow> (\<forall>i < length dofs. \<exists>k.
         lc_name (command_vec mem' command_interfaces_addr ! k) = dofs ! i @ ''/'' @ types ! 1
         \<and> lc_value (command_vec mem' command_interfaces_addr ! k) = pc_velocity_feedforward cmd ! i))"
proof -
  let ?a = command_interfaces_addr
  have conf: "configured (c_params c) c" using assms(1) by (rule reachable_active)
  obtain clock where hp: "h_params h = hwm_params_of (c_params c) clock"
    using runtime_params [OF conf assms(2)] assms(4) by metis
  have "command_ready (rt_hwm rt) ?a mem" by (rule claimed_command_ready [OF conf assms(3,2)])
  then have ready: "command_ready h ?a mem" by (simp add: command_ready_def assms(4))
  have types: "0 < length types" using conf assms(9) by (auto simp: configured_def)
  obtain r mem' where run: "apply_command got (Inr cmd) h mem = Returned (r, mem')" "st_code r = kOk"
    and vals: "\<forall>i < length dofs. lc_value (command_vec mem' ?a ! (i * length types)) = pc_position cmd ! i
         \<and> (1 < length types \<longrightarrow>
              lc_value (command_vec mem' ?a ! (1 + i * length types)) = pc_velocity_feedforward cmd ! i)"
    and names: "map lc_name (command_vec mem' ?a) = map lc_name (command_vec mem ?a)"
    using accepted_command [OF ready assms(5-7) refl refl] hp assms(8,9) by auto
  have name: "lc_name (command_vec mem' ?a ! (k + i * length types)) = dofs ! i @ ''/'' @ types ! k"
    if "i < length dofs" "k < length types" for i k
    using claimed_command_name(2) [OF assms(3) _ _ names] that assms(8,9) by simp
  show ?thesis
    using run vals name [of _ 0] name [of _ 1] types
    by (intro exI [of _ r] exI [of _ mem'] conjI allI impI) (auto intro: exI)
qed

definition example_claimed :: iface_memory where
  "example_claimed = \<lparr>
     state_vec = (\<lambda>a. if a = state_interfaces_addr then
        [\<lparr>ls_name = ''j1/position'', ls_value = None\<rparr>, \<lparr>ls_name = ''j1/velocity'', ls_value = None\<rparr>,
         \<lparr>ls_name = ''j2/position'', ls_value = None\<rparr>, \<lparr>ls_name = ''j2/velocity'', ls_value = None\<rparr>] else []),
     command_vec = (\<lambda>a. if a = command_interfaces_addr then
        [\<lparr>lc_name = ''j1/position'', lc_value = 0, lc_accepts = True\<rparr>,
         \<lparr>lc_name = ''j2/position'', lc_value = 0, lc_accepts = True\<rparr>] else [])\<rparr>"

lemma example_configured_sel:
  "cp_dof_names (c_params (example_configured True)) = [''j1'', ''j2'']"
  "cp_command_interfaces (c_params (example_configured True)) = [''position'']"
  "cp_reference_and_state_interfaces (c_params (example_configured True)) = [''position'', ''velocity'']"
  by (simp_all add: example_configured_def example_outcome_def on_configure_def
      create_module_def start_runtime_def control_period_def frequency_mismatch_def create_def
      hwm_params_of_def fail_init_def Let_def example_controller_simps
      state_interfaces_addr_def command_interfaces_addr_def)

lemma example_claimed_claimed: "claimed (example_configured True) example_claimed"
  by (simp add: claimed_def example_claimed_def command_interface_configuration_def
      state_interface_configuration_def interface_names_def example_configured_sel)

theorem command_reaches_named_joint_witness:
  "\<exists>rt r mem. c_runtime (example_configured True) = Some rt
     \<and> apply_command True (Inr \<lparr>pc_position = [7, 8], pc_velocity_feedforward = [0, 0]\<rparr>)
         (rt_hwm rt) example_claimed = Returned (r, mem)
     \<and> (\<exists>k. lc_name (command_vec mem command_interfaces_addr ! k) = ''j2/position''
          \<and> lc_value (command_vec mem command_interfaces_addr ! k) = 8)"
proof -
  obtain rt where rt: "c_runtime (example_configured True) = Some rt"
    using example_configured_runtime(1) by blast
  obtain clock where h: "h_params (rt_hwm rt) = hwm_params_of (c_params (example_configured True)) clock"
      "latest_operational_status (rt_hwm rt) = mk_os UNKNOWN []"
    using configured_sel [OF reachable_active [OF example_configured_reachable(2)]] rt by (metis option.inject)
  have fit: "fits (rt_hwm rt) \<lparr>pc_position = [7, 8], pc_velocity_feedforward = [0, 0]\<rparr>"
    by (simp add: fits_def h(1) example_configured_sel)
  have gate: "ok (check_operational_status True (rt_hwm rt))"
    by (simp add: check_operational_status_def h(2))
  have acc: "list_all lc_accepts (command_vec example_claimed command_interfaces_addr)"
    by (simp add: example_claimed_def)
  show ?thesis
    using command_reaches_named_joint [OF example_configured_reachable(2) rt example_claimed_claimed refl
        fit gate acc refl refl] rt
    by (auto simp: example_configured_sel dest!: spec [of _ "Suc 0"])
qed

text \<open>
  C35: starting the module switches this controller on. After \<^verbatim>\<open>on_init\<close> and a successful
  \<^verbatim>\<open>on_configure\<close>, a \<^verbatim>\<open>Prepare\<close> that returns \<open>Ok\<close> has asked the
  controller manager to activate the controller under its own name, also when the parameters do not
  list it; the parameters gain at most that one name.
\<close>

theorem prepare_activates_itself:
  assumes "on_init env (Inr ps) c0 = (SUCCESS, c1)" and "on_configure env1 c1 = Returned (SUCCESS, c2)"
    and "c_runtime c2 = Some rt" and "clock_resets_in_time outside"
    and "ok (fst (prepare outside (rt_hwm rt)))"
  shows "\<exists>activate. (switch_controller_service,
        SwitchController activate (cp_controllers_to_deactivate ps) BEST_EFFORT)
        \<in> set (requests (trace (snd (prepare outside (rt_hwm rt)))))
      \<and> set activate = insert (e_node_name env) (set (cp_controllers_to_activate ps))
      \<and> length activate \<le> Suc (length (cp_controllers_to_activate ps))"
proof -
  let ?h = "rt_hwm rt"
  have ps: "cp_controllers_to_deactivate (c_params c1) = cp_controllers_to_deactivate ps"
      "set (cp_controllers_to_activate (c_params c1)) = insert (e_node_name env) (set (cp_controllers_to_activate ps))"
      "length (cp_controllers_to_activate (c_params c1)) \<le> Suc (length (cp_controllers_to_activate ps))"
    using assms(1) by (auto simp: on_init_def split: if_split_asm)
  obtain clock where hp: "h_params ?h = hwm_params_of (c_params c1) clock"
    by (rule runtime_params [OF on_configure_configured [OF assms(2)] assms(3)])
  have "requests (trace (snd (prepare outside ?h))) = requests (trace ?h) @ start_plan (h_params ?h)"
    using status_call.ok_sends_all [OF prepare_call [OF assms(4)]] assms(5) unfolding prepare_def by blast
  then have "(switch_controller_service, SwitchController (cp_controllers_to_activate (c_params c1))
      (cp_controllers_to_deactivate (c_params c1)) BEST_EFFORT) \<in> set (requests (trace (snd (prepare outside ?h))))"
    by (simp add: start_plan_def switch_plan_def hp hwm_params_of_def Let_def)
  with ps show ?thesis by metis
qed

theorem prepare_activates_itself_witness:
  "\<exists>rt a. c_runtime (example_configured True) = Some rt
     \<and> (switch_controller_service, SwitchController a [] BEST_EFFORT)
         \<in> set (requests (trace (snd (prepare accepting_env (rt_hwm rt)))))
     \<and> set a = {''icon_controller''}"
proof -
  obtain rt where rt: "c_runtime (example_configured True) = Some rt"
    using example_configured_runtime(1) by blast
  have "on_init (example_controller_env True) (Inr example_controller_params)
      (new_controller example_controller_params) = (SUCCESS, example_initialized)"
    by (simp add: example_controller_simps)
  from prepare_activates_itself [OF this, of "example_controller_env True" "example_configured True" rt
      accepting_env] show ?thesis
    using example_outcome_eq [of True] rt accepting_clock accepting_run_ok(1) [of "rt_hwm rt"]
    by (auto simp: example_outcome_def) (auto simp: example_controller_simps)
qed

text \<open>
  C36: what is published. In every reachable state, with whatever the runtime returns, a published
  state has a message of exactly 256 bytes. Without a runtime it is the recorded initialization error;
  with one it is the runtime's code and the message's bytes, cut to 256 and padded with zeros.
\<close>

theorem publication_faithful:
  assumes "reachable rate (l, c)" and "publish_current_hwm_state env c = Some m"
  shows "length (hs_message m) = hwm_message_size
    \<and> (case c_runtime c of
         None \<Rightarrow> c_init_error c = Some m
       | Some rt \<Rightarrow> \<exists>code msg. e_runtime_state env (rt_id rt) = Inr (code, msg) \<and> hs_code m = code
           \<and> hs_message m = take hwm_message_size msg @ replicate (hwm_message_size - length msg) 0)"
proof (cases "c_runtime c")
  case None
  then show ?thesis
    using assms(2) reachable_errors_sized [OF assms(1)]
    by (auto simp: publish_current_hwm_state_def errors_sized_def split: option.split_asm)
next
  case (Some rt)
  then obtain code msg where "e_runtime_state env (rt_id rt) = Inr (code, msg)"
      and m: "m = \<lparr>hs_code = code, hs_message = memcpy (replicate hwm_message_size 0) msg
        (min hwm_message_size (length msg))\<rparr>"
    using assms(2) by (auto simp: publish_current_hwm_state_def default_hwm_state_def split: sum.split_asm)
  moreover have "memcpy (replicate hwm_message_size 0) msg (min hwm_message_size (length msg)) =
      take hwm_message_size msg @ replicate (hwm_message_size - length msg) 0"
    by (cases "length msg \<le> hwm_message_size") (simp_all add: memcpy_def min_def)
  ultimately show ?thesis using Some by simp
qed

theorem publication_faithful_witness:
  "publish_current_hwm_state (example_controller_env True) (example_configured True) =
     Some \<lparr>hs_code = 1, hs_message = [72, 105] @ replicate 254 0\<rparr>"
proof -
  obtain rt where rt: "c_runtime (example_configured True) = Some rt"
    using example_configured_runtime(1) by blast
  then obtain m where m: "publish_current_hwm_state (example_controller_env True) (example_configured True) = Some m"
    by (simp add: publish_current_hwm_state_def example_controller_env_def)
  from publication_faithful [OF example_configured_reachable(1) this] show ?thesis
    using rt m by (simp add: example_controller_env_def hwm_message_size_def)
qed

text \<open>How a configuration ends that has got as far as a runtime: by the result of starting it.\<close>

lemma fail_init_keeps:
  "fail_init s c = Returned (r, c') \<Longrightarrow> r = ERROR \<and> c_runtime c' = c_runtime c \<and> c_params c' = c_params c"
  by (auto simp: fail_init_def log_and_save_init_error_def)

lemma start_runtime_run:
  assumes "start_runtime env shm impl c = Returned (r, c')" and "c_runtime c = None" and "c_runtime c' = Some rt"
  shows "r = (if ok (e_runtime_run env (rt_id rt) (e_has_realtime_kernel env)
      (map ucast (cp_cpu_affinity (c_params c)))) then SUCCESS else ERROR)"
proof -
  obtain period where period: "control_period (e_update_rate env) = Returned period"
    using assms(1) by (cases "control_period (e_update_rate env)") (simp_all add: start_runtime_def)
  show ?thesis
    using assms period
    by (cases "e_runtime_create env (cp_name (c_params c)) period shm impl")
       (auto simp: start_runtime_def Let_def dest!: fail_init_keeps split: if_split_asm)
qed

lemma create_module_run:
  assumes "create_module env shm c = Returned (r, c')" and "c_runtime c = None" and "c_runtime c' = Some rt"
  shows "r = (if ok (e_runtime_run env (rt_id rt) (e_has_realtime_kernel env)
      (map ucast (cp_cpu_affinity (c_params c)))) then SUCCESS else ERROR)"
  using assms start_runtime_run [of env shm _ "c\<lparr>c_clock := Some _\<rparr>" r c' rt]
  by (auto simp: create_module_def Let_def dest!: fail_init_keeps split: if_split_asm sum.split_asm)

lemma on_configure_run:
  assumes "on_configure env c = Returned (r, c')" and "c_runtime c = None" and "c_runtime c' = Some rt"
  shows "r = (if ok (e_runtime_run env (rt_id rt) (e_has_realtime_kernel env)
      (map ucast (cp_cpu_affinity (c_params c)))) then SUCCESS else ERROR)"
  using assms create_module_run [of env _ "c\<lparr>c_init_error := None, c_publisher := True, c_timer := True\<rparr>" r c' rt]
  by (auto simp: on_configure_def Let_def dest!: fail_init_keeps split: if_split_asm sum.split_asm)

text \<open>A library that starts every runtime: what would have happened had \<^verbatim>\<open>Run\<close> not failed.\<close>

definition willing_to_run :: "controller_env \<Rightarrow> controller_env" where
  "willing_to_run env = env\<lparr>e_runtime_run := \<lambda>r kernel affinity. OkStatus\<rparr>"

lemma fail_init_fails: "fail_init s c \<noteq> Returned (SUCCESS, c')"
  by (simp add: fail_init_def)

lemma start_runtime_created:
  assumes "start_runtime env shm impl c = Returned (r, c')" and "c_runtime c = None"
  shows "c_runtime c' \<noteq> None \<longleftrightarrow> (\<exists>c2. start_runtime (willing_to_run env) shm impl c = Returned (SUCCESS, c2))"
proof -
  obtain period where period: "control_period (e_update_rate env) = Returned period"
    using assms(1) by (cases "control_period (e_update_rate env)") (simp_all add: start_runtime_def)
  show ?thesis
    using assms period
    by (cases "e_runtime_create env (cp_name (c_params c)) period shm impl")
       (auto simp: start_runtime_def willing_to_run_def Let_def fail_init_fails dest!: fail_init_keeps split: if_split_asm)
qed

lemma create_module_created:
  assumes "create_module env shm c = Returned (r, c')" and "c_runtime c = None"
  shows "c_runtime c' \<noteq> None \<longleftrightarrow> (\<exists>c2. create_module (willing_to_run env) shm c = Returned (SUCCESS, c2))"
  using assms start_runtime_created [of env shm _ "c\<lparr>c_clock := Some _\<rparr>" r c']
  by (auto simp: create_module_def willing_to_run_def Let_def fail_init_fails dest!: fail_init_keeps
      split: if_split_asm sum.split_asm)

lemma on_configure_created:
  assumes "on_configure env c = Returned (r, c')" and "c_runtime c = None"
  shows "c_runtime c' \<noteq> None \<longleftrightarrow> (\<exists>c2. on_configure (willing_to_run env) c = Returned (SUCCESS, c2))"
  using assms create_module_created [of env _ "c\<lparr>c_init_error := None, c_publisher := True, c_timer := True\<rparr>" r c']
  by (auto simp: on_configure_def willing_to_run_def Let_def fail_init_fails dest!: fail_init_keeps
      split: if_split_asm sum.split_asm)

text \<open>
  C39: an error while starting the runtime is recorded but never shown. Let \<^verbatim>\<open>on_configure\<close> be called
  where it would succeed if only \<^verbatim>\<open>Run\<close> did. Then a runtime exists afterwards, and \<^verbatim>\<open>on_configure\<close> fails
  exactly when starting that runtime fails; it then records \<open>INIT_FAILED\<close> with a text, but the runtime
  stays in place, and what is published from then on is that runtime's state, whatever the recorded error
  is. The controller is finalized by then, so no later handler changes this.
\<close>

theorem run_failure_hidden:
  assumes "reachable rate (Unconfigured, c)" and "on_configure env c = Returned (r, c')"
    and "on_configure (willing_to_run env) c = Returned (SUCCESS, c2)"
  shows "\<exists>rt. c_runtime c' = Some rt
    \<and> (r = ERROR \<longleftrightarrow> \<not> ok (e_runtime_run env (rt_id rt) (e_has_realtime_kernel env)
        (map ucast (cp_cpu_affinity (c_params c)))))
    \<and> (r = ERROR \<longrightarrow> error_recorded c')
    \<and> (\<forall>env' e. publish_current_hwm_state env' (c'\<lparr>c_init_error := e\<rparr>) =
         (case e_runtime_state env' (rt_id rt) of
            Inl s \<Rightarrow> None
          | Inr (code, msg) \<Rightarrow> Some \<lparr>hs_code = code, hs_message =
              memcpy (replicate hwm_message_size 0) msg (min hwm_message_size (length msg))\<rparr>))
    \<and> (\<forall>s. \<not> lifecycle_step rate (Finalized, c') s)"
proof -
  have none: "c_runtime c = None" using reachable_inv [OF assms(1)] by simp
  obtain rt where rt: "c_runtime c' = Some rt"
    using on_configure_created [OF assms(2) none] assms(3) by auto
  have "r = SUCCESS \<or> r = ERROR \<and> error_recorded c'"
    using on_configure_result [of env c] assms(2) by (auto simp: configure_result_def)
  then show ?thesis
    using on_configure_run [OF assms(2) none rt] rt
    by (auto simp: publish_current_hwm_state_def default_hwm_state_def split: sum.split)
qed

theorem run_failure_hidden_witness:
  "\<exists>rt. c_runtime (example_configured False) = Some rt \<and> error_recorded (example_configured False)
     \<and> publish_current_hwm_state (example_controller_env False) (example_configured False) =
         Some \<lparr>hs_code = 1, hs_message = [72, 105] @ replicate 254 0\<rparr>"
proof -
  have run: "on_configure (example_controller_env False) example_initialized = Returned (ERROR, example_configured False)"
    using example_outcome_eq [of False] by (simp add: example_outcome_def)
  have none: "c_runtime example_initialized = None"
    using reachable_inv [OF example_initialized_reachable] by simp
  obtain c2 where willing: "on_configure (willing_to_run (example_controller_env False)) example_initialized
      = Returned (SUCCESS, c2)"
    using on_configure_created [OF run none] example_configured_runtime(1) [of False] by auto
  obtain rt where rt: "c_runtime (example_configured False) = Some rt" "error_recorded (example_configured False)"
    and shown: "\<forall>env' e. publish_current_hwm_state env' ((example_configured False)\<lparr>c_init_error := e\<rparr>) =
         (case e_runtime_state env' (rt_id rt) of
            Inl s \<Rightarrow> None
          | Inr (code, msg) \<Rightarrow> Some \<lparr>hs_code = code, hs_message =
              memcpy (replicate hwm_message_size 0) msg (min hwm_message_size (length msg))\<rparr>)"
    using run_failure_hidden [OF example_initialized_reachable run willing] by blast
  have "publish_current_hwm_state (example_controller_env False) (example_configured False) =
      Some \<lparr>hs_code = 1, hs_message = [72, 105] @ replicate 254 0\<rparr>"
    using shown [rule_format, of "example_controller_env False" "c_init_error (example_configured False)"]
    by (simp add: example_controller_env_def memcpy_def hwm_message_size_def)
  then show ?thesis using rt by blast
qed

end
