(* ===== verification/Publication_Timer.thy ===== *)
theory Publication_Timer
  imports Controller_Lifecycle
begin

text \<open>
  The timer callback \<^verbatim>\<open>PublishCurrentHwmState\<close> running beside the lifecycle handlers. Both take
  several steps: the callback tests \<^verbatim>\<open>hwm_runtime_\<close> and then uses the pointer; a handler assigns one
  member after the other. No mutex covers the pointers (\<^verbatim>\<open>init_error_state_mutex_\<close> covers only the
  recorded error), so any step of the one may come between two of the other, and cancelling a timer does
  not stop a callback that has started.
\<close>

section \<open>The callback in steps\<close>




section \<open>The handlers in steps\<close>








section \<open>Timer and lifecycle together\<close>







section \<open>The invariant\<close>













section \<open>Properties\<close>



end
