(* ===== verification/Destruction.thy ===== *)
theory Destruction
  imports Controller_Lifecycle
begin

text \<open>
  The destructors of the controller and of the hardware module, member by member, with the callbacks
  that use those members. C++ destroys members in the reverse order of their declaration; a callback
  can start as long as the member that registers it, the timer or the subscription, exists and the node
  is spun. What is stated is therefore what happens when the callback runs between two of these steps.
\<close>

section \<open>Members and the order of their declaration\<close>

datatype controller_member = CM_logger | CM_clock | CM_hwm_runtime | CM_param_listener | CM_params
  | CM_hwm_state_publisher | CM_publish_hwm_state_timer | CM_init_error_state_mutex | CM_init_error_state

datatype hwm_member = HM_params | HM_joint_position_state | HM_joint_velocity_state
  | HM_joint_position_command | HM_operational_status_subscription | HM_latest_operational_status
  | HM_clear_faults_client | HM_switch_controller_client | HM_set_hw_state_client

definition controller_members :: "controller_member list" where
  "controller_members = [CM_logger, CM_clock, CM_hwm_runtime, CM_param_listener, CM_params,
     CM_hwm_state_publisher, CM_publish_hwm_state_timer, CM_init_error_state_mutex, CM_init_error_state]"

definition hwm_members :: "hwm_member list" where
  "hwm_members = [HM_params, HM_joint_position_state, HM_joint_velocity_state,
     HM_joint_position_command, HM_operational_status_subscription, HM_latest_operational_status,
     HM_clear_faults_client, HM_switch_controller_client, HM_set_hw_state_client]"

text \<open>Which members still exist when \<open>k\<close> of them have been destroyed.\<close>

definition alive :: "'m list \<Rightarrow> nat \<Rightarrow> 'm set" where
  "alive members k = set (take (length members - k) members)"

locale declared =
  fixes members :: "'m list"
  assumes declared_once: "distinct members"
begin

lemma alive_nth:
  assumes "i < length members"
  shows "members ! i \<in> alive members k \<longleftrightarrow> i + k < length members"
proof
  assume "members ! i \<in> alive members k"
  then obtain j where "j < length members - k" "members ! j = members ! i"
    by (auto simp: alive_def in_set_conv_nth)
  with assms declared_once show "i + k < length members" by (simp add: nth_eq_iff_index_eq)
next
  assume "i + k < length members"
  with assms show "members ! i \<in> alive members k"
    by (auto simp: alive_def in_set_conv_nth intro!: exI [of _ i])
qed

text \<open>Of two members, the one declared first is destroyed last.\<close>

lemma outlives:
  assumes "i \<le> j" and "j < length members" and "members ! j \<in> alive members k"
  shows "members ! i \<in> alive members k"
  using assms alive_nth [of i k] alive_nth [of j k] by simp

end

interpretation controller_order: declared controller_members
  by unfold_locales (simp add: controller_members_def)

interpretation hwm_order: declared hwm_members
  by unfold_locales (simp add: hwm_members_def)

lemma clock_and_logger_outlive:
  assumes "CM_hwm_runtime \<in> alive controller_members k"
  shows "CM_clock \<in> alive controller_members k" "CM_logger \<in> alive controller_members k"
  using assms controller_order.outlives [of 1 2 k] controller_order.outlives [of 0 2 k]
  by (simp_all add: controller_members_def)

lemma controller_alive:
  "CM_init_error_state \<in> alive controller_members k \<longleftrightarrow> k < 1"
  "CM_init_error_state_mutex \<in> alive controller_members k \<longleftrightarrow> k < 2"
  "CM_publish_hwm_state_timer \<in> alive controller_members k \<longleftrightarrow> k < 3"
  "CM_hwm_state_publisher \<in> alive controller_members k \<longleftrightarrow> k < 4"
  "CM_hwm_runtime \<in> alive controller_members k \<longleftrightarrow> k < 7"
  using controller_order.alive_nth [of 8 k] controller_order.alive_nth [of 7 k]
    controller_order.alive_nth [of 6 k] controller_order.alive_nth [of 5 k] controller_order.alive_nth [of 2 k]
  by (simp_all add: controller_members_def) linarith+

lemma hwm_alive:
  "HM_latest_operational_status \<in> alive hwm_members k \<longleftrightarrow> k < 4"
  "HM_operational_status_subscription \<in> alive hwm_members k \<longleftrightarrow> k < 5"
  using hwm_order.alive_nth [of 5 k] hwm_order.alive_nth [of 4 k]
  by (simp_all add: hwm_members_def)

section \<open>The controller and the callbacks while members are destroyed\<close>

text \<open>
  The controller when \<open>k\<close> members have been destroyed, the parameters aside: an owning pointer that has
  been destroyed owns nothing any more.
\<close>

definition destroyed :: "nat \<Rightarrow> controller \<Rightarrow> controller" where
  "destroyed k c =
    (let exists = (\<lambda>m. m \<in> alive controller_members k) in
     c\<lparr>c_clock := (if exists CM_clock then c_clock c else None),
       c_runtime := (if exists CM_hwm_runtime then c_runtime c else None),
       c_publisher := (c_publisher c \<and> exists CM_hwm_state_publisher),
       c_timer := (c_timer c \<and> exists CM_publish_hwm_state_timer),
       c_init_error := (if exists CM_init_error_state then c_init_error c else None)\<rparr>)"

text \<open>
  \<^verbatim>\<open>PublishCurrentHwmState\<close> as the timer starts it: it reads the runtime pointer, locks the
  mutex and reads the recorded error where that pointer is null, and publishes what it has. \<open>None\<close>
  also stands for a timer that is gone and starts nothing.
\<close>

definition timer_during_destruction ::
  "controller_env \<Rightarrow> nat \<Rightarrow> controller \<Rightarrow> hardware_module_state option outcome" where
  "timer_during_destruction env k c =
    (let exists = (\<lambda>m. m \<in> alive controller_members k);
         publish = (\<lambda>m. if m = None \<or> exists CM_hwm_state_publisher then Returned m else Undefined_Behaviour) in
     if \<not> c_timer (destroyed k c) then Returned None
     else if \<not> exists CM_hwm_runtime then Undefined_Behaviour
     else if c_runtime c = None \<and> \<not> (exists CM_init_error_state_mutex \<and> exists CM_init_error_state)
       then Undefined_Behaviour
     else publish (publish_current_hwm_state env c))"

text \<open>The subscription's callback, which goes to the module through a plain pointer.\<close>

definition status_during_destruction :: "nat \<Rightarrow> operational_status \<Rightarrow> hwm \<Rightarrow> hwm outcome" where
  "status_during_destruction k msg h =
    (let exists = (\<lambda>m. m \<in> alive hwm_members k) in
     if operational_status_subscription h = None \<or> \<not> exists HM_operational_status_subscription
     then Returned h
     else if \<not> exists HM_latest_operational_status then Undefined_Behaviour
     else Returned (on_operational_status msg h))"

lemma timer_during_destruction_eq:
  "timer_during_destruction env k c =
    (if c_timer c \<and> k < 3
     then if c_runtime c = None \<and> 0 < k then Undefined_Behaviour
          else Returned (publish_current_hwm_state env c)
     else Returned None)"
  by (auto simp: timer_during_destruction_def destroyed_def Let_def controller_alive)

lemma status_during_destruction_eq:
  "status_during_destruction k msg h =
    (if operational_status_subscription h \<noteq> None \<and> k < 5
     then if k = 4 then Undefined_Behaviour else Returned (on_operational_status msg h)
     else Returned h)"
  by (auto simp: status_during_destruction_def Let_def hwm_alive)

section \<open>Which controllers have a timer but no runtime\<close>

fun timer_inv :: "lifecycle \<times> controller \<Rightarrow> bool" where
  "timer_inv (Unconfigured, c) \<longleftrightarrow> \<not> c_timer c"
| "timer_inv (Inactive, c) \<longleftrightarrow> c_runtime c \<noteq> None"
| "timer_inv (Active, c) \<longleftrightarrow> c_runtime c \<noteq> None"
| "timer_inv (Finalized, c) \<longleftrightarrow> \<not> c_timer c \<or> c_runtime c \<noteq> None \<or> error_recorded c"

lemma timer_inv_step:
  assumes "lifecycle_step rate s s'" and "timer_inv s"
  shows "timer_inv s'"
  using assms
proof (induction rule: lifecycle_step.induct)
  case (configure_ok env c c')
  then show ?case
    using on_configure_configured by (fastforce simp: configured_def)
next
  case (configure_error env c c')
  then show ?case
    using on_configure_result [of env c] by (simp add: configure_result_def)
next
  case (shut_down l c)
  then show ?case by (cases l) auto
qed (auto simp: on_cleanup_def Let_def split: if_split_asm option.split_asm)

lemma reachable_timer_inv: "reachable rate s \<Longrightarrow> timer_inv s"
proof (induction rule: reachable.induct)
  case (initialized env ps c)
  then show ?case by (auto simp: on_init_def new_controller_def)
next
  case (step s s')
  then show ?case by (blast intro: timer_inv_step)
qed

section \<open>Properties\<close>

text \<open>
  C28: the runtime never outlives what it points to, not even in the controller's destructor. In every
  reachable state, and after any number of members have been destroyed, a runtime that still exists has
  a module whose clock is the one the controller still owns, and the logger exists too: the order that
  the comment in the header relies on.
\<close>

theorem clock_outlives_runtime_always:
  assumes "reachable rate (l, c)" and "c_runtime (destroyed k c) = Some rt"
  shows "c_clock (destroyed k c) \<noteq> None \<and> hp_clock (h_params (rt_hwm rt)) = c_clock (destroyed k c)
    \<and> CM_logger \<in> alive controller_members k"
proof -
  have "clock_owned c" using assms(1) by (rule reachable_clock_owned)
  moreover have "CM_hwm_runtime \<in> alive controller_members k" and "c_runtime c = Some rt"
    using assms(2) by (auto simp: destroyed_def Let_def split: if_split_asm)
  ultimately show ?thesis
    using clock_and_logger_outlive by (simp add: clock_owned_def destroyed_def Let_def)
qed

theorem clock_outlives_runtime_always_witness:
  "\<exists>rt. c_runtime (destroyed 6 (example_configured True)) = Some rt \<and> hp_clock (h_params (rt_hwm rt)) = Some 2"
proof -
  have "c_runtime (destroyed 6 (example_configured True)) = c_runtime (example_configured True)"
    by (simp add: destroyed_def Let_def controller_alive)
  then obtain rt where rt: "c_runtime (destroyed 6 (example_configured True)) = Some rt"
    using example_configured_runtime(1) by auto
  with clock_outlives_runtime_always [OF example_configured_reachable(1) rt] show ?thesis
    by (auto simp: destroyed_def Let_def example_configured_runtime(2) split: if_split_asm)
qed

text \<open>
  C30: callbacks that start while members are destroyed. In a reachable state the timer callback is
  undefined exactly when the controller was finalized by a failed configuration that left a recorded error,
  a timer and no runtime, and the error or its mutex has been destroyed but not the timer, which is
  declared before both; otherwise it publishes what it always does, or nothing once the timer is
  gone. The status callback is undefined exactly when the module's status box has been destroyed but
  not the subscription declared before it; otherwise the message is stored, or the subscription is gone.
\<close>

theorem callbacks_race_destructors:
  assumes "reachable rate (l, c)"
  shows "timer_during_destruction env k c =
      (if c_timer c \<and> k \<in> {1, 2} \<and> c_runtime c = None \<and> l = Finalized \<and> error_recorded c
       then Undefined_Behaviour
       else Returned (if c_timer c \<and> k < 3 then publish_current_hwm_state env c else None))
    \<and> status_during_destruction k msg h =
      (if operational_status_subscription h \<noteq> None \<and> k = 4 then Undefined_Behaviour
       else Returned (if operational_status_subscription h \<noteq> None \<and> k < 4 then on_operational_status msg h else h))"
proof -
  have "l = Finalized \<and> error_recorded c" if "c_timer c" "c_runtime c = None"
    using reachable_timer_inv [OF assms] that by (cases l) auto
  moreover have "k = 1 \<or> k = 2 \<longleftrightarrow> 0 < k \<and> k < 3" by linarith
  ultimately show ?thesis
    by (auto simp: timer_during_destruction_eq status_during_destruction_eq)
qed

text \<open>The outside of a configuration that fails before there is a runtime.\<close>

definition failing_clock_env :: controller_env where
  "failing_clock_env = (example_controller_env True)\<lparr>e_clock_create := \<lambda>s. Inl (mk_status kInternal ''no clock'')\<rparr>"

theorem callbacks_race_destructors_witness:
  "\<exists>c. reachable 500 (Finalized, c) \<and> timer_during_destruction failing_clock_env 1 c = Undefined_Behaviour
     \<and> status_during_destruction 4 (mk_os FAULTED []) example_hwm = Undefined_Behaviour"
proof -
  obtain c where run: "on_configure failing_clock_env example_initialized = Returned (ERROR, c)"
    and none: "c_runtime c = None"
    by (simp add: on_configure_def create_module_def frequency_mismatch_def fail_init_def Let_def
        failing_clock_env_def log_and_save_init_error_def example_controller_simps)
  have fin: "reachable 500 (Finalized, c)"
    using run by (intro reachable.step [OF example_initialized_reachable] configure_error [of failing_clock_env])
      (simp_all add: failing_clock_env_def example_controller_env_def)
  have "c_timer c \<and> error_recorded c"
    using on_configure_result [of failing_clock_env example_initialized] run by (simp add: configure_result_def)
  with callbacks_race_destructors [OF fin, of failing_clock_env 1] callbacks_race_destructors [OF fin, of _ 4]
  show ?thesis using fin none by (intro exI [of _ c]) (simp add: example_hwm_sel(5))
qed

end
