(* ===== verification/Vendor_Node.thy ===== *)
theory Vendor_Node
  imports Service_Calls
begin

text \<open>
  What the three vendor nodes (UR, FANUC, KHI) share: the parameters and endpoints a constructor
  declares, the process and executor a node runs in, the guarded status and its publication, the
  contract every node keeps towards the subscribers of \<^verbatim>\<open>operational_status\<close>, and what a
  subscriber that keeps the latest message may conclude from it.
\<close>

section \<open>Declaring parameters and endpoints\<close>

text \<open>
  \<^verbatim>\<open>declare_parameter\<close> with a range throws (\<open>None\<close>) or returns the value to use.
  \<open>na_timer_period\<close> is the conversion of a rate in Hz to a period in nanoseconds, floating-point
  arithmetic the development does not model; \<open>na_service_name\<close> resolves the name a client was
  created with to what \<^verbatim>\<open>get_service_name\<close> returns.
\<close>

record node_api =
  na_declare_double :: "string \<Rightarrow> double \<Rightarrow> double \<times> double \<Rightarrow> double option"
  na_declare_int :: "string \<Rightarrow> i64 \<Rightarrow> i64 \<times> i64 \<Rightarrow> i64 option"
  na_declare_string :: "string \<Rightarrow> string \<Rightarrow> string option"
  na_timer_period :: "double \<Rightarrow> i64"
  na_service_name :: "string \<Rightarrow> string"

text \<open>Documented behaviour of a declared integer range: the value lies in it.\<close>

definition honours_ranges :: "node_api \<Rightarrow> bool" where
  "honours_ranges api \<longleftrightarrow> (\<forall>name d lo hi v. na_declare_int api name d (lo, hi) = Some v \<longrightarrow>
     sint lo \<le> sint v \<and> sint v \<le> sint hi)"

text \<open>The \<^verbatim>\<open>double\<close> literals 0.1, 10.0 and 1000.0.\<close>

definition double_0_1 :: double where "double_0_1 = 0x3FB999999999999A"
definition double_10 :: double where "double_10 = 0x4024000000000000"
definition double_1000 :: double where "double_1000 = 0x408F400000000000"

datatype group_type = MutuallyExclusive | Reentrant

record callback_group =
  cg_id :: nat
  cg_type :: group_type

datatype endpoint =
  Subscription string callback_group
| Publisher string
| Wall_Timer i64 callback_group
| Service string callback_group
| Client string callback_group
| Action_Client string callback_group

definition topic_cb_group :: callback_group where
  "topic_cb_group = \<lparr>cg_id = 0, cg_type = MutuallyExclusive\<rparr>"

definition clear_faults_service_cb_group :: callback_group where
  "clear_faults_service_cb_group = \<lparr>cg_id = 1, cg_type = MutuallyExclusive\<rparr>"

definition client_cb_group :: callback_group where
  "client_cb_group = \<lparr>cg_id = 2, cg_type = Reentrant\<rparr>"

text \<open>The group whose callbacks an endpoint runs.\<close>

fun endpoint_group :: "endpoint \<Rightarrow> callback_group option" where
  "endpoint_group (Subscription _ g) = Some g"
| "endpoint_group (Publisher _) = None"
| "endpoint_group (Wall_Timer _ g) = Some g"
| "endpoint_group (Service _ g) = Some g"
| "endpoint_group (Client _ g) = Some g"
| "endpoint_group (Action_Client _ g) = Some g"

text \<open>Whether the executor may run a callback of \<open>g\<close> while one of \<open>h\<close> is running.\<close>

definition may_overlap :: "callback_group \<Rightarrow> callback_group \<Rightarrow> bool" where
  "may_overlap g h \<longleftrightarrow> cg_id g \<noteq> cg_id h \<or> cg_type g = Reentrant"

fun is_client :: "endpoint \<Rightarrow> bool" where
  "is_client (Client _ _) = True"
| "is_client (Action_Client _ _) = True"
| "is_client _ = False"

fun reads_status :: "endpoint \<Rightarrow> bool" where
  "reads_status (Subscription _ _) = True"
| "reads_status (Wall_Timer _ _) = True"
| "reads_status _ = False"

text \<open>
  A wiring under which the blocking \<^verbatim>\<open>clear_faults\<close> handler cannot wait for itself: the
  replies it waits for, and the status callbacks, may run meanwhile; the status callbacks
  never run in parallel with one another.
\<close>

definition sound_wiring :: "endpoint list \<Rightarrow> bool" where
  "sound_wiring es \<longleftrightarrow> Publisher ''operational_status'' \<in> set es
     \<and> (\<exists>g. Service ''clear_faults'' g \<in> set es
        \<and> (\<forall>e \<in> set es. \<forall>h. endpoint_group e = Some h \<longrightarrow>
             ((is_client e \<or> reads_status e) \<longrightarrow> may_overlap h g)))
     \<and> (\<forall>e \<in> set es. \<forall>e' \<in> set es. \<forall>h h'. reads_status e \<and> reads_status e'
          \<and> endpoint_group e = Some h \<and> endpoint_group e' = Some h' \<longrightarrow> \<not> may_overlap h h')"

lemma sound_wiringI:
  assumes "Publisher ''operational_status'' \<in> set es"
    and "Service ''clear_faults'' clear_faults_service_cb_group \<in> set es"
    and "list_all (\<lambda>e. is_client e \<longrightarrow> endpoint_group e = Some client_cb_group) es"
    and "list_all (\<lambda>e. reads_status e \<longrightarrow> endpoint_group e = Some topic_cb_group) es"
  shows "sound_wiring es"
  unfolding sound_wiring_def
proof (intro conjI exI [of _ clear_faults_service_cb_group] ballI allI impI)
  fix e h
  assume "e \<in> set es" "endpoint_group e = Some h" "is_client e \<or> reads_status e"
  then have "h = client_cb_group \<or> h = topic_cb_group"
    using assms(3,4) by (auto simp: list_all_iff)
  then show "may_overlap h clear_faults_service_cb_group"
    by (auto simp: may_overlap_def client_cb_group_def topic_cb_group_def clear_faults_service_cb_group_def)
next
  fix e e' h h'
  assume "e \<in> set es" "e' \<in> set es" "reads_status e \<and> reads_status e'
    \<and> endpoint_group e = Some h \<and> endpoint_group e' = Some h'"
  then have "h = topic_cb_group" "h' = topic_cb_group"
    using assms(4) by (auto simp: list_all_iff)
  then show "\<not> may_overlap h h'" by (simp add: may_overlap_def topic_cb_group_def)
qed (use assms(1,2) in simp_all)

section \<open>The process of a node\<close>

text \<open>
  Each executable creates its node, adds it to an executor, spins until shutdown and returns
  \<open>EXIT_SUCCESS\<close>. \<open>None\<close> is an exception out of the constructor.
\<close>

datatype executor = SingleThreadedExecutor | MultiThreadedExecutor

record 'n process =
  pr_executor :: executor
  pr_nodes :: "'n list"
  pr_exit :: int

definition EXIT_SUCCESS :: int where "EXIT_SUCCESS = 0"

text \<open>
  How many callbacks an executor runs at once is the executor's; documented is one for the
  single-threaded and at least two for a default multi-threaded executor.
\<close>

definition documented_threads :: "(executor \<Rightarrow> nat) \<Rightarrow> bool" where
  "documented_threads threads \<longleftrightarrow> threads SingleThreadedExecutor = 1 \<and> 2 \<le> threads MultiThreadedExecutor"

text \<open>Whether a callback of group \<open>g\<close> may start while callbacks of \<open>running\<close> have not returned.\<close>

definition may_start :: "nat \<Rightarrow> callback_group list \<Rightarrow> callback_group \<Rightarrow> bool" where
  "may_start threads running g \<longleftrightarrow> length running < threads \<and> list_all (may_overlap g) running"

text \<open>
  While the \<^verbatim>\<open>clear_faults\<close> handler blocks, the reply of every client and every status
  callback may start.
\<close>

definition stays_responsive :: "(executor \<Rightarrow> nat) \<Rightarrow> executor \<Rightarrow> endpoint list \<Rightarrow> bool" where
  "stays_responsive threads ex es \<longleftrightarrow> (\<exists>g. Service ''clear_faults'' g \<in> set es
     \<and> (\<forall>e \<in> set es. \<forall>h. endpoint_group e = Some h \<longrightarrow> is_client e \<or> reads_status e \<longrightarrow>
          may_start (threads ex) [g] h))"

lemma responsive_multi:
  assumes "documented_threads threads" and "sound_wiring es"
  shows "stays_responsive threads MultiThreadedExecutor es"
proof -
  obtain g where g: "Service ''clear_faults'' g \<in> set es"
      "\<And>e h. e \<in> set es \<Longrightarrow> endpoint_group e = Some h \<Longrightarrow> is_client e \<or> reads_status e \<Longrightarrow> may_overlap h g"
    using assms(2) unfolding sound_wiring_def by blast
  have "1 < threads MultiThreadedExecutor" using assms(1) by (simp add: documented_threads_def)
  then show ?thesis
    unfolding stays_responsive_def may_start_def using g(2) by (intro exI [of _ g] conjI g(1)) auto
qed

lemma client_has_group: "is_client e \<Longrightarrow> \<exists>h. endpoint_group e = Some h"
  by (cases e) simp_all

lemma responsive_single:
  assumes "documented_threads threads" and "list_ex is_client es"
  shows "\<not> stays_responsive threads SingleThreadedExecutor es"
proof -
  obtain e h where "e \<in> set es" "is_client e" "endpoint_group e = Some h"
    using assms(2) client_has_group unfolding list_ex_iff by blast
  moreover have "threads SingleThreadedExecutor = 1" using assms(1) by (simp add: documented_threads_def)
  ultimately show ?thesis unfolding stays_responsive_def may_start_def by auto
qed

section \<open>The guarded status\<close>

record 'q status_node = "('q, operational_status) world" +
  node_status :: operational_status
  node_endpoints :: "endpoint list"
  service_timeout :: i64

text \<open>A section under \<^verbatim>\<open>MutexLock\<close>.\<close>

definition locked :: "('n \<Rightarrow> 'a \<times> 'n) \<Rightarrow> ('n, 'a) state" where
  "locked f = State f"

lemma run_locked [io_simps]: "run_state (locked f) n = f n"
  by (simp add: locked_def)

definition operational_status_topic :: string where
  "operational_status_topic = ''operational_status''"

text \<open>A \<^verbatim>\<open>std::chrono::seconds\<close> timeout in milliseconds; a negative one does not wait.\<close>

definition seconds :: "i64 \<Rightarrow> nat" where
  "seconds t = 1000 * nat (sint t)"

lemma seconds_mono: "sint t \<le> sint u \<Longrightarrow> seconds t \<le> seconds u"
  by (simp add: seconds_def)

section \<open>The contract of a status node\<close>

text \<open>
  One step is one callback. What it publishes is the status it leaves behind; a step that
  publishes nothing leaves the status alone.
\<close>

locale status_publisher =
  fixes step :: "'e \<Rightarrow> 'n \<Rightarrow> 'n"
    and cached :: "'n \<Rightarrow> operational_status"
    and sent :: "'n \<Rightarrow> operational_status list"
  assumes publishes: "\<exists>k. sent (step e n) = sent n @ replicate k (cached (step e n))
      \<and> (k = 0 \<longrightarrow> cached (step e n) = cached n)"
    and keeps_wf: "wf_status (cached n) \<Longrightarrow> wf_status (cached (step e n))"
begin

definition current :: "'n \<Rightarrow> bool" where
  "current n \<longleftrightarrow> sent n = [] \<or> last (sent n) = cached n"

lemma step_current: "current n \<Longrightarrow> current (step e n)"
proof -
  assume c: "current n"
  obtain k where k: "sent (step e n) = sent n @ replicate k (cached (step e n))"
      "k = 0 \<longrightarrow> cached (step e n) = cached n"
    using publishes by blast
  show "current (step e n)"
    using c k by (cases k) (simp_all add: current_def replicate_append_same [symmetric])
qed

lemma run_current: "current n \<Longrightarrow> current (fold step es n)"
  by (induction es arbitrary: n) (simp_all add: step_current)

lemma run_wf: "wf_status (cached n) \<Longrightarrow> wf_status (cached (fold step es n))"
  by (induction es arbitrary: n) (simp_all add: keeps_wf)

lemma step_sent_wf:
  assumes "wf_status (cached n)" and "list_all wf_status (sent n)"
  shows "list_all wf_status (sent (step e n))"
proof -
  obtain k where "sent (step e n) = sent n @ replicate k (cached (step e n))"
    using publishes by blast
  then show ?thesis using assms keeps_wf [OF assms(1)] by (auto simp: list_all_iff)
qed

lemma run_sent_wf:
  "wf_status (cached n) \<Longrightarrow> list_all wf_status (sent n) \<Longrightarrow> list_all wf_status (sent (fold step es n))"
  by (induction es arbitrary: n) (simp_all add: keeps_wf step_sent_wf)

text \<open>What a subscriber of a fresh node may rely on.\<close>

lemma fresh_run:
  assumes "sent n = []" and "wf_status (cached n)"
  shows "list_all wf_status (sent (fold step es n))
    \<and> (sent (fold step es n) \<noteq> [] \<longrightarrow> last (sent (fold step es n)) = cached (fold step es n))"
proof -
  have "current (fold step es n)" using assms by (intro run_current) (simp add: current_def)
  then show ?thesis using assms run_sent_wf [of n es] by (auto simp: current_def)
qed

end

text \<open>
  A status node linked to a subscriber that keeps the latest message. The topic may drop messages,
  but it delivers the last one.
\<close>

locale status_link = status_publisher step cached sent
  for step :: "'e \<Rightarrow> 'n \<Rightarrow> 'n" and cached :: "'n \<Rightarrow> operational_status"
    and sent :: "'n \<Rightarrow> operational_status list" +
  fixes handle :: "operational_status \<Rightarrow> 'h \<Rightarrow> 'h"
    and latest :: "'h \<Rightarrow> operational_status"
  assumes handled: "latest (handle s h) = s"
begin

lemma latest_last: "ss \<noteq> [] \<Longrightarrow> latest (fold handle ss h) = last ss"
  by (cases ss rule: rev_cases) (simp_all add: handled)

lemma latest_is_cached:
  assumes "sent n = []" and "wf_status (cached n)"
    and "ss \<noteq> []" and "subseq ss (sent (fold step es n))" and "last ss = last (sent (fold step es n))"
  shows "latest (fold handle ss h) = cached (fold step es n) \<and> wf_status (cached (fold step es n))"
proof -
  have "sent (fold step es n) \<noteq> []" using assms(3,4) by auto
  then show ?thesis
    using fresh_run [OF assms(1,2), of es] run_wf [OF assms(2), of es] assms(3,5) by (simp add: latest_last)
qed

end

text \<open>The callbacks of a node: a driver message, the publish timer, a service request.\<close>

datatype ('m, 'e) node_event = Message 'm | Publish_Timer | Clear_Faults_Request 'e

fun last_message :: "('m, 'e) node_event list \<Rightarrow> 'm option \<Rightarrow> 'm option" where
  "last_message [] m = m"
| "last_message (Message x # es) m = last_message es (Some x)"
| "last_message (_ # es) m = last_message es m"

text \<open>An API for concrete runs: every parameter keeps its default.\<close>

definition default_api :: node_api where
  "default_api = \<lparr>na_declare_double = (\<lambda>name d r. Some d),
     na_declare_int = (\<lambda>name d r. if sint (fst r) \<le> sint d \<and> sint d \<le> sint (snd r) then Some d else None),
     na_declare_string = (\<lambda>name d. Some d), na_timer_period = (\<lambda>rate. 100000000),
     na_service_name = (\<lambda>name. name)\<rparr>"

lemma default_api_honours: "honours_ranges default_api"
  by (simp add: honours_ranges_def default_api_def)

section \<open>Statuses\<close>

text \<open>What a node reports as reply to \<^verbatim>\<open>clear_faults\<close>.\<close>

record trigger_response =
  tr_success :: bool
  tr_message :: string

text \<open>The joining loop of the nodes: separators only after a non-empty prefix.\<close>

fun join_loop :: "string \<Rightarrow> string list \<Rightarrow> string \<Rightarrow> string" where
  "join_loop sep [] acc = acc"
| "join_loop sep (x # xs) acc = join_loop sep xs ((if acc \<noteq> [] then acc @ sep else acc) @ x)"

text \<open>Joining as it is usually specified.\<close>

fun intercalate :: "string \<Rightarrow> string list \<Rightarrow> string" where
  "intercalate sep [] = []"
| "intercalate sep [x] = x"
| "intercalate sep (x # y # ys) = x @ sep @ intercalate sep (y # ys)"

lemma join_loop_started:
  "acc \<noteq> [] \<Longrightarrow> join_loop sep xs acc = intercalate sep (acc # xs)"
proof (induction xs arbitrary: acc)
  case (Cons x xs)
  then have "join_loop sep (x # xs) acc = intercalate sep ((acc @ sep @ x) # xs)" by simp
  also have "\<dots> = intercalate sep (acc # x # xs)" by (cases xs) simp_all
  finally show ?case .
qed simp

lemma join_loop_eq:
  "join_loop sep xs [] = intercalate sep (dropWhile (\<lambda>x. x = []) xs)"
  by (induction xs) (auto simp: join_loop_started)

lemma intercalate_empty: "intercalate sep (x # xs) = [] \<Longrightarrow> x = []"
  by (cases xs) auto

lemma join_loop_empty: "join_loop sep xs [] = [] \<longleftrightarrow> (\<forall>x \<in> set xs. x = [])"
proof (cases "dropWhile (\<lambda>x. x = []) xs")
  case Nil
  then have "\<forall>x \<in> set xs. x = []" by (simp add: dropWhile_eq_Nil_conv)
  then show ?thesis unfolding join_loop_eq Nil by simp
next
  case (Cons y ys)
  then have "y \<noteq> []" using hd_dropWhile [of "\<lambda>x. x = []" xs] by simp
  moreover have "y \<in> set xs"
    by (rule set_dropWhileD [where P = "\<lambda>x. x = []"]) (simp add: Cons)
  moreover have "intercalate sep (y # ys) \<noteq> []"
    using \<open>y \<noteq> []\<close> intercalate_empty by blast
  ultimately show ?thesis using Cons by (auto simp: join_loop_eq)
qed

end
