(* ===== verification/Ur_Node.thy ===== *)
theory Ur_Node
  imports Vendor_Node
begin

text \<open>
  \<^verbatim>\<open>UrOperationalStateNode\<close> (\<^verbatim>\<open>ur_operational_state_node.cpp\<close>): the translation of
  the driver's three status topics, the node's construction and callbacks, and the recovery through
  the dashboard and the robot state helper.
\<close>

section \<open>Translation\<close>

text \<open>
  The mode constants the code names. Their values are those of \<^verbatim>\<open>ur_dashboard_msgs\<close>, which is
  not part of the repository: parameters, of which the code relies on nothing but that they differ
  (equal labels of a \<^verbatim>\<open>switch\<close> would not compile).
\<close>

datatype safety_mode =
  NORMAL | REDUCED | PROTECTIVE_STOP | RECOVERY | SAFEGUARD_STOP | SYSTEM_EMERGENCY_STOP
| ROBOT_EMERGENCY_STOP | VIOLATION | FAULT | VALIDATE_JOINT_ID | UNDEFINED_SAFETY_MODE
| AUTOMATIC_MODE_SAFEGUARD_STOP | SYSTEM_THREE_POSITION_ENABLING_STOP

datatype robot_mode =
  NO_CONTROLLER | DISCONNECTED | CONFIRM_SAFETY | BOOTING | POWER_OFF | POWER_ON | IDLE
| BACKDRIVE | RUNNING | UPDATING_FIRMWARE

record ur_msgs =
  safety_value :: "safety_mode \<Rightarrow> u8"
  robot_value :: "robot_mode \<Rightarrow> i8"

definition distinct_labels :: "ur_msgs \<Rightarrow> bool" where
  "distinct_labels ms \<longleftrightarrow> inj (safety_value ms) \<and> inj (robot_value ms)"

record ur_robot_status =
  us_robot_mode :: "i8 option"
  us_safety_mode :: "u8 option"
  us_program_running :: "bool option"

definition ur_safety_message :: "ur_msgs \<Rightarrow> u8 \<Rightarrow> string" where
  "ur_safety_message ms m =
    (if m = safety_value ms PROTECTIVE_STOP
     then ''Robot in protective stop. Call clear_faults to unlock.''
     else if m = safety_value ms RECOVERY then ''Robot in safety recovery mode.''
     else if m = safety_value ms SAFEGUARD_STOP then ''Safeguard stop active.''
     else if m = safety_value ms SYSTEM_EMERGENCY_STOP then ''System emergency stop active.''
     else if m = safety_value ms ROBOT_EMERGENCY_STOP then ''Robot emergency stop active.''
     else if m = safety_value ms VIOLATION
     then ''Safety violation detected. Safety restart required.''
     else if m = safety_value ms FAULT then ''Safety fault detected. Safety restart required.''
     else if m = safety_value ms VALIDATE_JOINT_ID then ''Robot validating joint ID.''
     else if m = safety_value ms UNDEFINED_SAFETY_MODE then ''Undefined safety mode.''
     else if m = safety_value ms AUTOMATIC_MODE_SAFEGUARD_STOP
     then ''Automatic mode safeguard stop active.''
     else if m = safety_value ms SYSTEM_THREE_POSITION_ENABLING_STOP
     then ''System three-position enabling stop active.''
     else ''Unknown safety mode: '' @ dec_nat (unat m))"

definition ur_mode_status :: "ur_msgs \<Rightarrow> i8 \<Rightarrow> bool \<Rightarrow> operational_status" where
  "ur_mode_status ms m program_running =
    (if m = robot_value ms NO_CONTROLLER then mk_os FAULTED ''No controller connected to robot.''
     else if m = robot_value ms DISCONNECTED then mk_os FAULTED ''Robot is disconnected.''
     else if m = robot_value ms CONFIRM_SAFETY
     then mk_os FAULTED ''Robot requires safety confirmation.''
     else if m = robot_value ms BOOTING \<or> m = robot_value ms POWER_OFF \<or> m = robot_value ms POWER_ON
       \<or> m = robot_value ms IDLE \<or> m = robot_value ms BACKDRIVE
       \<or> m = robot_value ms UPDATING_FIRMWARE
     then mk_os DISABLED []
     else if m = robot_value ms RUNNING
     then (if program_running then mk_os ENABLED [] else mk_os DISABLED [])
     else mk_os FAULTED (''Unknown robot mode: '' @ dec_int (sint m)))"

definition ur_to_operational_status :: "ur_msgs \<Rightarrow> ur_robot_status \<Rightarrow> operational_status" where
  "ur_to_operational_status ms robot_status =
    (if us_safety_mode robot_status = None \<or> us_robot_mode robot_status = None
        \<or> us_program_running robot_status = None
     then mk_os UNKNOWN ''Waiting for robot status messages''
     else let safety_mode = the (us_safety_mode robot_status);
              robot_mode = the (us_robot_mode robot_status);
              program_running = the (us_program_running robot_status) in
       if safety_mode \<noteq> safety_value ms NORMAL \<and> safety_mode \<noteq> safety_value ms REDUCED
       then mk_os FAULTED (ur_safety_message ms safety_mode)
       else ur_mode_status ms robot_mode program_running)"

section \<open>The node\<close>

text \<open>\<open>Set_Mode_Goal\<close> carries the target mode, \<^verbatim>\<open>stop_program\<close> and \<^verbatim>\<open>play_program\<close>.\<close>

datatype ur_request = Trigger | Set_Mode_Goal i8 bool bool | Get_Result

datatype result_code = SUCCEEDED | Other_Result_Code int

record wrapped_result =
  wr_code :: result_code
  wr_result :: "reply option"

text \<open>Clients are known by the name of their service or action; \<open>None\<close> is a null pointer.\<close>

record ur_node = "ur_request status_node" +
  un_robot_status :: ur_robot_status
  action_timeout :: i64
  set_mode_action_client :: "string option"
  resend_robot_program_client :: "string option"
  unlock_protective_stop_client :: "string option"
  restart_safety_client :: "string option"
  close_safety_popup_client :: "string option"
  close_popup_client :: "string option"
  brake_release_client :: "string option"
  power_on_client :: "string option"
  connect_client :: "string option"

type_synonym ur_history = "(ur_request, operational_status) io_event list"

text \<open>
  The outside: trigger replies, the answer to a goal (a handle, or a rejection) and the result of the
  goal with a handle.
\<close>

record ur_env = "(ur_request, operational_status, reply) ros_env" +
  env_goal :: "ur_history \<Rightarrow> ur_request \<Rightarrow> (nat \<times> nat option) option"
  env_result :: "ur_history \<Rightarrow> nat \<Rightarrow> (nat \<times> wrapped_result) option"

definition goal_channel :: "ur_env \<Rightarrow> (ur_request, operational_status, nat option) ros_env" where
  "goal_channel env = \<lparr>env_wait = env_wait env, env_reply = (\<lambda>h s q. env_goal env h q)\<rparr>"

definition result_channel :: "ur_env \<Rightarrow> nat \<Rightarrow> (ur_request, operational_status, wrapped_result) ros_env" where
  "result_channel env handle =
     \<lparr>env_wait = env_wait env, env_reply = (\<lambda>h s q. env_result env h handle)\<rparr>"

definition ur_create :: "node_api \<Rightarrow> ur_node option" where
  "ur_create api = do {
     publish_rate_hz \<leftarrow> na_declare_double api ''publish_rate_hz'' double_10 (double_0_1, double_1000);
     service_timeout_sec \<leftarrow> na_declare_int api ''service_timeout_sec'' 5 (1, 300);
     action_timeout_sec \<leftarrow> na_declare_int api ''action_timeout_sec'' 15 (1, 300);
     Some \<lparr>trace = [],
       node_status = mk_os UNKNOWN ''Waiting for robot status messages'',
       node_endpoints =
         [Subscription ''io_and_status_controller/robot_mode'' topic_cb_group,
          Subscription ''io_and_status_controller/safety_mode'' topic_cb_group,
          Subscription ''io_and_status_controller/robot_program_running'' topic_cb_group,
          Publisher ''operational_status'',
          Wall_Timer (na_timer_period api publish_rate_hz) topic_cb_group,
          Service ''clear_faults'' clear_faults_service_cb_group,
          Action_Client ''ur_robot_state_helper/set_mode'' client_cb_group,
          Client ''io_and_status_controller/resend_robot_program'' client_cb_group,
          Client ''dashboard_client/unlock_protective_stop'' client_cb_group,
          Client ''dashboard_client/restart_safety'' client_cb_group,
          Client ''dashboard_client/close_safety_popup'' client_cb_group,
          Client ''dashboard_client/close_popup'' client_cb_group,
          Client ''dashboard_client/brake_release'' client_cb_group,
          Client ''dashboard_client/power_on'' client_cb_group,
          Client ''dashboard_client/connect'' client_cb_group],
       service_timeout = service_timeout_sec,
       un_robot_status = \<lparr>us_robot_mode = None, us_safety_mode = None, us_program_running = None\<rparr>,
       action_timeout = action_timeout_sec,
       set_mode_action_client = Some (na_service_name api ''ur_robot_state_helper/set_mode''),
       resend_robot_program_client =
         Some (na_service_name api ''io_and_status_controller/resend_robot_program''),
       unlock_protective_stop_client =
         Some (na_service_name api ''dashboard_client/unlock_protective_stop''),
       restart_safety_client = Some (na_service_name api ''dashboard_client/restart_safety''),
       close_safety_popup_client = Some (na_service_name api ''dashboard_client/close_safety_popup''),
       close_popup_client = Some (na_service_name api ''dashboard_client/close_popup''),
       brake_release_client = Some (na_service_name api ''dashboard_client/brake_release''),
       power_on_client = Some (na_service_name api ''dashboard_client/power_on''),
       connect_client = Some (na_service_name api ''dashboard_client/connect'')\<rparr> }"

definition ur_get_operational_status :: "ur_node \<Rightarrow> operational_status" where
  "ur_get_operational_status n = node_status n"

definition ur_robot_mode_callback :: "ur_msgs \<Rightarrow> i8 \<Rightarrow> (ur_node, unit) state" where
  "ur_robot_mode_callback ms mode = do {
     status_to_publish \<leftarrow> locked (\<lambda>n.
       let rs = (un_robot_status n)\<lparr>us_robot_mode := Some mode\<rparr>;
           s = ur_to_operational_status ms rs
       in (s, n\<lparr>un_robot_status := rs, node_status := s\<rparr>));
     publish operational_status_topic status_to_publish }"

definition ur_safety_mode_callback :: "ur_msgs \<Rightarrow> u8 \<Rightarrow> (ur_node, unit) state" where
  "ur_safety_mode_callback ms mode = do {
     status_to_publish \<leftarrow> locked (\<lambda>n.
       let rs = (un_robot_status n)\<lparr>us_safety_mode := Some mode\<rparr>;
           s = ur_to_operational_status ms rs
       in (s, n\<lparr>un_robot_status := rs, node_status := s\<rparr>));
     publish operational_status_topic status_to_publish }"

definition ur_program_running_callback :: "ur_msgs \<Rightarrow> bool \<Rightarrow> (ur_node, unit) state" where
  "ur_program_running_callback ms data = do {
     status_to_publish \<leftarrow> locked (\<lambda>n.
       let rs = (un_robot_status n)\<lparr>us_program_running := Some data\<rparr>;
           s = ur_to_operational_status ms rs
       in (s, n\<lparr>un_robot_status := rs, node_status := s\<rparr>));
     publish operational_status_topic status_to_publish }"

definition ur_publish_operational_status :: "(ur_node, unit) state" where
  "ur_publish_operational_status = do {
     status_to_publish \<leftarrow> locked (\<lambda>n. (node_status n, n));
     publish operational_status_topic status_to_publish }"

section \<open>Calls\<close>

definition ur_call_trigger_service ::
  "ur_env \<Rightarrow> string option \<Rightarrow> i64 \<Rightarrow> ((ur_request, operational_status, 'z) world_scheme, status) state" where
  "ur_call_trigger_service env client timeout =
    (case client of
       None \<Rightarrow> State_Monad.return (mk_status kInvalidArgument ''Service client is null'')
     | Some name \<Rightarrow> do {
         ready \<leftarrow> service_is_ready env name;
         there \<leftarrow> (if \<not> ready then wait_for_service env name 500 else State_Monad.return True);
         if \<not> there then State_Monad.return
           (mk_status kUnavailable (''Service '' @ quoted name @ '' is not available''))
         else do {
           answer \<leftarrow> send_and_wait env name Trigger (seconds timeout);
           (case answer of
              None \<Rightarrow> State_Monad.return (mk_status kDeadlineExceeded
                (''Service '' @ quoted name @ '' timed out after '' @ dec_int (sint timeout) @ '' s''))
            | Some response \<Rightarrow> State_Monad.return
                (if \<not> rp_success response then mk_status kInternal (rp_message response)
                 else OkStatus)) } })"

definition ur_judge_result :: "wrapped_result \<Rightarrow> status" where
  "ur_judge_result w =
    (if wr_code w \<noteq> SUCCEEDED \<or> wr_result w = None \<or> \<not> rp_success (the (wr_result w))
     then mk_status kInternal
       (if wr_result w \<noteq> None \<and> rp_message (the (wr_result w)) \<noteq> []
        then rp_message (the (wr_result w)) else ''SetMode action did not succeed'')
     else OkStatus)"

definition ur_call_set_mode_action ::
  "ur_env \<Rightarrow> string option \<Rightarrow> i8 \<Rightarrow> bool \<Rightarrow> bool \<Rightarrow> i64
     \<Rightarrow> ((ur_request, operational_status, 'z) world_scheme, status) state" where
  "ur_call_set_mode_action env client target_robot_mode stop_program play_program timeout =
    (case client of
       None \<Rightarrow> State_Monad.return
         (mk_status kFailedPrecondition ''SetMode action client is not initialized'')
     | Some name \<Rightarrow> do {
         ready \<leftarrow> service_is_ready env name;
         there \<leftarrow> (if \<not> ready then wait_for_service env name 1000 else State_Monad.return True);
         if \<not> there then State_Monad.return
           (mk_status kUnavailable ''SetMode action server is not available'')
         else do {
           goal_handle \<leftarrow> send_and_wait (goal_channel env) name
             (Set_Mode_Goal target_robot_mode stop_program play_program) 3000;
           (case goal_handle of
              None \<Rightarrow> State_Monad.return
                (mk_status kDeadlineExceeded ''Timeout sending goal to SetMode action server'')
            | Some None \<Rightarrow> State_Monad.return
                (mk_status kInternal ''SetMode goal was rejected by action server'')
            | Some (Some handle) \<Rightarrow> do {
                wrapped_result \<leftarrow> send_and_wait (result_channel env handle) name Get_Result
                  (seconds timeout);
                (case wrapped_result of
                   None \<Rightarrow> State_Monad.return
                     (mk_status kDeadlineExceeded ''Timeout waiting for SetMode action result'')
                 | Some w \<Rightarrow> State_Monad.return (ur_judge_result w)) }) } })"

section \<open>Clearing faults\<close>

definition ur_unlock_safety ::
  "ur_msgs \<Rightarrow> ur_env \<Rightarrow> ur_node \<Rightarrow> u8 \<Rightarrow> ((ur_request, operational_status, 'z) world_scheme, unit) state" where
  "ur_unlock_safety ms env n current_safety =
    (if current_safety = safety_value ms PROTECTIVE_STOP
     then do {
       _ \<leftarrow> ur_call_trigger_service env (unlock_protective_stop_client n) (service_timeout n);
       State_Monad.return () }
     else if current_safety = safety_value ms VIOLATION \<or> current_safety = safety_value ms FAULT
       \<or> current_safety = safety_value ms SAFEGUARD_STOP
       \<or> current_safety = safety_value ms AUTOMATIC_MODE_SAFEGUARD_STOP
       \<or> current_safety = safety_value ms SYSTEM_EMERGENCY_STOP
       \<or> current_safety = safety_value ms ROBOT_EMERGENCY_STOP
     then do {
       _ \<leftarrow> ur_call_trigger_service env (close_safety_popup_client n) (service_timeout n);
       _ \<leftarrow> ur_call_trigger_service env (restart_safety_client n) (service_timeout n);
       sleep_for 500 }
     else State_Monad.return ())"

definition ur_failure_message :: "status \<Rightarrow> status \<Rightarrow> string" where
  "ur_failure_message set_mode_status resend_status =
     ''Neither SetMode nor resend_robot_program were able to clear the fault.''
     @ (if st_message set_mode_status \<noteq> []
        then '' SetMode error: '' @ quoted (st_message set_mode_status) @ ''.'' else [])
     @ (if st_message resend_status \<noteq> []
        then '' resend_robot_program error: '' @ quoted (st_message resend_status) @ ''.'' else [])"

definition ur_clear_faults_steps :: "ur_msgs \<Rightarrow> ur_env \<Rightarrow> ur_node \<Rightarrow> (ur_node, status) state" where
  "ur_clear_faults_steps ms env n = do {
     current_status \<leftarrow> locked (\<lambda>n. (un_robot_status n, n));
     let current_safety = (case us_safety_mode current_status of Some m \<Rightarrow> m
       | None \<Rightarrow> safety_value ms UNDEFINED_SAFETY_MODE);
     let current_robot = (case us_robot_mode current_status of Some m \<Rightarrow> m
       | None \<Rightarrow> robot_value ms DISCONNECTED);
     _ \<leftarrow> (if current_robot = robot_value ms DISCONNECTED \<or> current_robot = robot_value ms NO_CONTROLLER
       then ur_call_trigger_service env (connect_client n) (service_timeout n)
       else State_Monad.return OkStatus);
     _ \<leftarrow> ur_unlock_safety ms env n current_safety;
     _ \<leftarrow> ur_call_trigger_service env (close_safety_popup_client n) (service_timeout n);
     _ \<leftarrow> ur_call_trigger_service env (close_popup_client n) (service_timeout n);
     set_mode_status \<leftarrow> ur_call_set_mode_action env (set_mode_action_client n)
       (robot_value ms RUNNING) True True (action_timeout n);
     if ok set_mode_status then do {
       _ \<leftarrow> ur_publish_operational_status;
       State_Monad.return OkStatus }
     else do {
       _ \<leftarrow> ur_call_trigger_service env (brake_release_client n) (service_timeout n);
       resend_status \<leftarrow> ur_call_trigger_service env (resend_robot_program_client n) (service_timeout n);
       if ok resend_status then do {
         _ \<leftarrow> ur_publish_operational_status;
         State_Monad.return OkStatus }
       else do {
         _ \<leftarrow> ur_publish_operational_status;
         State_Monad.return (mk_status kInternal (ur_failure_message set_mode_status resend_status)) } } }"

definition ur_clear_faults :: "ur_msgs \<Rightarrow> ur_env \<Rightarrow> ur_node \<Rightarrow> status \<times> ur_node" where
  "ur_clear_faults ms env n = run_state (ur_clear_faults_steps ms env n) n"

definition ur_clear_faults_callback :: "ur_msgs \<Rightarrow> ur_env \<Rightarrow> ur_node \<Rightarrow> trigger_response \<times> ur_node" where
  "ur_clear_faults_callback ms env n =
     (case ur_clear_faults ms env n of (status, n') \<Rightarrow>
       (\<lparr>tr_success = ok status,
         tr_message = (if ok status then ''Successfully cleared faults and recovered robot.''
           else st_message status)\<rparr>, n'))"

datatype ur_message = Robot_Mode i8 | Safety_Mode u8 | Program_Running bool

fun ur_step :: "ur_msgs \<Rightarrow> (ur_message, ur_env) node_event \<Rightarrow> ur_node \<Rightarrow> ur_node" where
  "ur_step ms (Message (Robot_Mode m)) n = snd (run_state (ur_robot_mode_callback ms m) n)"
| "ur_step ms (Message (Safety_Mode m)) n = snd (run_state (ur_safety_mode_callback ms m) n)"
| "ur_step ms (Message (Program_Running b)) n = snd (run_state (ur_program_running_callback ms b) n)"
| "ur_step ms Publish_Timer n = snd (run_state ur_publish_operational_status n)"
| "ur_step ms (Clear_Faults_Request env) n = snd (ur_clear_faults_callback ms env n)"

text \<open>The executable.\<close>

definition ur_main :: "node_api \<Rightarrow> ur_node process option" where
  "ur_main api = do {
     node \<leftarrow> ur_create api;
     Some \<lparr>pr_executor = MultiThreadedExecutor, pr_nodes = [node], pr_exit = EXIT_SUCCESS\<rparr> }"

section \<open>The calls keep their contracts\<close>

text \<open>What waiting for a service adds to the trace when it is first asked whether it is ready.\<close>

definition ready_events :: "nat option \<Rightarrow> string \<Rightarrow> nat \<Rightarrow> ('q, 'm) io_event list" where
  "ready_events a name t = (if a = Some 0 then []
     else [Waited name (fst (wait_result a t)) (snd (wait_result a t))])"

lemma ready_events_history [simp]:
  "requests (ready_events a name t) = []" "published (ready_events a name t) = []"
  "elapsed (ready_events a name t) \<le> t"
  by (auto simp: ready_events_def wait_result_time)

lemma run_ready:
  "run_state (do { ready \<leftarrow> service_is_ready env name;
      there \<leftarrow> (if \<not> ready then wait_for_service env name t else State_Monad.return True); k there }) w =
   (let a = env_wait env (trace w) name in
      run_state (k (snd (wait_result a t))) (w\<lparr>trace := trace w @ ready_events a name t\<rparr>))"
  by (simp add: io_simps Let_def ready_events_def wait_result_def split: option.split)

lemma run_trigger:
  "run_state (ur_call_trigger_service env (Some c) t) w =
     (let a = env_wait env (trace w) c; h = trace w @ ready_events a c 500 in
      if \<not> snd (wait_result a 500)
      then (mk_status kUnavailable (''Service '' @ quoted c @ '' is not available''), w\<lparr>trace := h\<rparr>)
      else let (d, r) = reply_result (env_reply env (h @ [Sent c Trigger]) c Trigger) (seconds t) in
        (case r of
           None \<Rightarrow> mk_status kDeadlineExceeded
             (''Service '' @ quoted c @ '' timed out after '' @ dec_int (sint t) @ '' s'')
         | Some x \<Rightarrow> if \<not> rp_success x then mk_status kInternal (rp_message x) else OkStatus,
         w\<lparr>trace := h @ [Sent c Trigger, Awaited c d (r \<noteq> None)]\<rparr>))"
  unfolding ur_call_trigger_service_def option.case run_ready
  by (simp add: io_simps Let_def split: prod.split option.split)

definition client_plan :: "string option \<Rightarrow> 'q list \<Rightarrow> (string \<times> 'q) list" where
  "client_plan client qs = (case client of Some c \<Rightarrow> map (Pair c) qs | None \<Rightarrow> [])"

lemma trigger_status_call:
  "status_call (ur_call_trigger_service env (Some c) t :: ((ur_request, operational_status, 'z) world_scheme, status) state)
     [(c, Trigger)] (500 + seconds t)"
proof
  show "blocks_at_most (500 + seconds t)
      (ur_call_trigger_service env (Some c) t :: ((ur_request, operational_status, 'z) world_scheme, status) state)"
    unfolding blocks_at_most_def run_trigger
    by (auto simp: Let_def case_prod_beta intro!: add_mono reply_result_time
        intro: order_trans [OF ready_events_history(3)])
  show "logs_only (ur_call_trigger_service env (Some c) t :: ((ur_request, operational_status, 'z) world_scheme, status) state)"
    unfolding logs_only_def run_trigger by (simp add: Let_def case_prod_beta)
  show "\<exists>qs. requests (trace (snd (run_state (ur_call_trigger_service env (Some c) t) w))) =
      requests (trace w) @ qs \<and> prefix qs [(c, Trigger)] \<and>
      (ok (fst (run_state (ur_call_trigger_service env (Some c) t) w)) \<longrightarrow> qs = [(c, Trigger)])"
    for w :: "(ur_request, operational_status, 'z) world_scheme"
    unfolding run_trigger by (auto simp: Let_def case_prod_beta)
qed

interpretation ur_trigger: status_call "ur_call_trigger_service env client t"
  "client_plan client [Trigger]" "500 + seconds t" for env client t
proof (cases client)
  case None
  then show "status_call (ur_call_trigger_service env client t) (client_plan client [Trigger]) (500 + seconds t)"
    by unfold_locales (simp_all add: ur_call_trigger_service_def client_plan_def blocks_at_most_def logs_return)
next
  case (Some c)
  then show "status_call (ur_call_trigger_service env client t) (client_plan client [Trigger]) (500 + seconds t)"
    using trigger_status_call by (simp add: client_plan_def)
qed

lemma run_set_mode:
  "run_state (ur_call_set_mode_action env (Some c) m stop play t) w =
     (let a = env_wait env (trace w) c; h = trace w @ ready_events a c 1000;
          goal = Set_Mode_Goal m stop play in
      if \<not> snd (wait_result a 1000)
      then (mk_status kUnavailable ''SetMode action server is not available'', w\<lparr>trace := h\<rparr>)
      else let (d, r) = reply_result (env_goal env (h @ [Sent c goal]) goal) 3000;
               h1 = h @ [Sent c goal, Awaited c d (r \<noteq> None)] in
        (case r of
           None \<Rightarrow> (mk_status kDeadlineExceeded ''Timeout sending goal to SetMode action server'', w\<lparr>trace := h1\<rparr>)
         | Some None \<Rightarrow> (mk_status kInternal ''SetMode goal was rejected by action server'', w\<lparr>trace := h1\<rparr>)
         | Some (Some handle) \<Rightarrow>
            (let (d', x) = reply_result (env_result env (h1 @ [Sent c Get_Result]) handle) (seconds t) in
             (case x of
                None \<Rightarrow> mk_status kDeadlineExceeded ''Timeout waiting for SetMode action result''
              | Some wr \<Rightarrow> ur_judge_result wr,
              w\<lparr>trace := h1 @ [Sent c Get_Result, Awaited c d' (x \<noteq> None)]\<rparr>))))"
  unfolding ur_call_set_mode_action_def option.case run_ready
  by (simp add: io_simps Let_def goal_channel_def result_channel_def split: prod.split option.split)

lemma set_mode_status_call:
  "status_call (ur_call_set_mode_action env (Some c) m stop play t :: ((ur_request, operational_status, 'z) world_scheme, status) state)
     [(c, Set_Mode_Goal m stop play), (c, Get_Result)] (4000 + seconds t)"
proof
  let ?wait = "\<lambda>a. elapsed (ready_events a c 1000 :: ur_history)"
  have time: "?wait a \<le> 1000" "fst (reply_result b 3000) \<le> 3000"
    "fst (reply_result r (seconds t)) \<le> seconds t"
    for a and b :: "(nat \<times> nat option) option" and r :: "(nat \<times> wrapped_result) option"
    by (rule ready_events_history, rule reply_result_time, rule reply_result_time)
  have sums: "?wait a \<le> 4000 + seconds t" "?wait a + fst (reply_result b 3000) \<le> 4000 + seconds t"
    "?wait a + (fst (reply_result b 3000) + fst (reply_result r (seconds t))) \<le> 4000 + seconds t"
    for a and b :: "(nat \<times> nat option) option" and r :: "(nat \<times> wrapped_result) option"
    using time(1) [of a] time(2) [of b] time(3) [of r] by linarith+
  show "blocks_at_most (4000 + seconds t)
      (ur_call_set_mode_action env (Some c) m stop play t :: ((ur_request, operational_status, 'z) world_scheme, status) state)"
    unfolding blocks_at_most_def
  proof
    fix w :: "(ur_request, operational_status, 'z) world_scheme"
    show "elapsed (trace (snd (run_state (ur_call_set_mode_action env (Some c) m stop play t) w)))
        \<le> elapsed (trace w) + (4000 + seconds t)"
      unfolding run_set_mode Let_def case_prod_beta
      by (auto intro: sums split: option.split)
  qed
  show "logs_only (ur_call_set_mode_action env (Some c) m stop play t :: ((ur_request, operational_status, 'z) world_scheme, status) state)"
    unfolding logs_only_def run_set_mode by (simp add: Let_def case_prod_beta split: option.split)
  show "\<exists>qs. requests (trace (snd (run_state (ur_call_set_mode_action env (Some c) m stop play t) w))) =
      requests (trace w) @ qs \<and> prefix qs [(c, Set_Mode_Goal m stop play), (c, Get_Result)] \<and>
      (ok (fst (run_state (ur_call_set_mode_action env (Some c) m stop play t) w)) \<longrightarrow>
         qs = [(c, Set_Mode_Goal m stop play), (c, Get_Result)])"
    for w :: "(ur_request, operational_status, 'z) world_scheme"
    unfolding run_set_mode by (auto simp: Let_def case_prod_beta split: option.split)
qed

interpretation ur_set_mode: status_call "ur_call_set_mode_action env client m stop play t"
  "client_plan client [Set_Mode_Goal m stop play, Get_Result]" "4000 + seconds t"
  for env client m stop play t
proof (cases client)
  case None
  then show "status_call (ur_call_set_mode_action env client m stop play t)
      (client_plan client [Set_Mode_Goal m stop play, Get_Result]) (4000 + seconds t)"
    by unfold_locales (simp_all add: ur_call_set_mode_action_def client_plan_def blocks_at_most_def logs_return)
next
  case (Some c)
  then show "status_call (ur_call_set_mode_action env client m stop play t)
      (client_plan client [Set_Mode_Goal m stop play, Get_Result]) (4000 + seconds t)"
    using set_mode_status_call by (simp add: client_plan_def)
qed

lemma ur_calls_quiet [frame_rules]:
  "publishes_nothing (ur_call_trigger_service env client t)"
  "publishes_nothing (ur_call_set_mode_action env client m stop play t)"
proof -
  show "publishes_nothing (ur_call_trigger_service env client t)"
    unfolding ur_call_trigger_service_def
    by (cases client) (auto intro!: frame_rules split: option.split)
  show "publishes_nothing (ur_call_set_mode_action env client m stop play t)"
    unfolding ur_call_set_mode_action_def
    by (cases client) (auto intro!: frame_rules split: option.split)
qed

lemma ur_calls_append [frame_rules]:
  "appends (ur_call_trigger_service env client t)"
  "appends (ur_call_set_mode_action env client m stop play t)"
proof -
  show "appends (ur_call_trigger_service env client t)"
    unfolding ur_call_trigger_service_def
    by (cases client) (auto intro!: frame_rules split: option.split)
  show "appends (ur_call_set_mode_action env client m stop play t)"
    unfolding ur_call_set_mode_action_def
    by (cases client) (auto intro!: frame_rules split: option.split)
qed

section \<open>The recovery, taken apart\<close>

text \<open>What the recovery does on the network, and how it judges it.\<close>

definition ur_prepare :: "ur_msgs \<Rightarrow> ur_env \<Rightarrow> ur_node \<Rightarrow> ur_robot_status
    \<Rightarrow> ((ur_request, operational_status, 'z) world_scheme, status) state" where
  "ur_prepare ms env n cs = do {
     _ \<leftarrow> (if (case us_robot_mode cs of Some m \<Rightarrow> m | None \<Rightarrow> robot_value ms DISCONNECTED)
             \<in> {robot_value ms DISCONNECTED, robot_value ms NO_CONTROLLER}
       then ur_call_trigger_service env (connect_client n) (service_timeout n)
       else State_Monad.return OkStatus);
     _ \<leftarrow> ur_unlock_safety ms env n
       (case us_safety_mode cs of Some m \<Rightarrow> m | None \<Rightarrow> safety_value ms UNDEFINED_SAFETY_MODE);
     _ \<leftarrow> ur_call_trigger_service env (close_safety_popup_client n) (service_timeout n);
     ur_call_trigger_service env (close_popup_client n) (service_timeout n) }"

definition ur_restart :: "ur_msgs \<Rightarrow> ur_env \<Rightarrow> ur_node
    \<Rightarrow> ((ur_request, operational_status, 'z) world_scheme, status) state" where
  "ur_restart ms env n = ur_call_set_mode_action env (set_mode_action_client n)
     (robot_value ms RUNNING) True True (action_timeout n)"

definition ur_resend :: "ur_env \<Rightarrow> ur_node
    \<Rightarrow> ((ur_request, operational_status, 'z) world_scheme, status) state" where
  "ur_resend env n = do {
     _ \<leftarrow> ur_call_trigger_service env (brake_release_client n) (service_timeout n);
     ur_call_trigger_service env (resend_robot_program_client n) (service_timeout n) }"

definition ur_attempts :: "ur_msgs \<Rightarrow> ur_env \<Rightarrow> ur_node \<Rightarrow> ur_robot_status
    \<Rightarrow> ((ur_request, operational_status, 'z) world_scheme, status) state" where
  "ur_attempts ms env n cs = do {
     _ \<leftarrow> ur_prepare ms env n cs;
     set_mode_status \<leftarrow> ur_restart ms env n;
     if ok set_mode_status then State_Monad.return OkStatus
     else do {
       resend_status \<leftarrow> ur_resend env n;
       State_Monad.return (if ok resend_status then OkStatus
         else mk_status kInternal (ur_failure_message set_mode_status resend_status)) } }"

lemma ur_clear_faults_steps_eq:
  "run_state (ur_clear_faults_steps ms env n) w =
     (let (r, w') = run_state (ur_attempts ms env n (un_robot_status w)) w in
      (r, w'\<lparr>trace := trace w' @ [Published operational_status_topic (node_status w')]\<rparr>))"
  by (simp add: ur_clear_faults_steps_def ur_attempts_def ur_prepare_def ur_restart_def ur_resend_def
      ur_publish_operational_status_def io_simps publish_def Let_def case_prod_beta)

lemma ur_unlock_frame [frame_rules]:
  "logs_only (ur_unlock_safety ms env n s)" "publishes_nothing (ur_unlock_safety ms env n s)"
  "appends (ur_unlock_safety ms env n s)"
  unfolding ur_unlock_safety_def by (intro frame_rules ur_trigger.only_logs)+

lemma ur_attempts_frame:
  "logs_only (ur_attempts ms env n cs)" "publishes_nothing (ur_attempts ms env n cs)"
  "appends (ur_attempts ms env n cs)"
  unfolding ur_attempts_def ur_prepare_def ur_restart_def ur_resend_def
  by (intro frame_rules ur_trigger.only_logs ur_set_mode.only_logs)+

text \<open>The requests of each stage, in order.\<close>

definition ur_safety_plan :: "ur_msgs \<Rightarrow> ur_node \<Rightarrow> u8 \<Rightarrow> (string \<times> ur_request) list" where
  "ur_safety_plan ms n s =
     (if s = safety_value ms PROTECTIVE_STOP then client_plan (unlock_protective_stop_client n) [Trigger]
      else if s \<in> safety_value ms ` {VIOLATION, FAULT, SAFEGUARD_STOP, AUTOMATIC_MODE_SAFEGUARD_STOP,
          SYSTEM_EMERGENCY_STOP, ROBOT_EMERGENCY_STOP}
      then client_plan (close_safety_popup_client n) [Trigger] @ client_plan (restart_safety_client n) [Trigger]
      else [])"

definition ur_prepare_plan :: "ur_msgs \<Rightarrow> ur_node \<Rightarrow> ur_robot_status \<Rightarrow> (string \<times> ur_request) list" where
  "ur_prepare_plan ms n cs =
     (if (case us_robot_mode cs of Some m \<Rightarrow> m | None \<Rightarrow> robot_value ms DISCONNECTED)
          \<in> {robot_value ms DISCONNECTED, robot_value ms NO_CONTROLLER}
      then client_plan (connect_client n) [Trigger] else [])
     @ ur_safety_plan ms n
         (case us_safety_mode cs of Some m \<Rightarrow> m | None \<Rightarrow> safety_value ms UNDEFINED_SAFETY_MODE)
     @ client_plan (close_safety_popup_client n) [Trigger]
     @ client_plan (close_popup_client n) [Trigger]"

definition ur_plan :: "ur_msgs \<Rightarrow> ur_node \<Rightarrow> ur_robot_status \<Rightarrow> (string \<times> ur_request) list" where
  "ur_plan ms n cs = ur_prepare_plan ms n cs
     @ client_plan (set_mode_action_client n) [Set_Mode_Goal (robot_value ms RUNNING) True True, Get_Result]
     @ client_plan (brake_release_client n) [Trigger]
     @ client_plan (resend_robot_program_client n) [Trigger]"

lemma sends_nothing: "sends_within [] (sleep_for t)" "sends_within [] (State_Monad.return x)"
  by (simp_all add: sends_within_def sleep_for_def io_simps)

lemma sends_return_any: "sends_within q (State_Monad.return x)"
  by (rule sends_weaken [OF sends_return]) simp

lemma sends_if:
  "sends_within p m \<Longrightarrow> sends_within q k \<Longrightarrow> sends_within (if b then p else q) (if b then m else k)"
  by simp

lemma ur_unlock_sends: "sends_within (ur_safety_plan ms n s) (ur_unlock_safety ms env n s)"
proof -
  note t = ur_trigger.sends_plan
  have one: "sends_within (client_plan c [Trigger])
      (do { _ \<leftarrow> ur_call_trigger_service env c (service_timeout n); State_Monad.return () })" for c
    using sends_bind [OF t sends_nothing(2)] by simp
  have two: "sends_within (client_plan c [Trigger] @ client_plan d [Trigger])
      (do { _ \<leftarrow> ur_call_trigger_service env c (service_timeout n);
        _ \<leftarrow> ur_call_trigger_service env d (service_timeout n); sleep_for 500 })" for c d
    using sends_bind [OF t sends_bind [OF t sends_nothing(1)]] by simp
  show ?thesis
    unfolding ur_safety_plan_def ur_unlock_safety_def
    using one two sends_nothing(2) by auto
qed

lemma ur_prepare_sends: "sends_within (ur_prepare_plan ms n cs) (ur_prepare ms env n cs)"
  unfolding ur_prepare_def ur_prepare_plan_def
  by (intro sends_bind sends_if ur_trigger.sends_plan sends_nothing(2) ur_unlock_sends)

lemma ur_attempts_sends: "sends_within (ur_plan ms n cs) (ur_attempts ms env n cs)"
proof -
  have resend: "sends_within (client_plan (brake_release_client n) [Trigger]
      @ client_plan (resend_robot_program_client n) [Trigger]) (do {
        resend_status \<leftarrow> ur_resend env n; State_Monad.return (f resend_status) })" for f :: "status \<Rightarrow> status"
    using sends_bind [OF sends_bind [OF ur_trigger.sends_plan ur_trigger.sends_plan] sends_nothing(2)]
    unfolding ur_resend_def by simp
  have rest: "sends_within (client_plan (brake_release_client n) [Trigger]
      @ client_plan (resend_robot_program_client n) [Trigger]) (if b then State_Monad.return OkStatus
        else do { resend_status \<leftarrow> ur_resend env n; State_Monad.return (f resend_status) })"
    for b and f :: "status \<Rightarrow> status"
    by (simp add: resend sends_return_any)
  show ?thesis
    unfolding ur_attempts_def ur_plan_def ur_restart_def
    by (rule sends_bind [OF ur_prepare_sends sends_bind [OF ur_set_mode.sends_plan rest]])
qed

lemma ur_unlock_time: "blocks_at_most (2 * (500 + seconds (service_timeout n)) + 500) (ur_unlock_safety ms env n s)"
proof -
  let ?t = "500 + seconds (service_timeout n)"
  have one: "blocks_at_most (2 * ?t + 500)
      (do { _ \<leftarrow> ur_call_trigger_service env c (service_timeout n); State_Monad.return () })" for c
    by (rule blocks_mono [OF blocks_bind [OF ur_trigger.in_time blocks_return]]) simp
  have two: "blocks_at_most (2 * ?t + 500)
      (do { _ \<leftarrow> ur_call_trigger_service env c (service_timeout n);
        _ \<leftarrow> ur_call_trigger_service env d (service_timeout n); sleep_for 500 })" for c d
    by (rule blocks_mono [OF blocks_bind [OF ur_trigger.in_time
          blocks_bind [OF ur_trigger.in_time blocks_sleep]]]) simp
  show ?thesis
    unfolding ur_unlock_safety_def
    by (split if_split, intro conjI impI one, split if_split, intro conjI impI two)
       (rule blocks_mono [OF blocks_return], simp)
qed

lemma ur_prepare_time:
  "blocks_at_most (3000 + 5 * seconds (service_timeout n)) (ur_prepare ms env n cs)"
proof -
  let ?t = "500 + seconds (service_timeout n)"
  have connect: "blocks_at_most ?t (if b then ur_call_trigger_service env c (service_timeout n)
      else State_Monad.return OkStatus)" for b c
    by (split if_split, intro conjI impI ur_trigger.in_time) (rule blocks_mono [OF blocks_return], simp)
  show ?thesis
    unfolding ur_prepare_def
    by (rule blocks_mono [OF blocks_bind [OF connect blocks_bind [OF ur_unlock_time
          blocks_bind [OF ur_trigger.in_time ur_trigger.in_time]]]]) simp
qed

lemma ur_attempts_time:
  "blocks_at_most (8000 + 7 * seconds (service_timeout n) + seconds (action_timeout n)) (ur_attempts ms env n cs)"
proof -
  let ?t = "500 + seconds (service_timeout n)"
  have resend: "blocks_at_most (2 * ?t) (do { r \<leftarrow> ur_resend env n; State_Monad.return (f r) })"
    for f :: "status \<Rightarrow> status"
    unfolding ur_resend_def
    by (rule blocks_mono [OF blocks_bind [OF blocks_bind [OF ur_trigger.in_time ur_trigger.in_time]
          blocks_return]]) simp
  have rest: "blocks_at_most (2 * ?t) (if b then State_Monad.return OkStatus
      else do { r \<leftarrow> ur_resend env n; State_Monad.return (f r) })" for b and f :: "status \<Rightarrow> status"
    by (split if_split, intro conjI impI resend) (rule blocks_mono [OF blocks_return], simp)
  show ?thesis
    unfolding ur_attempts_def ur_restart_def
    by (rule blocks_mono [OF blocks_bind [OF ur_prepare_time blocks_bind [OF ur_set_mode.in_time rest]]])
       simp
qed

section \<open>Facts about the node\<close>

lemma ur_attempts_keeps:
  assumes "run_state (ur_attempts ms env n cs) n = (r, n1)"
  shows "node_status n1 = node_status n" "un_robot_status n1 = un_robot_status n"
    "published (trace n1) = published (trace n)"
proof -
  have n1: "n1 = n\<lparr>trace := trace n1\<rparr>"
    using logs_only_snd [OF ur_attempts_frame(1) assms] .
  show "node_status n1 = node_status n" by (subst n1) simp
  show "un_robot_status n1 = un_robot_status n" by (subst n1) simp
  show "published (trace n1) = published (trace n)"
    using ur_attempts_frame(2) [of ms env n cs] assms unfolding publishes_nothing_def by (metis snd_conv)
qed

lemma ur_clear_faults_run:
  "ur_clear_faults ms env n =
     (let (r, n1) = run_state (ur_attempts ms env n (un_robot_status n)) n in
      (r, n1\<lparr>trace := trace n1 @ [Published operational_status_topic (node_status n)]\<rparr>))"
proof -
  obtain r n1 where "run_state (ur_attempts ms env n (un_robot_status n)) n = (r, n1)"
    by (cases "run_state (ur_attempts ms env n (un_robot_status n)) n")
  then show ?thesis
    using ur_attempts_keeps(1) by (simp add: ur_clear_faults_def ur_clear_faults_steps_eq)
qed

lemma ur_callback_run:
  "snd (ur_clear_faults_callback ms env n) = snd (ur_clear_faults ms env n)"
  "tr_success (fst (ur_clear_faults_callback ms env n)) = ok (fst (ur_clear_faults ms env n))"
  by (simp_all add: ur_clear_faults_callback_def split: prod.split)

lemma ur_clear_keeps [simp]:
  "node_status (snd (ur_clear_faults ms env n)) = node_status n"
  "un_robot_status (snd (ur_clear_faults ms env n)) = un_robot_status n"
  "published (trace (snd (ur_clear_faults ms env n))) = published (trace n) @ [node_status n]"
  using ur_attempts_keeps [OF surjective_pairing, of ms env n "un_robot_status n"]
  by (simp_all add: ur_clear_faults_run case_prod_beta)

fun ur_record_message :: "ur_message \<Rightarrow> ur_robot_status \<Rightarrow> ur_robot_status" where
  "ur_record_message (Robot_Mode m) rs = rs\<lparr>us_robot_mode := Some m\<rparr>"
| "ur_record_message (Safety_Mode m) rs = rs\<lparr>us_safety_mode := Some m\<rparr>"
| "ur_record_message (Program_Running b) rs = rs\<lparr>us_program_running := Some b\<rparr>"

lemma ur_step_status [simp]:
  "node_status (ur_step ms (Message m) n) =
     ur_to_operational_status ms (ur_record_message m (un_robot_status n))"
  "un_robot_status (ur_step ms (Message m) n) = ur_record_message m (un_robot_status n)"
  "published (trace (ur_step ms (Message m) n)) = published (trace n) @
     [ur_to_operational_status ms (ur_record_message m (un_robot_status n))]"
  by (cases m; simp add: ur_robot_mode_callback_def ur_safety_mode_callback_def
      ur_program_running_callback_def io_simps Let_def publish_def)+

lemma ur_step_status_other [simp]:
  "node_status (ur_step ms Publish_Timer n) = node_status n"
  "un_robot_status (ur_step ms Publish_Timer n) = un_robot_status n"
  "published (trace (ur_step ms Publish_Timer n)) = published (trace n) @ [node_status n]"
  "node_status (ur_step ms (Clear_Faults_Request env) n) = node_status n"
  "un_robot_status (ur_step ms (Clear_Faults_Request env) n) = un_robot_status n"
  "published (trace (ur_step ms (Clear_Faults_Request env) n)) = published (trace n) @ [node_status n]"
  by (simp_all add: ur_publish_operational_status_def io_simps publish_def ur_callback_run(1))

declare ur_step.simps [simp del]

lemma ur_safety_message_not_empty [simp]: "ur_safety_message ms m \<noteq> []"
  by (simp add: ur_safety_message_def)

lemma ur_wf: "wf_status (ur_to_operational_status ms rs)"
  by (simp add: ur_to_operational_status_def ur_mode_status_def wf_status_def Let_def)

text \<open>
  The cached status is always the translation of the cached robot status, and every step leaves a
  status that is well formed.
\<close>

definition ur_consistent :: "ur_msgs \<Rightarrow> ur_node \<Rightarrow> bool" where
  "ur_consistent ms n \<longleftrightarrow> node_status n = ur_to_operational_status ms (un_robot_status n)"

lemma ur_consistent_step: "ur_consistent ms n \<Longrightarrow> ur_consistent ms (ur_step ms e n)"
  by (cases e) (simp_all add: ur_consistent_def)

lemma ur_consistent_run: "ur_consistent ms n \<Longrightarrow> ur_consistent ms (fold (ur_step ms) es n)"
  by (induction es arbitrary: n) (simp_all add: ur_consistent_step)

interpretation ur_node: status_publisher "ur_step ms" node_status "\<lambda>n. published (trace n)" for ms
proof
  show "\<exists>k. published (trace (ur_step ms e n)) =
      published (trace n) @ replicate k (node_status (ur_step ms e n))
      \<and> (k = 0 \<longrightarrow> node_status (ur_step ms e n) = node_status n)" for e n
    by (rule exI [of _ "Suc 0"], cases e) simp_all
  show "wf_status (node_status n) \<Longrightarrow> wf_status (node_status (ur_step ms e n))" for e n
    by (cases e) (simp_all add: ur_wf)
qed

lemma ur_created:
  assumes "ur_create api = Some n"
  shows "trace n = []"
    "un_robot_status n = \<lparr>us_robot_mode = None, us_safety_mode = None, us_program_running = None\<rparr>"
    "ur_consistent ms n"
    "sound_wiring (node_endpoints n)"
    "honours_ranges api \<Longrightarrow> 1 \<le> sint (service_timeout n) \<and> sint (service_timeout n) \<le> 300
       \<and> 1 \<le> sint (action_timeout n) \<and> sint (action_timeout n) \<le> 300"
    "list_ex is_client (node_endpoints n)"
proof -
  show "list_ex is_client (node_endpoints n)"
    using assms by (auto simp: ur_create_def split: Option.bind_splits)
  show "trace n = []"
    "un_robot_status n = \<lparr>us_robot_mode = None, us_safety_mode = None, us_program_running = None\<rparr>"
    "ur_consistent ms n"
    using assms by (auto simp: ur_create_def ur_consistent_def ur_to_operational_status_def
        split: Option.bind_splits)
  show "sound_wiring (node_endpoints n)"
    by (rule sound_wiringI; use assms in \<open>auto simp: ur_create_def split: Option.bind_splits\<close>)
  show "1 \<le> sint (service_timeout n) \<and> sint (service_timeout n) \<le> 300
      \<and> 1 \<le> sint (action_timeout n) \<and> sint (action_timeout n) \<le> 300" if "honours_ranges api"
    using assms that by (fastforce simp: ur_create_def honours_ranges_def split: Option.bind_splits)
qed

text \<open>The last value of each topic.\<close>

definition last_value :: "'a list \<Rightarrow> 'a option" where
  "last_value xs = (if xs = [] then None else Some (last xs))"

definition latest_status :: "(ur_message, 'e) node_event list \<Rightarrow> ur_robot_status" where
  "latest_status es = \<lparr>us_robot_mode = last_value [m. Message (Robot_Mode m) \<leftarrow> es],
     us_safety_mode = last_value [m. Message (Safety_Mode m) \<leftarrow> es],
     us_program_running = last_value [b. Message (Program_Running b) \<leftarrow> es]\<rparr>"

lemma ur_run_robot_status:
  assumes "un_robot_status n = \<lparr>us_robot_mode = None, us_safety_mode = None, us_program_running = None\<rparr>"
  shows "un_robot_status (fold (ur_step ms) es n) = latest_status es"
proof (induction es rule: rev_induct)
  case (snoc e es)
  show ?case
  proof (cases e)
    case (Message m)
    with snoc show ?thesis by (cases m) (simp_all add: latest_status_def last_value_def)
  qed (use snoc in \<open>simp_all add: latest_status_def\<close>)
qed (use assms in \<open>simp add: latest_status_def last_value_def\<close>)

lemma ur_run_status:
  assumes "ur_create api = Some n"
  shows "node_status (fold (ur_step ms) es n) = ur_to_operational_status ms (latest_status es)"
  using ur_consistent_run [OF ur_created(3) [OF assms], where es = es and ms = ms]
    ur_run_robot_status [OF ur_created(2) [OF assms], where es = es and ms = ms]
  by (simp add: ur_consistent_def)

lemma ur_created_wf: "ur_create api = Some n \<Longrightarrow> wf_status (node_status n)"
  using ur_run_status [where es = "[]"] ur_wf by (metis fold_simps(1))

section \<open>Concrete nodes and drivers\<close>

definition example_ur_msgs :: ur_msgs where
  "example_ur_msgs = \<lparr>
     safety_value = (\<lambda>m. case m of NORMAL \<Rightarrow> 1 | REDUCED \<Rightarrow> 2 | PROTECTIVE_STOP \<Rightarrow> 3 | RECOVERY \<Rightarrow> 4
       | SAFEGUARD_STOP \<Rightarrow> 5 | SYSTEM_EMERGENCY_STOP \<Rightarrow> 6 | ROBOT_EMERGENCY_STOP \<Rightarrow> 7 | VIOLATION \<Rightarrow> 8
       | FAULT \<Rightarrow> 9 | VALIDATE_JOINT_ID \<Rightarrow> 10 | UNDEFINED_SAFETY_MODE \<Rightarrow> 11
       | AUTOMATIC_MODE_SAFEGUARD_STOP \<Rightarrow> 12 | SYSTEM_THREE_POSITION_ENABLING_STOP \<Rightarrow> 13),
     robot_value = (\<lambda>m. case m of NO_CONTROLLER \<Rightarrow> - 1 | DISCONNECTED \<Rightarrow> 0 | CONFIRM_SAFETY \<Rightarrow> 1
       | BOOTING \<Rightarrow> 2 | POWER_OFF \<Rightarrow> 3 | POWER_ON \<Rightarrow> 4 | IDLE \<Rightarrow> 5 | BACKDRIVE \<Rightarrow> 6 | RUNNING \<Rightarrow> 7
       | UPDATING_FIRMWARE \<Rightarrow> 8)\<rparr>"

lemma example_ur_labels: "distinct_labels example_ur_msgs"
  unfolding distinct_labels_def inj_def example_ur_msgs_def
  by (simp split: safety_mode.split robot_mode.split)

definition example_ur_node :: ur_node where
  "example_ur_node = the (ur_create default_api)"

lemma example_ur_created: "ur_create default_api = Some example_ur_node"
  by (simp add: example_ur_node_def ur_create_def default_api_def)

lemma example_ur_node_sel:
  "trace example_ur_node = []" "service_timeout example_ur_node = 5" "action_timeout example_ur_node = 15"
  "set_mode_action_client example_ur_node = Some ''ur_robot_state_helper/set_mode''"
  "resend_robot_program_client example_ur_node = Some ''io_and_status_controller/resend_robot_program''"
  by (simp_all add: example_ur_node_def ur_create_def default_api_def)

text \<open>
  An outside whose answers do not depend on what happened before, and what it takes for the two ways
  out of a fault to work.
\<close>

definition ur_stationary ::
  "ur_env \<Rightarrow> (string \<Rightarrow> nat option) \<Rightarrow> (string \<Rightarrow> ur_request \<Rightarrow> (nat \<times> reply) option)
     \<Rightarrow> (ur_request \<Rightarrow> (nat \<times> nat option) option) \<Rightarrow> (nat \<Rightarrow> (nat \<times> wrapped_result) option) \<Rightarrow> bool" where
  "ur_stationary env W R G Q \<longleftrightarrow> (\<forall>h s. env_wait env h s = W s) \<and> (\<forall>h s q. env_reply env h s q = R s q)
     \<and> (\<forall>h q. env_goal env h q = G q) \<and> (\<forall>h i. env_result env h i = Q i)"

definition trigger_works ::
  "(string \<Rightarrow> nat option) \<Rightarrow> (string \<Rightarrow> ur_request \<Rightarrow> (nat \<times> reply) option) \<Rightarrow> string \<Rightarrow> i64 \<Rightarrow> bool" where
  "trigger_works W R c t \<longleftrightarrow> in_time (W c) 500 \<and> answers (R c Trigger) (seconds t) rp_success"

definition set_mode_works ::
  "(string \<Rightarrow> nat option) \<Rightarrow> (ur_request \<Rightarrow> (nat \<times> nat option) option)
     \<Rightarrow> (nat \<Rightarrow> (nat \<times> wrapped_result) option) \<Rightarrow> string \<Rightarrow> ur_request \<Rightarrow> i64 \<Rightarrow> bool" where
  "set_mode_works W G Q c goal t \<longleftrightarrow> in_time (W c) 1000
     \<and> (\<exists>handle. answers (G goal) 3000 (\<lambda>r. r = Some handle)
        \<and> answers (Q handle) (seconds t) (\<lambda>w. wr_code w = SUCCEEDED
             \<and> (\<exists>r. wr_result w = Some r \<and> rp_success r)))"

lemma trigger_ok_iff:
  assumes "ur_stationary env W R G Q"
  shows "ok (fst (run_state (ur_call_trigger_service env (Some c) t) w)) \<longleftrightarrow> trigger_works W R c t"
  using assms
  by (auto simp: run_trigger trigger_works_def ur_stationary_def wait_result_def reply_result_def
      in_time_def answers_def Let_def split: option.splits if_splits)

lemma set_mode_ok_iff:
  assumes "ur_stationary env W R G Q"
  shows "ok (fst (run_state (ur_call_set_mode_action env (Some c) m stop play t) w)) \<longleftrightarrow>
    set_mode_works W G Q c (Set_Mode_Goal m stop play) t"
proof -
  have judge: "ok (ur_judge_result wr) \<longleftrightarrow> wr_code wr = SUCCEEDED \<and> (\<exists>r. wr_result wr = Some r \<and> rp_success r)"
    for wr by (auto simp: ur_judge_result_def)
  show ?thesis
    using assms judge
    by (auto simp: run_set_mode set_mode_works_def ur_stationary_def wait_result_def reply_result_def
        in_time_def answers_def Let_def split: option.splits if_splits)
qed

lemma ur_callback_ok_iff:
  assumes "ur_stationary env W R G Q"
    and "set_mode_action_client n = Some action" and "resend_robot_program_client n = Some resend"
  shows "ok (fst (ur_clear_faults ms env n)) \<longleftrightarrow>
     set_mode_works W G Q action (Set_Mode_Goal (robot_value ms RUNNING) True True) (action_timeout n)
     \<or> trigger_works W R resend (service_timeout n)"
  by (simp add: ur_clear_faults_run ur_attempts_def ur_restart_def ur_resend_def io_simps case_prod_beta
      assms(2,3) trigger_ok_iff [OF assms(1)] set_mode_ok_iff [OF assms(1)])

text \<open>How long the calls take with such an outside.\<close>

definition trigger_time ::
  "(string \<Rightarrow> nat option) \<Rightarrow> (string \<Rightarrow> ur_request \<Rightarrow> (nat \<times> reply) option) \<Rightarrow> i64 \<Rightarrow> string option \<Rightarrow> nat" where
  "trigger_time W R t client =
    (case client of
       None \<Rightarrow> 0
     | Some c \<Rightarrow> fst (wait_result (W c) 500)
         + (if in_time (W c) 500 then fst (reply_result (R c Trigger) (seconds t)) else 0))"

definition set_mode_time ::
  "(string \<Rightarrow> nat option) \<Rightarrow> (ur_request \<Rightarrow> (nat \<times> nat option) option)
     \<Rightarrow> (nat \<Rightarrow> (nat \<times> wrapped_result) option) \<Rightarrow> string \<Rightarrow> ur_request \<Rightarrow> i64 \<Rightarrow> nat" where
  "set_mode_time W G Q c goal t = fst (wait_result (W c) 1000)
     + (if in_time (W c) 1000
        then fst (reply_result (G goal) 3000)
          + (case snd (reply_result (G goal) 3000) of
               Some (Some handle) \<Rightarrow> fst (reply_result (Q handle) (seconds t))
             | _ \<Rightarrow> 0)
        else 0)"

definition ur_unlock_duration ::
  "ur_msgs \<Rightarrow> ur_node \<Rightarrow> (string \<Rightarrow> nat option) \<Rightarrow> (string \<Rightarrow> ur_request \<Rightarrow> (nat \<times> reply) option) \<Rightarrow> u8 \<Rightarrow> nat" where
  "ur_unlock_duration ms n W R s =
    (let trigger = trigger_time W R (service_timeout n) in
     if s = safety_value ms PROTECTIVE_STOP then trigger (unlock_protective_stop_client n)
     else if s \<in> safety_value ms ` {VIOLATION, FAULT, SAFEGUARD_STOP, AUTOMATIC_MODE_SAFEGUARD_STOP,
         SYSTEM_EMERGENCY_STOP, ROBOT_EMERGENCY_STOP}
     then trigger (close_safety_popup_client n) + trigger (restart_safety_client n) + 500
     else 0)"

definition ur_recovery_time ::
  "ur_msgs \<Rightarrow> ur_node \<Rightarrow> string \<Rightarrow> (string \<Rightarrow> nat option) \<Rightarrow> (string \<Rightarrow> ur_request \<Rightarrow> (nat \<times> reply) option)
     \<Rightarrow> (ur_request \<Rightarrow> (nat \<times> nat option) option) \<Rightarrow> (nat \<Rightarrow> (nat \<times> wrapped_result) option) \<Rightarrow> nat" where
  "ur_recovery_time ms n action W R G Q =
    (let trigger = trigger_time W R (service_timeout n);
         goal = Set_Mode_Goal (robot_value ms RUNNING) True True;
         robot = (case us_robot_mode (un_robot_status n) of Some m \<Rightarrow> m | None \<Rightarrow> robot_value ms DISCONNECTED);
         safety = (case us_safety_mode (un_robot_status n) of Some m \<Rightarrow> m | None \<Rightarrow> safety_value ms UNDEFINED_SAFETY_MODE)
     in (if robot \<in> {robot_value ms DISCONNECTED, robot_value ms NO_CONTROLLER} then trigger (connect_client n) else 0)
      + ur_unlock_duration ms n W R safety
      + trigger (close_safety_popup_client n) + trigger (close_popup_client n)
      + set_mode_time W G Q action goal (action_timeout n)
      + (if set_mode_works W G Q action goal (action_timeout n) then 0
         else trigger (brake_release_client n) + trigger (resend_robot_program_client n)))"

lemma elapsed_ready: "elapsed (ready_events a c t) = fst (wait_result a t)"
  by (simp add: ready_events_def wait_result_def)

lemma in_time_wait: "snd (wait_result a t) = in_time a t"
  by (auto simp: wait_result_def in_time_def split: option.split)

lemma trigger_takes:
  assumes "ur_stationary env W R G Q"
  shows "takes (trigger_time W R t client)
    (\<lambda>r. ok r \<longleftrightarrow> (\<exists>c. client = Some c \<and> trigger_works W R c t)) (ur_call_trigger_service env client t)"
proof (cases client)
  case None
  then show ?thesis
    by (simp add: ur_call_trigger_service_def trigger_time_def takes_return)
next
  case (Some c)
  have time: "elapsed (trace (snd (run_state (ur_call_trigger_service env (Some c) t) w))) =
      elapsed (trace w) + trigger_time W R t (Some c)" for w
    using assms
    by (simp add: run_trigger trigger_time_def ur_stationary_def elapsed_ready in_time_wait Let_def case_prod_beta)
  show ?thesis
    unfolding Some by (simp add: takes_def time trigger_ok_iff [OF assms])
qed

lemma set_mode_takes:
  assumes "ur_stationary env W R G Q"
  shows "takes (set_mode_time W G Q c (Set_Mode_Goal m stop play) t)
    (\<lambda>r. ok r \<longleftrightarrow> set_mode_works W G Q c (Set_Mode_Goal m stop play) t)
    (ur_call_set_mode_action env (Some c) m stop play t)"
proof -
  have time: "elapsed (trace (snd (run_state (ur_call_set_mode_action env (Some c) m stop play t) w))) =
      elapsed (trace w) + set_mode_time W G Q c (Set_Mode_Goal m stop play) t" for w
    using assms
    by (simp add: run_set_mode set_mode_time_def ur_stationary_def elapsed_ready in_time_wait Let_def
        case_prod_beta split: option.split)
  show ?thesis by (simp add: takes_def time set_mode_ok_iff [OF assms])
qed

lemma trigger_takes_any:
  "ur_stationary env W R G Q \<Longrightarrow> takes (trigger_time W R t client) (\<lambda>_. True) (ur_call_trigger_service env client t)"
  by (rule takes_weaken [OF trigger_takes]) simp_all

lemma ur_unlock_takes:
  assumes "ur_stationary env W R G Q"
  shows "takes (ur_unlock_duration ms n W R s) (\<lambda>_. True) (ur_unlock_safety ms env n s)"
proof -
  note call = trigger_takes_any [OF assms, of "service_timeout n"]
  have one: "takes (trigger_time W R (service_timeout n) c + 0) (\<lambda>_. True)
      (do { _ \<leftarrow> ur_call_trigger_service env c (service_timeout n); State_Monad.return () })" for c
    by (intro takes_bind [OF call] takes_return) simp
  have two: "takes (trigger_time W R (service_timeout n) c + (trigger_time W R (service_timeout n) d + 500)) (\<lambda>_. True)
      (do { _ \<leftarrow> ur_call_trigger_service env c (service_timeout n);
        _ \<leftarrow> ur_call_trigger_service env d (service_timeout n); sleep_for 500 })" for c d
    by (intro takes_bind [OF call] takes_sleep) simp
  have none: "takes 0 (\<lambda>_. True) (State_Monad.return ())" by (rule takes_return) simp
  show ?thesis
    unfolding ur_unlock_safety_def ur_unlock_duration_def Let_def using one two none by (auto simp: add.assoc)
qed

lemma ur_attempts_take:
  assumes "ur_stationary env W R G Q"
    and "set_mode_action_client n = Some action" and "resend_robot_program_client n = Some resend"
  shows "takes (ur_recovery_time ms n action W R G Q)
    (\<lambda>r. ok r \<longleftrightarrow> set_mode_works W G Q action (Set_Mode_Goal (robot_value ms RUNNING) True True) (action_timeout n)
       \<or> trigger_works W R resend (service_timeout n))
    (ur_attempts ms env n (un_robot_status n))"
proof -
  note call = trigger_takes_any [OF assms(1), of "service_timeout n"]
  let ?t = "trigger_time W R (service_timeout n)" and ?goal = "Set_Mode_Goal (robot_value ms RUNNING) True True"
  let ?works = "set_mode_works W G Q action ?goal (action_timeout n)"
  let ?robot = "case us_robot_mode (un_robot_status n) of Some m \<Rightarrow> m | None \<Rightarrow> robot_value ms DISCONNECTED"
  let ?safety = "case us_safety_mode (un_robot_status n) of Some m \<Rightarrow> m | None \<Rightarrow> safety_value ms UNDEFINED_SAFETY_MODE"
  have prepare: "takes ((if ?robot \<in> {robot_value ms DISCONNECTED, robot_value ms NO_CONTROLLER} then ?t (connect_client n) else 0)
      + (ur_unlock_duration ms n W R ?safety + (?t (close_safety_popup_client n) + ?t (close_popup_client n)))) (\<lambda>_. True) (ur_prepare ms env n (un_robot_status n))"
    unfolding ur_prepare_def
    by (intro takes_bind [OF takes_if] takes_bind [OF ur_unlock_takes [OF assms(1)]] takes_bind [OF call] call
        takes_return) (simp_all add: call)
  have retry: "takes (?t (brake_release_client n) + ?t (resend_robot_program_client n) + 0)
      (\<lambda>r. ok r \<longleftrightarrow> trigger_works W R resend (service_timeout n))
      (do { resend_status \<leftarrow> ur_resend env n;
        State_Monad.return (if ok resend_status then OkStatus else mk_status kInternal (f resend_status)) })" for f
    unfolding ur_resend_def
    by (intro takes_bind [OF takes_bind [OF call trigger_takes [OF assms(1)]]] takes_return) (simp_all add: assms(3))
  have rest: "takes (if ?works then 0 else ?t (brake_release_client n) + ?t (resend_robot_program_client n))
      (\<lambda>r. ok r \<longleftrightarrow> ?works \<or> trigger_works W R resend (service_timeout n))
      (if ok x then State_Monad.return OkStatus else do { resend_status \<leftarrow> ur_resend env n;
        State_Monad.return (if ok resend_status then OkStatus else mk_status kInternal (f resend_status)) })"
    if "ok x \<longleftrightarrow> ?works" for x f
    using that by (cases ?works) (simp_all add: takes_return retry [unfolded add_0_right])
  note restart = set_mode_takes [OF assms(1), of action "robot_value ms RUNNING" True True "action_timeout n"]
  have sum: "ur_recovery_time ms n action W R G Q =
      ((if ?robot \<in> {robot_value ms DISCONNECTED, robot_value ms NO_CONTROLLER} then ?t (connect_client n) else 0)
        + (ur_unlock_duration ms n W R ?safety + (?t (close_safety_popup_client n) + ?t (close_popup_client n))))
      + (set_mode_time W G Q action ?goal (action_timeout n)
        + (if ?works then 0 else ?t (brake_release_client n) + ?t (resend_robot_program_client n)))"
    by (simp only: ur_recovery_time_def Let_def add.assoc)
  show ?thesis
    unfolding ur_attempts_def ur_restart_def assms(2) sum
    by (intro takes_bind [OF prepare] takes_bind [OF restart] rest)
qed

lemma ur_recovery_works:
  assumes "ur_stationary env W R G Q"
    and "set_mode_action_client n = Some action" and "resend_robot_program_client n = Some resend"
  shows "tr_success (fst (ur_clear_faults_callback ms env n)) \<longleftrightarrow>
      set_mode_works W G Q action (Set_Mode_Goal (robot_value ms RUNNING) True True) (action_timeout n)
      \<or> trigger_works W R resend (service_timeout n)"
    and "elapsed (trace (snd (ur_clear_faults_callback ms env n))) =
      elapsed (trace n) + ur_recovery_time ms n action W R G Q"
proof -
  note run = ur_attempts_take [OF assms, of ms, unfolded takes_def, THEN spec, of n]
  show "tr_success (fst (ur_clear_faults_callback ms env n)) \<longleftrightarrow>
      set_mode_works W G Q action (Set_Mode_Goal (robot_value ms RUNNING) True True) (action_timeout n)
      \<or> trigger_works W R resend (service_timeout n)"
    using run [THEN conjunct1] by (simp add: ur_callback_run ur_clear_faults_run case_prod_beta)
  show "elapsed (trace (snd (ur_clear_faults_callback ms env n))) =
      elapsed (trace n) + ur_recovery_time ms n action W R G Q"
    using run [THEN conjunct2] by (simp add: ur_callback_run ur_clear_faults_run case_prod_beta)
qed

definition ur_driver :: "bool \<Rightarrow> bool \<Rightarrow> ur_env" where
  "ur_driver helper headless = \<lparr>env_wait = (\<lambda>h s. Some 0),
     env_reply = (\<lambda>h s q. Some (0, \<lparr>rp_success = headless, rp_message = []\<rparr>)),
     env_goal = (\<lambda>h q. Some (0, if helper then Some 1 else None)),
     env_result = (\<lambda>h i. Some (0, \<lparr>wr_code = SUCCEEDED,
       wr_result = Some \<lparr>rp_success = True, rp_message = []\<rparr>\<rparr>))\<rparr>"

lemma ur_driver_stationary:
  "ur_stationary (ur_driver helper headless) (\<lambda>s. Some 0)
     (\<lambda>s q. Some (0, \<lparr>rp_success = headless, rp_message = []\<rparr>))
     (\<lambda>q. Some (0, if helper then Some 1 else None))
     (\<lambda>i. Some (0, \<lparr>wr_code = SUCCEEDED, wr_result = Some \<lparr>rp_success = True, rp_message = []\<rparr>\<rparr>))"
  by (simp add: ur_stationary_def ur_driver_def)

lemma ur_clear_requests:
  "\<exists>qs. requests (trace (snd (ur_clear_faults ms env n))) = requests (trace n) @ qs
     \<and> subseq qs (ur_plan ms n (un_robot_status n))"
  using ur_attempts_sends [of ms n "un_robot_status n" env, unfolded sends_within_def, rule_format, of n]
  by (simp add: ur_clear_faults_run case_prod_beta)

text \<open>The one publication is the last thing that happens.\<close>

lemma ur_clear_publishes_last:
  "\<exists>io. trace (snd (ur_clear_faults ms env n)) =
      trace n @ io @ [Published operational_status_topic (node_status n)] \<and> published io = []"
proof -
  obtain r n1 where run: "run_state (ur_attempts ms env n (un_robot_status n)) n = (r, n1)"
    by (cases "run_state (ur_attempts ms env n (un_robot_status n)) n")
  obtain io where io: "trace n1 = trace n @ io"
    using ur_attempts_frame(3) [of ms env n "un_robot_status n"] run unfolding appends_def by (metis snd_conv)
  then have "published io = []" using ur_attempts_keeps(3) [OF run] by simp
  with io show ?thesis by (simp add: ur_clear_faults_run run)
qed

lemma ur_clear_time:
  "elapsed (trace (snd (ur_clear_faults ms env n))) \<le>
     elapsed (trace n) + 8000 + 7 * seconds (service_timeout n) + seconds (action_timeout n)"
proof -
  have "elapsed (trace (snd (run_state (ur_attempts ms env n (un_robot_status n)) n))) \<le>
      elapsed (trace n) + (8000 + 7 * seconds (service_timeout n) + seconds (action_timeout n))"
    using ur_attempts_time [of n ms env "un_robot_status n"] unfolding blocks_at_most_def by blast
  then show ?thesis by (simp add: ur_clear_faults_run case_prod_beta)
qed







lemma distinct_labelsD:
  assumes "distinct_labels ms"
  shows "safety_value ms a = safety_value ms b \<longleftrightarrow> a = b" "robot_value ms c = robot_value ms d \<longleftrightarrow> c = d"
  using assms by (simp_all add: distinct_labels_def inj_eq)

lemma ur_mode_states:
  assumes "distinct_labels ms"
  shows "os_state (ur_mode_status ms m p) = ENABLED \<longleftrightarrow> m = robot_value ms RUNNING \<and> p"
    "os_state (ur_mode_status ms m p) = DISABLED \<longleftrightarrow>
       m \<in> robot_value ms ` {BOOTING, POWER_OFF, POWER_ON, IDLE, BACKDRIVE, UPDATING_FIRMWARE}
       \<or> m = robot_value ms RUNNING \<and> \<not> p"
    "os_state (ur_mode_status ms m p) \<noteq> UNKNOWN"
  by (auto simp: ur_mode_status_def distinct_labelsD [OF assms])

lemma ur_callback_message: "tr_message (fst (ur_clear_faults_callback ms env n)) \<noteq> []"
proof -
  have "st_message (fst (ur_clear_faults ms env n)) \<noteq> []" if "\<not> ok (fst (ur_clear_faults ms env n))"
    using that by (simp add: ur_clear_faults_run ur_attempts_def io_simps case_prod_beta
        ur_failure_message_def split: if_split_asm)
  then show ?thesis by (cases "ur_clear_faults ms env n") (simp add: ur_clear_faults_callback_def)
qed


section \<open>Properties\<close>

text \<open>
  C9: what the UR translation reports. It is \<open>UNKNOWN\<close> exactly until all three topics were heard;
  \<open>ENABLED\<close> exactly in a normal or reduced safety mode with a running robot and program; any other
  safety mode is \<open>FAULTED\<close> whatever the robot mode; \<open>DISABLED\<close> exactly in a normal or reduced safety
  mode when the robot is starting up, idle or running without its program; and every status is
  well formed.
\<close>

theorem ur_status_table:
  assumes "distinct_labels ms"
  shows "let s = ur_to_operational_status ms rs;
      heard = (us_robot_mode rs \<noteq> None \<and> us_safety_mode rs \<noteq> None \<and> us_program_running rs \<noteq> None);
      safe = (us_safety_mode rs \<in> (Some \<circ> safety_value ms) ` {NORMAL, REDUCED}) in
    wf_status s
    \<and> (os_state s = UNKNOWN \<longleftrightarrow> \<not> heard)
    \<and> (heard \<and> \<not> safe \<longrightarrow> os_state s = FAULTED)
    \<and> (os_state s = ENABLED \<longleftrightarrow> safe \<and> us_robot_mode rs = Some (robot_value ms RUNNING)
         \<and> us_program_running rs = Some True)
    \<and> (os_state s = DISABLED \<longleftrightarrow> heard \<and> safe
         \<and> (us_robot_mode rs \<in> (Some \<circ> robot_value ms) `
              {BOOTING, POWER_OFF, POWER_ON, IDLE, BACKDRIVE, UPDATING_FIRMWARE}
            \<or> us_robot_mode rs = Some (robot_value ms RUNNING) \<and> us_program_running rs = Some False))"
proof (cases "us_robot_mode rs = None \<or> us_safety_mode rs = None \<or> us_program_running rs = None")
  case True
  then show ?thesis
    unfolding Let_def by (intro conjI ur_wf) (auto simp: ur_to_operational_status_def)
next
  case False
  then obtain m s p where "us_robot_mode rs = Some m" "us_safety_mode rs = Some s" "us_program_running rs = Some p"
    by auto
  then show ?thesis
    unfolding Let_def
    by (intro conjI ur_wf) (auto simp: ur_to_operational_status_def Let_def ur_mode_states [OF assms])
qed

theorem ur_status_table_witness:
  "os_state (ur_to_operational_status example_ur_msgs \<lparr>us_robot_mode = Some 7, us_safety_mode = Some 99,
     us_program_running = Some True\<rparr>) = FAULTED"
  using ur_status_table [OF example_ur_labels, of "\<lparr>us_robot_mode = Some 7, us_safety_mode = Some 99,
     us_program_running = Some True\<rparr>"]
  by (auto simp: Let_def example_ur_msgs_def)

text \<open>
  C13: the UR recovery keeps its order and its time. Whatever the outside does, the requests are a
  subsequence of the planned ones (connect, unlock or restart by the cached safety mode, dismiss
  popups, SetMode, brake release, resend); the cached status is published exactly once, after everything else; no
  member changes; the handler blocks at most 8 s plus seven service timeouts plus the action timeout.
\<close>

theorem ur_recovery_contract:
  "let n' = snd (ur_clear_faults_callback ms env n) in
     (\<exists>qs. requests (trace n') = requests (trace n) @ qs \<and> subseq qs (ur_plan ms n (un_robot_status n)))
     \<and> (\<exists>io. trace n' = trace n @ io @ [Published operational_status_topic (node_status n)] \<and> published io = [])
     \<and> node_status n' = node_status n \<and> un_robot_status n' = un_robot_status n
     \<and> elapsed (trace n') \<le>
         elapsed (trace n) + 8000 + 7 * seconds (service_timeout n) + seconds (action_timeout n)"
  using ur_clear_requests [of ms env n] ur_clear_time [of ms env n] ur_clear_publishes_last [of ms env n]
  by (simp add: ur_callback_run(1) Let_def)




text \<open>
  C24: what subscribers of the UR node may rely on. After any sequence of callbacks of a fresh node,
  everything published is well formed, the last publication is the cached status, and
  that is the translation of the last value received on each of the three topics.
\<close>

theorem ur_node_reports:
  assumes "ur_create api = Some n" and "n' = fold (ur_step ms) es n"
  shows "list_all wf_status (published (trace n'))
    \<and> (published (trace n') \<noteq> [] \<longrightarrow> last (published (trace n')) = node_status n')
    \<and> node_status n' = ur_to_operational_status ms (latest_status es)"
  using ur_node.fresh_run [where n = n and es = es and ms = ms]
    ur_created(1) [OF assms(1)] ur_created_wf [OF assms(1)] ur_run_status [OF assms(1)] assms(2)
  by simp

theorem ur_node_reports_witness:
  "node_status (fold (ur_step example_ur_msgs)
     [Message (Robot_Mode 7), Message (Safety_Mode 3), Publish_Timer, Message (Program_Running True)]
     example_ur_node) = mk_os FAULTED ''Robot in protective stop. Call clear_faults to unlock.''"
  using ur_node_reports [OF example_ur_created refl, of example_ur_msgs
      "[Message (Robot_Mode 7), Message (Safety_Mode 3), Publish_Timer, Message (Program_Running True)]"]
  by (simp add: latest_status_def last_value_def ur_to_operational_status_def ur_safety_message_def
      example_ur_msgs_def)

end
