(* ===== verification/Fanuc_Node.thy ===== *)
theory Fanuc_Node
  imports Vendor_Node
begin

text \<open>
  \<^verbatim>\<open>FanucOperationalStateNode\<close> (\<^verbatim>\<open>fanuc_operational_state_node.cpp\<close>): the
  translation of the driver's robot status, the node's construction and callbacks, and the alarm
  recovery.
\<close>

section \<open>Translation\<close>

text \<open>
  The driver's message, the fields the code reads. Its two constants are parameters: the message
  definition is not part of the repository.
\<close>

record fanuc_robot_status =
  fs_in_error :: bool
  fs_e_stopped :: bool
  fs_motion_possible :: bool
  fs_tp_enabled :: bool
  fs_contact_stop_mode :: u8

record fanuc_msgs =
  CONTACT_STOP_MODE_NONE :: u8
  CONTACT_STOP_MODE_SAFE :: u8

definition fanuc_to_operational_status ::
  "fanuc_msgs \<Rightarrow> fanuc_robot_status option \<Rightarrow> operational_status" where
  "fanuc_to_operational_status ms robot_status =
    (case robot_status of
       None \<Rightarrow> mk_os UNKNOWN ''Waiting for FANUC robot status messages''
     | Some rs \<Rightarrow>
        (if fs_e_stopped rs
         then mk_os FAULTED
           ''FANUC robot emergency stop is active. Release E-stop and call clear_faults.''
         else if fs_contact_stop_mode rs \<noteq> CONTACT_STOP_MODE_NONE ms
         then mk_os FAULTED
           (if fs_contact_stop_mode rs = CONTACT_STOP_MODE_SAFE ms
            then ''FANUC robot contact stop active. Call clear_faults to recover.''
            else ''FANUC robot contact stop mode '' @ dec_nat (unat (fs_contact_stop_mode rs))
              @ '' active. Call clear_faults to recover.'')
         else if fs_tp_enabled rs
         then mk_os DISABLED ''FANUC teach pendant is enabled (manual control mode).''
         else if fs_in_error rs
         then mk_os FAULTED ''FANUC robot is in error/alarm state. Call clear_faults to recover.''
         else if \<not> fs_motion_possible rs
         then mk_os FAULTED
           ''FANUC robot motion_possible is false. Call clear_faults to restore ROS 2 motion control.''
         else mk_os ENABLED []))"

section \<open>The node\<close>

datatype fanuc_request = Reset_Request | Switch_Control_State int

record fanuc_node = "fanuc_request status_node" +
  reset_client :: string
  switch_control_state_client :: string
  read_error_client :: string

text \<open>Replies are the result codes of the two services.\<close>

type_synonym fanuc_env = "(fanuc_request, operational_status, int) ros_env"

definition fanuc_create :: "node_api \<Rightarrow> fanuc_node option" where
  "fanuc_create api = do {
     publish_rate_hz \<leftarrow> na_declare_double api ''publish_rate_hz'' double_10 (double_0_1, double_1000);
     service_timeout_sec \<leftarrow> na_declare_int api ''service_timeout_sec'' 5 (1, 300);
     Some \<lparr>trace = [],
       node_status = mk_os UNKNOWN ''Waiting for FANUC robot status messages'',
       node_endpoints =
         [Subscription ''/fanuc_gpio_controller/robot_status'' topic_cb_group,
          Publisher ''operational_status'',
          Wall_Timer (na_timer_period api publish_rate_hz) topic_cb_group,
          Service ''clear_faults'' clear_faults_service_cb_group,
          Client ''/fanuc_gpio_controller/reset'' client_cb_group,
          Client ''/fanuc_gpio_controller/switch_control_state'' client_cb_group,
          Client ''/fanuc_gpio_controller/read_error'' client_cb_group],
       service_timeout = service_timeout_sec,
       reset_client = na_service_name api ''/fanuc_gpio_controller/reset'',
       switch_control_state_client = na_service_name api ''/fanuc_gpio_controller/switch_control_state'',
       read_error_client = na_service_name api ''/fanuc_gpio_controller/read_error''\<rparr> }"

definition fanuc_get_operational_status :: "fanuc_node \<Rightarrow> operational_status" where
  "fanuc_get_operational_status n = node_status n"

definition fanuc_robot_status_callback ::
  "fanuc_msgs \<Rightarrow> fanuc_robot_status \<Rightarrow> (fanuc_node, unit) state" where
  "fanuc_robot_status_callback ms msg = do {
     status_to_publish \<leftarrow> locked (\<lambda>n.
       let s = fanuc_to_operational_status ms (Some msg) in (s, n\<lparr>node_status := s\<rparr>));
     publish operational_status_topic status_to_publish }"

definition fanuc_publish_operational_status :: "(fanuc_node, unit) state" where
  "fanuc_publish_operational_status = do {
     status_to_publish \<leftarrow> locked (\<lambda>n. (node_status n, n));
     publish operational_status_topic status_to_publish }"

section \<open>Clearing faults\<close>

definition fanuc_reset ::
  "(fanuc_request, 'm, int, 'e) ros_env_scheme \<Rightarrow> string \<Rightarrow> nat
     \<Rightarrow> ((fanuc_request, 'm, 'z) world_scheme, status) state" where
  "fanuc_reset env client timeout = do {
     there \<leftarrow> wait_for_service env client 2000;
     if \<not> there then State_Monad.return
       (mk_status kUnavailable (''Service '' @ quoted client @ '' is not available''))
     else do {
       reset_res \<leftarrow> send_and_wait env client Reset_Request timeout;
       (case reset_res of
          None \<Rightarrow> State_Monad.return
            (mk_status kDeadlineExceeded (''Timeout waiting for service '' @ quoted client))
        | Some result \<Rightarrow> State_Monad.return
            (if result \<noteq> 0
             then mk_status kInternal (''Reset service failed with error code: '' @ dec_int result)
             else OkStatus)) } }"

definition fanuc_switch_control_state ::
  "(fanuc_request, 'm, int, 'e) ros_env_scheme \<Rightarrow> string \<Rightarrow> nat
     \<Rightarrow> ((fanuc_request, 'm, 'z) world_scheme, status) state" where
  "fanuc_switch_control_state env client timeout = do {
     there \<leftarrow> wait_for_service env client 2000;
     if \<not> there then State_Monad.return
       (mk_status kUnavailable (''Service '' @ quoted client @ '' is not available''))
     else do {
       switch_res \<leftarrow> send_and_wait env client (Switch_Control_State 1) timeout;
       (case switch_res of
          None \<Rightarrow> State_Monad.return
            (mk_status kDeadlineExceeded (''Timeout waiting for service '' @ quoted client))
        | Some result \<Rightarrow> State_Monad.return
            (if result \<noteq> 0
             then mk_status kInternal
               (''Switching control state failed with error code: '' @ dec_int result)
             else OkStatus)) } }"

definition fanuc_clear_faults_steps ::
  "(fanuc_request, 'm, int, 'e) ros_env_scheme \<Rightarrow> string \<Rightarrow> string \<Rightarrow> nat
     \<Rightarrow> ((fanuc_request, 'm, 'z) world_scheme, status) state" where
  "fanuc_clear_faults_steps env reset switch timeout =
     return_if_error (fanuc_reset env reset timeout)
       (do { _ \<leftarrow> sleep_for 200; fanuc_switch_control_state env switch timeout })"

definition fanuc_clear_faults :: "fanuc_env \<Rightarrow> fanuc_node \<Rightarrow> status \<times> fanuc_node" where
  "fanuc_clear_faults env n =
     run_state (fanuc_clear_faults_steps env (reset_client n) (switch_control_state_client n)
       (seconds (service_timeout n))) n"

definition fanuc_clear_faults_callback :: "fanuc_env \<Rightarrow> fanuc_node \<Rightarrow> trigger_response \<times> fanuc_node" where
  "fanuc_clear_faults_callback env n =
     (case fanuc_clear_faults env n of (status, n') \<Rightarrow>
       (\<lparr>tr_success = ok status,
         tr_message = (if ok status then ''Successfully reset alarms and restored ROS 2 motion control.''
           else st_message status)\<rparr>, n'))"

fun fanuc_step ::
  "fanuc_msgs \<Rightarrow> (fanuc_robot_status, fanuc_env) node_event \<Rightarrow> fanuc_node \<Rightarrow> fanuc_node" where
  "fanuc_step ms (Message msg) n = snd (run_state (fanuc_robot_status_callback ms msg) n)"
| "fanuc_step ms Publish_Timer n = snd (run_state fanuc_publish_operational_status n)"
| "fanuc_step ms (Clear_Faults_Request env) n = snd (fanuc_clear_faults_callback env n)"

text \<open>The executable.\<close>

definition fanuc_main :: "node_api \<Rightarrow> fanuc_node process option" where
  "fanuc_main api = do {
     node \<leftarrow> fanuc_create api;
     Some \<lparr>pr_executor = MultiThreadedExecutor, pr_nodes = [node], pr_exit = EXIT_SUCCESS\<rparr> }"

section \<open>Facts about the operations\<close>

lemma fanuc_reset_round:
  "fanuc_reset env client t = round_trip env client Reset_Request 2000 t
     (mk_status kUnavailable (''Service '' @ quoted client @ '' is not available''))
     (mk_status kDeadlineExceeded (''Timeout waiting for service '' @ quoted client))
     (\<lambda>r. if r \<noteq> 0 then mk_status kInternal (''Reset service failed with error code: '' @ dec_int r)
          else OkStatus)"
  by (simp only: fanuc_reset_def round_trip_def)

lemma fanuc_switch_round:
  "fanuc_switch_control_state env client t = round_trip env client (Switch_Control_State 1) 2000 t
     (mk_status kUnavailable (''Service '' @ quoted client @ '' is not available''))
     (mk_status kDeadlineExceeded (''Timeout waiting for service '' @ quoted client))
     (\<lambda>r. if r \<noteq> 0
          then mk_status kInternal (''Switching control state failed with error code: '' @ dec_int r)
          else OkStatus)"
  by (simp only: fanuc_switch_control_state_def round_trip_def)

text \<open>The recovery is two calls in sequence, so it inherits the contract of both.\<close>

definition fanuc_plan :: "string \<Rightarrow> string \<Rightarrow> (string \<times> fanuc_request) list" where
  "fanuc_plan reset switch = [(reset, Reset_Request), (switch, Switch_Control_State 1)]"

interpretation fanuc_reset: status_call "fanuc_reset env reset t" "[(reset, Reset_Request)]" "2000 + t"
  for env :: "(fanuc_request, 'm, int, 'e) ros_env_scheme" and reset t
  unfolding fanuc_reset_round by (rule round_trip_within) simp_all

interpretation fanuc_switch: status_call
  "do { _ \<leftarrow> sleep_for 200; fanuc_switch_control_state env switch t }"
  "[(switch, Switch_Control_State 1)]" "200 + (2000 + t)"
  for env :: "(fanuc_request, 'm, int, 'e) ros_env_scheme" and switch t
  unfolding fanuc_switch_round
  by (rule status_call_after_sleep, rule round_trip_within) simp_all

interpretation fanuc_recovery: call_sequence
  "fanuc_reset env reset t" "[(reset, Reset_Request)]" "2000 + t"
  "do { _ \<leftarrow> sleep_for 200; fanuc_switch_control_state env switch t }"
  "[(switch, Switch_Control_State 1)]" "200 + (2000 + t)"
  for env :: "(fanuc_request, 'm, int, 'e) ros_env_scheme" and reset switch t
  by unfold_locales

lemma fanuc_recovery_call:
  "status_call (fanuc_clear_faults_steps env reset switch t) (fanuc_plan reset switch) (4200 + 2 * t)"
  using status_call_mono [OF fanuc_recovery.both.status_call_axioms [of env reset t switch],
      of "4200 + 2 * t"]
  by (simp add: fanuc_clear_faults_steps_def fanuc_plan_def)

lemma fanuc_recovery_quiet [frame_rules]:
  "publishes_nothing (fanuc_clear_faults_steps env reset switch t)"
  unfolding fanuc_clear_faults_steps_def fanuc_reset_round fanuc_switch_round
  by (intro frame_rules)

lemma fanuc_clear_faults_trace:
  "snd (fanuc_clear_faults env n) = n\<lparr>trace := trace (snd (fanuc_clear_faults env n))\<rparr>"
  "published (trace (snd (fanuc_clear_faults env n))) = published (trace n)"
  "node_status (snd (fanuc_clear_faults env n)) = node_status n"
proof -
  show *: "snd (fanuc_clear_faults env n) = n\<lparr>trace := trace (snd (fanuc_clear_faults env n))\<rparr>"
    using status_call.only_logs [OF fanuc_recovery_call [of env "reset_client n"
          "switch_control_state_client n" "seconds (service_timeout n)"]]
    unfolding logs_only_def fanuc_clear_faults_def by blast
  show "published (trace (snd (fanuc_clear_faults env n))) = published (trace n)"
    using fanuc_recovery_quiet unfolding publishes_nothing_def fanuc_clear_faults_def by blast
  show "node_status (snd (fanuc_clear_faults env n)) = node_status n"
    by (subst *) simp
qed

lemma fanuc_callback_run:
  "snd (fanuc_clear_faults_callback env n) = snd (fanuc_clear_faults env n)"
  "tr_success (fst (fanuc_clear_faults_callback env n)) = ok (fst (fanuc_clear_faults env n))"
  by (simp_all add: fanuc_clear_faults_callback_def split: prod.split)

lemma fanuc_wf: "wf_status (fanuc_to_operational_status ms s)"
  by (simp add: fanuc_to_operational_status_def wf_status_def split: option.split)

lemma fanuc_step_status [simp]:
  "node_status (fanuc_step ms (Message m) n) = fanuc_to_operational_status ms (Some m)"
  "node_status (fanuc_step ms Publish_Timer n) = node_status n"
  "node_status (fanuc_step ms (Clear_Faults_Request env) n) = node_status n"
  "published (trace (fanuc_step ms (Message m) n)) =
     published (trace n) @ [fanuc_to_operational_status ms (Some m)]"
  "published (trace (fanuc_step ms Publish_Timer n)) = published (trace n) @ [node_status n]"
  "published (trace (fanuc_step ms (Clear_Faults_Request env) n)) = published (trace n)"
  by (simp_all add: fanuc_robot_status_callback_def fanuc_publish_operational_status_def
      io_simps Let_def publish_def fanuc_callback_run fanuc_clear_faults_trace(2,3))

declare fanuc_step.simps [simp del]

text \<open>The node keeps the contract of a status publisher.\<close>

interpretation fanuc_node: status_publisher "fanuc_step ms" node_status "\<lambda>n. published (trace n)"
  for ms
proof
  show "\<exists>k. published (trace (fanuc_step ms e n)) =
      published (trace n) @ replicate k (node_status (fanuc_step ms e n))
      \<and> (k = 0 \<longrightarrow> node_status (fanuc_step ms e n) = node_status n)" for e n
    by (cases e) (auto intro: exI [of _ "0::nat"] exI [of _ "Suc 0"])
  show "wf_status (node_status n) \<Longrightarrow> wf_status (node_status (fanuc_step ms e n))" for e n
    by (cases e) (simp_all add: fanuc_wf)
qed

lemma fanuc_created:
  assumes "fanuc_create api = Some n"
  shows "trace n = []" "node_status n = fanuc_to_operational_status ms None"
    "sound_wiring (node_endpoints n)"
    "honours_ranges api \<Longrightarrow> 1 \<le> sint (service_timeout n) \<and> sint (service_timeout n) \<le> 300"
    "list_ex is_client (node_endpoints n)"
proof -
  show "list_ex is_client (node_endpoints n)"
    using assms by (auto simp: fanuc_create_def split: Option.bind_splits)
  show "trace n = []" "node_status n = fanuc_to_operational_status ms None"
    using assms by (auto simp: fanuc_create_def fanuc_to_operational_status_def split: Option.bind_splits)
  show "sound_wiring (node_endpoints n)"
    by (rule sound_wiringI; use assms in \<open>auto simp: fanuc_create_def split: Option.bind_splits\<close>)
  show "1 \<le> sint (service_timeout n) \<and> sint (service_timeout n) \<le> 300" if "honours_ranges api"
    using assms that by (fastforce simp: fanuc_create_def honours_ranges_def split: Option.bind_splits)
qed

lemma fanuc_run_status:
  "node_status n = fanuc_to_operational_status ms m \<Longrightarrow>
     node_status (fold (fanuc_step ms) es n) = fanuc_to_operational_status ms (last_message es m)"
proof (induction es arbitrary: n m)
  case (Cons e es)
  then show ?case by (cases e) simp_all
qed simp

lemma fanuc_calls_explained:
  "\<not> ok (fst (run_state (fanuc_reset env c t) w)) \<Longrightarrow>
     st_message (fst (run_state (fanuc_reset env c t) w)) \<noteq> []"
  "\<not> ok (fst (run_state (fanuc_switch_control_state env c t) w)) \<Longrightarrow>
     st_message (fst (run_state (fanuc_switch_control_state env c t) w)) \<noteq> []"
  by (auto simp: fanuc_reset_round fanuc_switch_round run_round_trip Let_def
      split: prod.splits option.splits)

lemma fanuc_error_explained:
  "\<not> ok (fst (fanuc_clear_faults env n)) \<Longrightarrow> st_message (fst (fanuc_clear_faults env n)) \<noteq> []"
  by (simp add: fanuc_clear_faults_def fanuc_clear_faults_steps_def io_simps sleep_for_def
      case_prod_beta fanuc_calls_explained split: if_split_asm)

lemma fanuc_callback_message: "tr_message (fst (fanuc_clear_faults_callback env n)) \<noteq> []"
  using fanuc_error_explained [of env n]
  by (auto simp: fanuc_clear_faults_callback_def split: prod.split)

lemma fanuc_created_wf: "fanuc_create api = Some n \<Longrightarrow> wf_status (node_status n)"
  using fanuc_created(2) fanuc_wf by metis

text \<open>When the recovery succeeds, and how long that takes.\<close>

lemma fanuc_recovery_works:
  assumes "stationary env W R"
  shows "tr_success (fst (fanuc_clear_faults_callback env n)) \<longleftrightarrow>
      in_time (W (reset_client n)) 2000
      \<and> answers (R (reset_client n) Reset_Request) (seconds (service_timeout n)) (\<lambda>r. r = 0)
      \<and> in_time (W (switch_control_state_client n)) 2000
      \<and> answers (R (switch_control_state_client n) (Switch_Control_State 1))
          (seconds (service_timeout n)) (\<lambda>r. r = 0)"
    and "tr_success (fst (fanuc_clear_faults_callback env n)) \<Longrightarrow>
      elapsed (trace (snd (fanuc_clear_faults_callback env n))) = elapsed (trace n)
        + the (W (reset_client n)) + fst (the (R (reset_client n) Reset_Request)) + 200
        + the (W (switch_control_state_client n))
        + fst (the (R (switch_control_state_client n) (Switch_Control_State 1)))"
proof -
  show "tr_success (fst (fanuc_clear_faults_callback env n)) \<longleftrightarrow>
      in_time (W (reset_client n)) 2000
      \<and> answers (R (reset_client n) Reset_Request) (seconds (service_timeout n)) (\<lambda>r. r = 0)
      \<and> in_time (W (switch_control_state_client n)) 2000
      \<and> answers (R (switch_control_state_client n) (Switch_Control_State 1))
          (seconds (service_timeout n)) (\<lambda>r. r = 0)"
    by (auto simp: fanuc_callback_run fanuc_clear_faults_def fanuc_clear_faults_steps_def io_simps
        sleep_for_def case_prod_beta fanuc_reset_round fanuc_switch_round round_trip_ok_iff [OF assms])
  assume "tr_success (fst (fanuc_clear_faults_callback env n))"
  then show "elapsed (trace (snd (fanuc_clear_faults_callback env n))) = elapsed (trace n)
        + the (W (reset_client n)) + fst (the (R (reset_client n) Reset_Request)) + 200
        + the (W (switch_control_state_client n))
        + fst (the (R (switch_control_state_client n) (Switch_Control_State 1)))"
    by (simp add: fanuc_callback_run fanuc_clear_faults_def fanuc_clear_faults_steps_def io_simps
        sleep_for_def case_prod_beta fanuc_reset_round fanuc_switch_round round_trip_ok_time [OF assms]
        split: if_split_asm)
qed

text \<open>A concrete node, message definition and drivers.\<close>

definition example_fanuc_node :: fanuc_node where
  "example_fanuc_node = the (fanuc_create default_api)"

definition fanuc_driver :: "int \<Rightarrow> fanuc_env" where
  "fanuc_driver code = \<lparr>env_wait = (\<lambda>h s. Some 100), env_reply = (\<lambda>h s q. Some (50, code))\<rparr>"

definition example_fanuc_msgs :: fanuc_msgs where
  "example_fanuc_msgs = \<lparr>CONTACT_STOP_MODE_NONE = 0, CONTACT_STOP_MODE_SAFE = 2\<rparr>"

lemma example_fanuc_created: "fanuc_create default_api = Some example_fanuc_node"
  by (simp add: example_fanuc_node_def fanuc_create_def default_api_def)

lemma example_fanuc_node_sel:
  "trace example_fanuc_node = []" "service_timeout example_fanuc_node = 5"
  "reset_client example_fanuc_node = ''/fanuc_gpio_controller/reset''"
  "switch_control_state_client example_fanuc_node = ''/fanuc_gpio_controller/switch_control_state''"
  by (simp_all add: example_fanuc_node_def fanuc_create_def default_api_def)

lemma fanuc_driver_stationary:
  "stationary (fanuc_driver code) (\<lambda>s. Some 100) (\<lambda>s q. Some (50, code))"
  by (simp add: stationary_def fanuc_driver_def)

section \<open>Properties\<close>

text \<open>
  C10: what the FANUC translation reports. It is \<open>UNKNOWN\<close> exactly before the first message,
  \<open>ENABLED\<close> exactly when motion is possible and nothing stands against it (no emergency stop,
  contact stop, teach pendant or alarm), \<open>DISABLED\<close> exactly for an enabled teach pendant without
  emergency or contact stop, and \<open>FAULTED\<close> otherwise; a fault is always explained.
\<close>

theorem fanuc_status_table:
  "(os_state (fanuc_to_operational_status ms s) = UNKNOWN \<longleftrightarrow> s = None)
   \<and> (os_state (fanuc_to_operational_status ms s) = ENABLED \<longleftrightarrow>
       (\<exists>r. s = Some r \<and> fs_motion_possible r \<and> \<not> fs_e_stopped r \<and> \<not> fs_in_error r
          \<and> \<not> fs_tp_enabled r \<and> fs_contact_stop_mode r = CONTACT_STOP_MODE_NONE ms))
   \<and> (os_state (fanuc_to_operational_status ms s) = DISABLED \<longleftrightarrow>
       (\<exists>r. s = Some r \<and> fs_tp_enabled r \<and> \<not> fs_e_stopped r
          \<and> fs_contact_stop_mode r = CONTACT_STOP_MODE_NONE ms))
   \<and> wf_status (fanuc_to_operational_status ms s)"
proof (intro conjI)
  show "wf_status (fanuc_to_operational_status ms s)" by (rule fanuc_wf)
qed (auto simp: fanuc_to_operational_status_def split: option.split)

text \<open>
  C15: the FANUC recovery keeps its order and its time. Whatever the driver does, the handler
  sends the alarm reset before the switch of the control authority, the switch only after a successful
  reset; it reports success only after both, blocks at most 4.2 s plus twice the service timeout,
  publishes nothing and changes no member; a failure is explained.
\<close>

theorem fanuc_recovery_contract:
  "\<exists>qs. requests (trace (snd (fanuc_clear_faults_callback env n))) = requests (trace n) @ qs
     \<and> prefix qs (fanuc_plan (reset_client n) (switch_control_state_client n))
     \<and> (tr_success (fst (fanuc_clear_faults_callback env n)) \<longrightarrow>
          qs = fanuc_plan (reset_client n) (switch_control_state_client n))
     \<and> elapsed (trace (snd (fanuc_clear_faults_callback env n))) \<le>
         elapsed (trace n) + 4200 + 2 * seconds (service_timeout n)
     \<and> published (trace (snd (fanuc_clear_faults_callback env n))) = published (trace n)
     \<and> node_status (snd (fanuc_clear_faults_callback env n)) = node_status n
     \<and> tr_message (fst (fanuc_clear_faults_callback env n)) \<noteq> []"
proof -
  note call = fanuc_recovery_call [of env "reset_client n" "switch_control_state_client n"
      "seconds (service_timeout n)"]
  show ?thesis
    using status_call.follows_plan [OF call, of n] status_call.in_time [OF call]
      fanuc_clear_faults_trace(2,3) [of env n] fanuc_callback_message [of env n]
    by (auto simp: fanuc_callback_run fanuc_clear_faults_def blocks_at_most_def
        add.assoc)
qed

lemma fanuc_driver_accepts: "tr_success (fst (fanuc_clear_faults_callback (fanuc_driver 0) example_fanuc_node))"
  by (simp add: fanuc_callback_run fanuc_clear_faults_def fanuc_clear_faults_steps_def io_simps
      sleep_for_def case_prod_beta fanuc_reset_round fanuc_switch_round in_time_def answers_def
      round_trip_ok_iff [OF fanuc_driver_stationary] example_fanuc_node_sel seconds_def)

theorem fanuc_recovery_contract_witness:
  "tr_success (fst (fanuc_clear_faults_callback (fanuc_driver 0) example_fanuc_node))
   \<and> requests (trace (snd (fanuc_clear_faults_callback (fanuc_driver 0) example_fanuc_node))) =
       [(''/fanuc_gpio_controller/reset'', Reset_Request),
        (''/fanuc_gpio_controller/switch_control_state'', Switch_Control_State 1)]"
  using fanuc_recovery_contract [of "fanuc_driver 0" example_fanuc_node] fanuc_driver_accepts
  by (auto simp: example_fanuc_node_sel fanuc_plan_def)

text \<open>
  When the FANUC recovery succeeds. With a driver whose answers do not depend on the past, it
  succeeds exactly when each service appears within 2 s and answers 0 within the timeout.
\<close>

theorem fanuc_recovery_succeeds_iff:
  assumes "stationary env W R"
  shows "tr_success (fst (fanuc_clear_faults_callback env n)) \<longleftrightarrow>
     in_time (W (reset_client n)) 2000
     \<and> answers (R (reset_client n) Reset_Request) (seconds (service_timeout n)) (\<lambda>r. r = 0)
     \<and> in_time (W (switch_control_state_client n)) 2000
     \<and> answers (R (switch_control_state_client n) (Switch_Control_State 1))
         (seconds (service_timeout n)) (\<lambda>r. r = 0)"
  by (rule fanuc_recovery_works(1) [OF assms])

theorem fanuc_recovery_succeeds_iff_witness:
  "tr_success (fst (fanuc_clear_faults_callback (fanuc_driver 0) example_fanuc_node))
   \<and> \<not> tr_success (fst (fanuc_clear_faults_callback (fanuc_driver 7) example_fanuc_node))"
  using fanuc_recovery_succeeds_iff [OF fanuc_driver_stationary, of 0 example_fanuc_node]
    fanuc_recovery_succeeds_iff [OF fanuc_driver_stationary, of 7 example_fanuc_node]
  by (simp add: in_time_def answers_def example_fanuc_node_sel seconds_def)

text \<open>
  What subscribers of the FANUC node may rely on. After any sequence of callbacks of a fresh
  node, everything published is well formed, the last publication is the cached status,
  and that is the translation of the last message received.
\<close>

theorem fanuc_node_reports:
  assumes "fanuc_create api = Some n" and "n' = fold (fanuc_step ms) es n"
  shows "list_all wf_status (published (trace n'))
    \<and> (published (trace n') \<noteq> [] \<longrightarrow> last (published (trace n')) = node_status n')
    \<and> node_status n' = fanuc_to_operational_status ms (last_message es None)"
proof -
  have n: "trace n = []" "node_status n = fanuc_to_operational_status ms None"
    using fanuc_created(1,2) [OF assms(1)] by blast+
  then have "wf_status (node_status n)" by (simp add: fanuc_wf)
  with n show ?thesis
    using fanuc_node.fresh_run [of n ms es] fanuc_run_status [OF n(2), of es] assms(2) by simp
qed

theorem fanuc_node_reports_witness:
  "node_status (fold (fanuc_step example_fanuc_msgs)
     [Publish_Timer,
      Message \<lparr>fs_in_error = True, fs_e_stopped = True, fs_motion_possible = False,
        fs_tp_enabled = False, fs_contact_stop_mode = 0\<rparr>,
      Clear_Faults_Request (fanuc_driver 0)] example_fanuc_node)
   = mk_os FAULTED
       ''FANUC robot emergency stop is active. Release E-stop and call clear_faults.''"
  using fanuc_node_reports [OF example_fanuc_created refl, of example_fanuc_msgs
     "[Publish_Timer,
       Message \<lparr>fs_in_error = True, fs_e_stopped = True, fs_motion_possible = False,
         fs_tp_enabled = False, fs_contact_stop_mode = 0\<rparr>,
       Clear_Faults_Request (fanuc_driver 0)]"]
  by (simp add: fanuc_to_operational_status_def example_fanuc_msgs_def)

end
