(* ===== verification/Khi_Node.thy ===== *)
theory Khi_Node
  imports Vendor_Node
begin

text \<open>
  \<^verbatim>\<open>KhiOperationalStateNode\<close> (\<^verbatim>\<open>khi_operational_state_node.cpp\<close>): the
  translation of the driver's error info, the node's construction and callbacks, and the error reset.
\<close>

section \<open>Translation\<close>

record khi_error_info =
  ke_error_codes :: "int list"
  ke_error_msgs :: "string list"

definition khi_error_details :: "khi_error_info \<Rightarrow> string" where
  "khi_error_details error_info =
    (let error_details = join_loop ''; '' (ke_error_msgs error_info) [] in
     if error_details = []
     then join_loop '', '' (map dec_int (ke_error_codes error_info)) error_details
     else error_details)"

definition khi_to_operational_status :: "khi_error_info option \<Rightarrow> operational_status" where
  "khi_to_operational_status error_info =
    (case error_info of
       None \<Rightarrow> mk_os ENABLED []
     | Some info \<Rightarrow>
        (if ke_error_codes info = [] then mk_os ENABLED []
         else mk_os FAULTED (''KHI robot error active: '' @ khi_error_details info
           @ ''. Call clear_faults to recover.'')))"

section \<open>The node\<close>

datatype khi_request = Reset_Error

record khi_reply =
  kr_success :: bool
  kr_error_msgs :: "string list"

record khi_node = "khi_request status_node" +
  reset_error_client :: string

type_synonym khi_env = "(khi_request, operational_status, khi_reply) ros_env"

definition khi_create :: "node_api \<Rightarrow> khi_node option" where
  "khi_create api = do {
     publish_rate_hz \<leftarrow> na_declare_double api ''publish_rate_hz'' double_10 (double_0_1, double_1000);
     service_timeout_sec \<leftarrow> na_declare_int api ''service_timeout_sec'' 5 (1, 300);
     controller_no \<leftarrow> na_declare_int api ''controller_no'' 0 (0, 15);
     reset_error_service \<leftarrow> na_declare_string api ''reset_error_service''
       (''/khi_controller'' @ dec_int (sint controller_no) @ ''/khi_service/reset_error'');
     error_info_topic \<leftarrow> na_declare_string api ''error_info_topic''
       (''/khi_controller'' @ dec_int (sint controller_no) @ ''/khi_publisher/error_info'');
     Some \<lparr>trace = [],
       node_status = mk_os ENABLED [],
       node_endpoints =
         [Subscription error_info_topic topic_cb_group,
          Publisher ''operational_status'',
          Wall_Timer (na_timer_period api publish_rate_hz) topic_cb_group,
          Service ''clear_faults'' clear_faults_service_cb_group,
          Client reset_error_service client_cb_group],
       service_timeout = service_timeout_sec,
       reset_error_client = na_service_name api reset_error_service\<rparr> }"

definition khi_get_operational_status :: "khi_node \<Rightarrow> operational_status" where
  "khi_get_operational_status n = node_status n"

definition khi_error_info_callback :: "khi_error_info \<Rightarrow> (khi_node, unit) state" where
  "khi_error_info_callback msg = do {
     status_to_publish \<leftarrow> locked (\<lambda>n.
       let s = khi_to_operational_status (Some msg) in (s, n\<lparr>node_status := s\<rparr>));
     publish operational_status_topic status_to_publish }"

definition khi_publish_operational_status :: "(khi_node, unit) state" where
  "khi_publish_operational_status = do {
     status_to_publish \<leftarrow> locked (\<lambda>n. (node_status n, n));
     publish operational_status_topic status_to_publish }"

section \<open>Clearing faults\<close>

definition khi_reset_failure :: "khi_reply \<Rightarrow> string" where
  "khi_reset_failure res =
    (let details = join_loop ''; '' (kr_error_msgs res) [] in
     ''KHI reset error service failed: '' @ (if details = [] then ''unknown error'' else details))"

definition khi_reset_error ::
  "(khi_request, 'm, khi_reply, 'e) ros_env_scheme \<Rightarrow> string \<Rightarrow> nat
     \<Rightarrow> ((khi_request, 'm, 'z) world_scheme, status) state" where
  "khi_reset_error env client timeout = do {
     there \<leftarrow> wait_for_service env client 2000;
     if \<not> there then State_Monad.return
       (mk_status kUnavailable (''Service '' @ quoted client @ '' is not available''))
     else do {
       reset_res \<leftarrow> send_and_wait env client Reset_Error timeout;
       (case reset_res of
          None \<Rightarrow> State_Monad.return
            (mk_status kDeadlineExceeded (''Timeout waiting for service '' @ quoted client))
        | Some res \<Rightarrow> State_Monad.return
            (if \<not> kr_success res then mk_status kInternal (khi_reset_failure res)
             else OkStatus)) } }"

definition khi_clear_faults :: "khi_env \<Rightarrow> khi_node \<Rightarrow> status \<times> khi_node" where
  "khi_clear_faults env n =
     run_state (return_if_error
       (khi_reset_error env (reset_error_client n) (seconds (service_timeout n)))
       (do { _ \<leftarrow> locked (\<lambda>n. ((), n\<lparr>node_status := mk_os ENABLED []\<rparr>));
             _ \<leftarrow> khi_publish_operational_status;
             State_Monad.return OkStatus })) n"

definition khi_clear_faults_callback :: "khi_env \<Rightarrow> khi_node \<Rightarrow> trigger_response \<times> khi_node" where
  "khi_clear_faults_callback env n =
     (case khi_clear_faults env n of (status, n') \<Rightarrow>
       (\<lparr>tr_success = ok status,
         tr_message = (if ok status then ''Successfully reset KHI error.'' else st_message status)\<rparr>,
        n'))"

fun khi_step :: "(khi_error_info, khi_env) node_event \<Rightarrow> khi_node \<Rightarrow> khi_node" where
  "khi_step (Message msg) n = snd (run_state (khi_error_info_callback msg) n)"
| "khi_step Publish_Timer n = snd (run_state khi_publish_operational_status n)"
| "khi_step (Clear_Faults_Request env) n = snd (khi_clear_faults_callback env n)"

text \<open>The executable.\<close>

definition khi_main :: "node_api \<Rightarrow> khi_node process option" where
  "khi_main api = do {
     node \<leftarrow> khi_create api;
     Some \<lparr>pr_executor = MultiThreadedExecutor, pr_nodes = [node], pr_exit = EXIT_SUCCESS\<rparr> }"

section \<open>Facts about the operations\<close>

lemma khi_reset_round:
  "khi_reset_error env client t = round_trip env client Reset_Error 2000 t
     (mk_status kUnavailable (''Service '' @ quoted client @ '' is not available''))
     (mk_status kDeadlineExceeded (''Timeout waiting for service '' @ quoted client))
     (\<lambda>r. if \<not> kr_success r then mk_status kInternal (khi_reset_failure r) else OkStatus)"
  by (simp only: khi_reset_error_def round_trip_def)

interpretation khi_reset: status_call "khi_reset_error env client t" "[(client, Reset_Error)]" "2000 + t"
  for env :: "(khi_request, 'm, khi_reply, 'e) ros_env_scheme" and client t
  unfolding khi_reset_round by (rule round_trip_within) simp_all

lemma khi_reset_quiet [frame_rules]: "publishes_nothing (khi_reset_error env client t)"
  unfolding khi_reset_round by (intro frame_rules)

text \<open>The call on the node and what the node does with its result.\<close>

definition khi_call :: "khi_env \<Rightarrow> khi_node \<Rightarrow> status \<times> khi_node" where
  "khi_call env n = run_state (khi_reset_error env (reset_error_client n) (seconds (service_timeout n))) n"

lemma khi_call_frame:
  "published (trace (snd (khi_call env n))) = published (trace n)"
  "node_status (snd (khi_call env n)) = node_status n"
proof -
  show "published (trace (snd (khi_call env n))) = published (trace n)"
    using khi_reset_quiet unfolding publishes_nothing_def khi_call_def by blast
  have "snd (khi_call env n) = n\<lparr>trace := trace (snd (khi_call env n))\<rparr>"
    using khi_reset.only_logs unfolding logs_only_def khi_call_def by blast
  then show "node_status (snd (khi_call env n)) = node_status n"
    by (metis status_node.select_convs(1) world.update_convs(1) status_node.surjective world.select_convs(1))
qed

lemma khi_clear_faults_run:
  "khi_clear_faults env n =
     (let (r, n1) = khi_call env n in
      if ok r then (OkStatus, n1\<lparr>node_status := mk_os ENABLED [],
        trace := trace n1 @ [Published operational_status_topic (mk_os ENABLED [])]\<rparr>)
      else (r, n1))"
  by (simp add: khi_clear_faults_def khi_call_def khi_publish_operational_status_def io_simps publish_def
      split: prod.split)

lemma khi_callback_run:
  "snd (khi_clear_faults_callback env n) = snd (khi_clear_faults env n)"
  "tr_success (fst (khi_clear_faults_callback env n)) = ok (fst (khi_call env n))"
  by (simp_all add: khi_clear_faults_callback_def khi_clear_faults_run split: prod.split)

lemma khi_clear_faults_success:
  assumes "khi_clear_faults_callback env n = (response, n')" and "tr_success response"
  shows "published (trace n') = published (trace n) @ [mk_os ENABLED []]"
    and "requests (trace n') = requests (trace n) @ [(reset_error_client n, Reset_Error)]"
    and "node_status n' = mk_os ENABLED []"
proof -
  have okay: "ok (fst (khi_call env n))" using khi_callback_run(2) [of env n] assms by simp
  have n': "n' = snd (khi_clear_faults env n)" using khi_callback_run(1) [of env n] assms(1) by simp
  have "requests (trace (snd (khi_call env n))) = requests (trace n) @ [(reset_error_client n, Reset_Error)]"
    using khi_reset.ok_sends_all okay unfolding khi_call_def by blast
  then show "published (trace n') = published (trace n) @ [mk_os ENABLED []]"
    "requests (trace n') = requests (trace n) @ [(reset_error_client n, Reset_Error)]"
    "node_status n' = mk_os ENABLED []"
    unfolding n' khi_clear_faults_run case_prod_beta
    using okay khi_call_frame [of env n] by (simp_all add: Let_def case_prod_beta)
qed

lemma khi_wf: "wf_status (khi_to_operational_status s)"
  by (simp add: khi_to_operational_status_def wf_status_def split: option.split)

lemma khi_step_status [simp]:
  "node_status (khi_step (Message m) n) = khi_to_operational_status (Some m)"
  "node_status (khi_step Publish_Timer n) = node_status n"
  "node_status (khi_step (Clear_Faults_Request env) n) =
     (if ok (fst (khi_call env n)) then mk_os ENABLED [] else node_status n)"
  "published (trace (khi_step (Message m) n)) =
     published (trace n) @ [khi_to_operational_status (Some m)]"
  "published (trace (khi_step Publish_Timer n)) = published (trace n) @ [node_status n]"
  "published (trace (khi_step (Clear_Faults_Request env) n)) = published (trace n) @
     (if ok (fst (khi_call env n)) then [mk_os ENABLED []] else [])"
  using khi_call_frame [of env n]
  by (simp_all add: khi_error_info_callback_def khi_publish_operational_status_def
      io_simps Let_def publish_def khi_callback_run(1) khi_clear_faults_run case_prod_beta)

declare khi_step.simps [simp del]

interpretation khi_node: status_publisher khi_step node_status "\<lambda>n. published (trace n)"
proof
  show "\<exists>k. published (trace (khi_step e n)) =
      published (trace n) @ replicate k (node_status (khi_step e n))
      \<and> (k = 0 \<longrightarrow> node_status (khi_step e n) = node_status n)" for e n
    by (cases e) (auto intro: exI [of _ "0::nat"] exI [of _ "Suc 0"])
  show "wf_status (node_status n) \<Longrightarrow> wf_status (node_status (khi_step e n))" for e n
    by (cases e) (simp_all add: khi_wf, simp add: wf_status_def)
qed

lemma khi_created:
  assumes "khi_create api = Some n"
  shows "trace n = []" "node_status n = khi_to_operational_status None"
    "sound_wiring (node_endpoints n)"
    "honours_ranges api \<Longrightarrow> 1 \<le> sint (service_timeout n) \<and> sint (service_timeout n) \<le> 300"
    "list_ex is_client (node_endpoints n)"
proof -
  show "list_ex is_client (node_endpoints n)"
    using assms by (auto simp: khi_create_def split: Option.bind_splits)
  show "trace n = []" "node_status n = khi_to_operational_status None"
    using assms by (auto simp: khi_create_def khi_to_operational_status_def split: Option.bind_splits)
  show "sound_wiring (node_endpoints n)"
    by (rule sound_wiringI; use assms in \<open>auto simp: khi_create_def split: Option.bind_splits\<close>)
  show "1 \<le> sint (service_timeout n) \<and> sint (service_timeout n) \<le> 300" if "honours_ranges api"
    using assms that by (fastforce simp: khi_create_def honours_ranges_def split: Option.bind_splits)
qed

lemma khi_call_explained:
  "\<not> ok (fst (run_state (khi_reset_error env c t) w)) \<Longrightarrow>
     st_message (fst (run_state (khi_reset_error env c t) w)) \<noteq> []"
  by (auto simp: khi_reset_round run_round_trip Let_def khi_reset_failure_def
      split: prod.splits option.splits if_split_asm)

lemma khi_callback_message: "tr_message (fst (khi_clear_faults_callback env n)) \<noteq> []"
  using khi_call_explained [of env "reset_error_client n" "seconds (service_timeout n)" n]
  by (auto simp: khi_clear_faults_callback_def khi_clear_faults_run khi_call_def split: prod.split)

text \<open>When the recovery succeeds, and how long that takes.\<close>

lemma khi_recovery_works:
  assumes "stationary env W R"
  shows "tr_success (fst (khi_clear_faults_callback env n)) \<longleftrightarrow>
      in_time (W (reset_error_client n)) 2000
      \<and> answers (R (reset_error_client n) Reset_Error) (seconds (service_timeout n)) kr_success"
    and "tr_success (fst (khi_clear_faults_callback env n)) \<Longrightarrow>
      elapsed (trace (snd (khi_clear_faults_callback env n))) = elapsed (trace n)
        + the (W (reset_error_client n)) + fst (the (R (reset_error_client n) Reset_Error))"
proof -
  let ?t = "seconds (service_timeout n)"
  show "tr_success (fst (khi_clear_faults_callback env n)) \<longleftrightarrow>
      in_time (W (reset_error_client n)) 2000 \<and> answers (R (reset_error_client n) Reset_Error) ?t kr_success"
    by (auto simp: khi_callback_run khi_call_def khi_reset_round round_trip_ok_iff [OF assms] answers_def)
  show "elapsed (trace (snd (khi_clear_faults_callback env n))) = elapsed (trace n)
        + the (W (reset_error_client n)) + fst (the (R (reset_error_client n) Reset_Error))"
    if "tr_success (fst (khi_clear_faults_callback env n))"
  proof -
    have "ok (fst (khi_call env n))" using that by (simp add: khi_callback_run)
    then show ?thesis
      using round_trip_ok_time [OF assms, of _ _ "reset_error_client n" Reset_Error 2000 ?t _ n]
      by (simp add: khi_callback_run khi_clear_faults_run khi_call_def khi_reset_round case_prod_beta Let_def)
  qed
qed

text \<open>A concrete node and driver.\<close>

definition example_khi_node :: khi_node where
  "example_khi_node = the (khi_create default_api)"

definition khi_driver :: "bool \<Rightarrow> khi_env" where
  "khi_driver success = \<lparr>env_wait = (\<lambda>h s. Some 0),
     env_reply = (\<lambda>h s q. Some (0, \<lparr>kr_success = success, kr_error_msgs = []\<rparr>))\<rparr>"

lemma dec_nat_digit [simp]: "n < 10 \<Longrightarrow> dec_nat n = [digit n]"
  by (subst dec_nat.simps) simp

lemma example_khi_created: "khi_create default_api = Some example_khi_node"
  by (simp add: example_khi_node_def khi_create_def default_api_def)

lemma example_khi_node_sel:
  "trace example_khi_node = []" "node_status example_khi_node = mk_os ENABLED []"
  "service_timeout example_khi_node = 5"
  "reset_error_client example_khi_node = ''/khi_controller0/khi_service/reset_error''"
  by (simp_all add: example_khi_node_def khi_create_def default_api_def dec_int_def digit_def)

lemma khi_driver_answers:
  "tr_success (fst (khi_clear_faults_callback (khi_driver b) example_khi_node)) = b"
  by (simp add: khi_callback_run khi_call_def khi_reset_round run_round_trip khi_driver_def
      wait_result_def reply_result_def example_khi_node_sel seconds_def)

lemma join_codes: "join_loop '', '' (map dec_int cs) [] = intercalate '', '' (map dec_int cs)"
  by (cases cs) (simp_all add: join_loop_eq)

section \<open>Properties\<close>

text \<open>
  C11: what the KHI translation reports. No error codes (or no message yet) is \<open>ENABLED\<close> without
  text; error codes are \<open>FAULTED\<close> with all the error texts joined by semicolons from the first
  non-empty one on, or, when all texts are empty, the error codes joined by commas.
\<close>

theorem khi_status_table:
  "khi_to_operational_status s =
     (case s of
        Some info \<Rightarrow>
          if ke_error_codes info = [] then mk_os ENABLED []
          else mk_os FAULTED (''KHI robot error active: '' @
            (if \<exists>m \<in> set (ke_error_msgs info). m \<noteq> []
             then intercalate ''; '' (dropWhile (\<lambda>m. m = []) (ke_error_msgs info))
             else intercalate '', '' (map dec_int (ke_error_codes info)))
            @ ''. Call clear_faults to recover.'')
      | None \<Rightarrow> mk_os ENABLED [])"
proof -
  have "khi_error_details i =
     (if \<exists>m \<in> set (ke_error_msgs i). m \<noteq> []
      then intercalate ''; '' (dropWhile (\<lambda>m. m = []) (ke_error_msgs i))
      else intercalate '', '' (map dec_int (ke_error_codes i)))" for i
    using join_loop_empty [of "''; ''" "ke_error_msgs i"] join_codes
    unfolding khi_error_details_def by (auto simp: Let_def join_loop_eq)
  then show ?thesis by (auto simp: khi_to_operational_status_def split: option.split)
qed

text \<open>Reading the error codes off a status message.\<close>

fun fields :: "char \<Rightarrow> string \<Rightarrow> string list" where
  "fields c [] = [[]]"
| "fields c (x # xs) =
     (if x = c then [] # fields c xs
      else case fields c xs of [] \<Rightarrow> [[x]] | f # fs \<Rightarrow> (x # f) # fs)"

lemma fields_single: "c \<notin> set xs \<Longrightarrow> fields c xs = [xs]"
  by (induction xs) auto

lemma fields_append: "c \<notin> set xs \<Longrightarrow> fields c (xs @ c # ys) = xs # fields c ys"
  by (induction xs) auto

definition read_codes :: "string \<Rightarrow> int list" where
  "read_codes s = map (\<lambda>f. read_int (dropWhile (\<lambda>c. c = CHR 0x20) f)) (fields (CHR '','') s)"

lemma read_codes_space: "read_codes (CHR 0x20 # s) = read_codes s"
proof -
  have "fields c s \<noteq> []" for c by (cases s) (simp_all split: list.split)
  then obtain f fs where "fields (CHR '','') s = f # fs" by (metis list.exhaust)
  then show ?thesis by (simp add: read_codes_def)
qed

lemma read_field: "read_int (dropWhile (\<lambda>c. c = CHR 0x20) (dec_int i)) = i"
proof -
  have "dropWhile (\<lambda>c. c = CHR 0x20) (dec_int i) = dec_int i"
    using dec_int_chars [of i] by (cases "dec_int i") auto
  then show ?thesis by simp
qed

lemma read_codes_intercalate:
  "cs \<noteq> [] \<Longrightarrow> read_codes (intercalate '', '' (map dec_int cs)) = cs"
proof (induction cs)
  case (Cons c cs)
  have sep: "CHR '','' \<notin> set (dec_int c)" using dec_int_chars [of c] by auto
  show ?case
  proof (cases cs)
    case Nil
    then show ?thesis by (simp add: read_codes_def fields_single [OF sep] read_field)
  next
    case (Cons d ds)
    let ?rest = "intercalate '', '' (map dec_int cs)"
    have "intercalate '', '' (map dec_int (c # cs)) = dec_int c @ CHR '','' # CHR 0x20 # ?rest"
      using Cons by simp
    then have "read_codes (intercalate '', '' (map dec_int (c # cs))) = c # read_codes (CHR 0x20 # ?rest)"
      by (simp add: read_codes_def fields_append [OF sep] read_field)
    then show ?thesis using Cons.IH Cons by (simp add: read_codes_space)
  qed
qed simp

definition khi_message_prefix :: string where
  "khi_message_prefix = ''KHI robot error active: ''"

definition khi_message_suffix :: string where
  "khi_message_suffix = ''. Call clear_faults to recover.''"

text \<open>
  C32: no error code is lost on the way to the operator. When the driver sends error codes without texts,
  the codes can be read off the published message again, all of them, with their signs and in their
  order: what stands between the fixed beginning and the fixed end is their decimal list.
\<close>

theorem khi_codes_readable:
  assumes "ke_error_codes info \<noteq> []" and "list_all (\<lambda>m. m = []) (ke_error_msgs info)"
  shows "\<exists>details. os_message (khi_to_operational_status (Some info)) =
      khi_message_prefix @ details @ khi_message_suffix
    \<and> read_codes details = ke_error_codes info"
proof -
  have "join_loop ''; '' (ke_error_msgs info) [] = []"
    using assms(2) by (simp add: join_loop_empty list_all_iff)
  then have "khi_error_details info = intercalate '', '' (map dec_int (ke_error_codes info))"
    by (simp add: khi_error_details_def join_codes)
  then show ?thesis
    using assms(1) read_codes_intercalate [OF assms(1)]
    by (intro exI [of _ "khi_error_details info"])
       (simp add: khi_to_operational_status_def khi_message_prefix_def khi_message_suffix_def)
qed

theorem khi_codes_readable_witness:
  "\<exists>details. os_message (khi_to_operational_status (Some \<lparr>ke_error_codes = [-31135, 7], ke_error_msgs = [[]]\<rparr>)) =
      khi_message_prefix @ details @ khi_message_suffix \<and> read_codes details = [-31135, 7]"
  using khi_codes_readable [of "\<lparr>ke_error_codes = [-31135, 7], ke_error_msgs = [[]]\<rparr>"] by simp

text \<open>
  C16: the KHI recovery. The handler sends at most the one reset request and blocks at most 2 s plus
  the service timeout. On success it has sent it, caches \<open>ENABLED\<close> and publishes exactly that once;
  on failure it publishes nothing, keeps the cached status and explains the error.
\<close>

theorem khi_recovery_contract:
  "(let (response, n') = khi_clear_faults_callback env n in
     elapsed (trace n') \<le> elapsed (trace n) + 2000 + seconds (service_timeout n)
     \<and> tr_message response \<noteq> []
     \<and> (if tr_success response
        then requests (trace n') = requests (trace n) @ [(reset_error_client n, Reset_Error)]
          \<and> node_status n' = mk_os ENABLED []
          \<and> published (trace n') = published (trace n) @ [mk_os ENABLED []]
        else prefix (requests (trace n')) (requests (trace n) @ [(reset_error_client n, Reset_Error)])
          \<and> node_status n' = node_status n
          \<and> published (trace n') = published (trace n)))"
proof -
  obtain r n1 where c: "khi_call env n = (r, n1)" by (cases "khi_call env n")
  obtain qs where qs: "requests (trace n1) = requests (trace n) @ qs"
      "prefix qs [(reset_error_client n, Reset_Error)]" "ok r \<longrightarrow> qs = [(reset_error_client n, Reset_Error)]"
    using khi_reset.follows_plan [of env "reset_error_client n" "seconds (service_timeout n)" n] c
    unfolding khi_call_def by auto
  have "elapsed (trace n1) \<le> elapsed (trace n) + (2000 + seconds (service_timeout n))"
    using khi_reset.in_time [where client = "reset_error_client n" and env = env and t = "seconds (service_timeout n)"] c
    unfolding khi_call_def blocks_at_most_def by (metis snd_conv)
  moreover have "tr_message (fst (khi_clear_faults_callback env n)) \<noteq> []"
    by (rule khi_callback_message)
  ultimately show ?thesis
    using qs c khi_call_frame [of env n]
    by (auto simp: khi_clear_faults_callback_def khi_clear_faults_run prefix_Cons)
qed

text \<open>
  C19: a KHI fault is latched. Once an error with codes was received, the node reports that fault
  until another message arrives or a \<^verbatim>\<open>clear_faults\<close> request succeeds: timers and failed
  requests never clear it.
\<close>

theorem khi_fault_latched:
  assumes "\<forall>e \<in> set es. \<forall>m'. e \<noteq> Message m'"
    and "node_status (fold khi_step es (khi_step (Message m) n)) \<noteq> khi_to_operational_status (Some m)"
  shows "\<exists>before env after. es = before @ Clear_Faults_Request env # after
     \<and> tr_success (fst (khi_clear_faults_callback env (fold khi_step before (khi_step (Message m) n))))"
  using assms
proof (induction es rule: rev_induct)
  case (snoc e es)
  let ?k = "fold khi_step es (khi_step (Message m) n)"
  show ?case
  proof (cases "node_status ?k = khi_to_operational_status (Some m)")
    case True
    then obtain env where "e = Clear_Faults_Request env" "ok (fst (khi_call env ?k))"
      using snoc.prems by (cases e) (auto split: if_split_asm)
    then show ?thesis by (metis khi_callback_run(2))
  next
    case False
    then obtain before env after where "es = before @ Clear_Faults_Request env # after"
        "tr_success (fst (khi_clear_faults_callback env (fold khi_step before (khi_step (Message m) n))))"
      using snoc by auto
    then show ?thesis by (metis append.assoc append_Cons)
  qed
qed simp

theorem khi_fault_latched_witness:
  "\<exists>before env after. [Publish_Timer, Clear_Faults_Request (khi_driver True)] =
       before @ Clear_Faults_Request env # after
     \<and> tr_success (fst (khi_clear_faults_callback env (fold khi_step before (khi_step
          (Message \<lparr>ke_error_codes = [-31135], ke_error_msgs = [''Motor power OFF'']\<rparr>) example_khi_node))))"
proof (rule khi_fault_latched)
  let ?m = "\<lparr>ke_error_codes = [-31135], ke_error_msgs = [''Motor power OFF'']\<rparr>"
  have [simp]: "ok (fst (khi_call (khi_driver True) n))" for n
    by (simp add: khi_call_def khi_reset_round run_round_trip khi_driver_def wait_result_def
        reply_result_def seconds_def)
  show "node_status (fold khi_step [Publish_Timer, Clear_Faults_Request (khi_driver True)]
      (khi_step (Message ?m) example_khi_node)) \<noteq> khi_to_operational_status (Some ?m)"
    by (simp add: khi_to_operational_status_def)
qed simp

text \<open>
  What subscribers of the KHI node may rely on. After any sequence of callbacks of a fresh node,
  everything published is well formed and the last publication is the cached status.
\<close>

theorem khi_node_reports:
  assumes "khi_create api = Some n" and "n' = fold khi_step es n"
  shows "list_all wf_status (published (trace n'))
    \<and> (published (trace n') \<noteq> [] \<longrightarrow> last (published (trace n')) = node_status n')"
  using khi_node.fresh_run [of n es] khi_created(1,2) [OF assms(1)] khi_wf [of None] assms(2) by simp

theorem khi_node_reports_witness:
  "last (published (trace (fold khi_step
     [Message \<lparr>ke_error_codes = [-31135], ke_error_msgs = [''Motor power OFF'']\<rparr>] example_khi_node)))
   = mk_os FAULTED ''KHI robot error active: Motor power OFF. Call clear_faults to recover.''"
  using khi_node_reports [OF example_khi_created refl,
     of "[Message \<lparr>ke_error_codes = [-31135], ke_error_msgs = [''Motor power OFF'']\<rparr>]"]
  by (simp add: khi_to_operational_status_def khi_error_details_def)

end
