(* ===== verification/Node_Threads.thy ===== *)
theory Node_Threads
  imports Ur_Node Fanuc_Node Khi_Node
begin

text \<open>
  The vendor nodes under the multi-threaded executor. The callback groups allow one status callback
  (a message or the publish timer) and one \<^verbatim>\<open>clear_faults\<close> handler to run at the same time;
  what they share is the cached status, read and written only under the mutex. One step is one critical
  section or one publication; \<^verbatim>\<open>Node_Locks\<close> opens the sections up and shows that this loses nothing. The three nodes differ in what they translate, whether a successful
  recovery overwrites the cached status, and whether the handler publishes at its end.
\<close>

section \<open>The machine\<close>

record 'm node_design =
  nd_translate :: "'m list \<Rightarrow> operational_status"
  nd_overwrite :: "operational_status option"
  nd_republishes :: "bool \<Rightarrow> bool"

datatype clear_pc = Idle | Waiting | Answered bool | Overwritten | Copied operational_status

record 'm threads =
  received :: "'m list"
  cached :: operational_status
  topic_pc :: "operational_status option"
  clear_pc :: clear_pc
  on_topic :: "operational_status list"

datatype 'm action =
  Receive 'm | Tick | Publish_Topic | Request | Answer bool | Overwrite | Copy | Publish_Clear

definition start :: "'m node_design \<Rightarrow> 'm threads" where
  "start d = \<lparr>received = [], cached = nd_translate d [], topic_pc = None, clear_pc = Idle, on_topic = []\<rparr>"

text \<open>\<open>None\<close>: the action is not enabled.\<close>

fun thread_step :: "'m node_design \<Rightarrow> 'm action \<Rightarrow> 'm threads \<Rightarrow> 'm threads option" where
  "thread_step d (Receive m) s =
     (if topic_pc s = None
      then let status = nd_translate d (received s @ [m]) in
        Some (s\<lparr>received := received s @ [m], cached := status, topic_pc := Some status\<rparr>)
      else None)"
| "thread_step d Tick s = (if topic_pc s = None then Some (s\<lparr>topic_pc := Some (cached s)\<rparr>) else None)"
| "thread_step d Publish_Topic s =
     (case topic_pc s of
        Some status \<Rightarrow> Some (s\<lparr>topic_pc := None, on_topic := on_topic s @ [status]\<rparr>)
      | None \<Rightarrow> None)"
| "thread_step d Request s = (if clear_pc s = Idle then Some (s\<lparr>clear_pc := Waiting\<rparr>) else None)"
| "thread_step d (Answer success) s =
     (if clear_pc s = Waiting
      then Some (s\<lparr>clear_pc := (if nd_republishes d success then Answered success else Idle)\<rparr>)
      else None)"
| "thread_step d Overwrite s =
     (case nd_overwrite d of
        Some v \<Rightarrow> if clear_pc s = Answered True then Some (s\<lparr>cached := v, clear_pc := Overwritten\<rparr>) else None
      | None \<Rightarrow> None)"
| "thread_step d Copy s =
     (if clear_pc s = Overwritten \<or> clear_pc s = Answered False
         \<or> clear_pc s = Answered True \<and> nd_overwrite d = None
      then Some (s\<lparr>clear_pc := Copied (cached s)\<rparr>) else None)"
| "thread_step d Publish_Clear s =
     (case clear_pc s of
        Copied status \<Rightarrow> Some (s\<lparr>clear_pc := Idle, on_topic := on_topic s @ [status]\<rparr>)
      | _ \<Rightarrow> None)"

fun run_threads :: "'m node_design \<Rightarrow> 'm action list \<Rightarrow> 'm threads \<Rightarrow> 'm threads option" where
  "run_threads d [] s = Some s"
| "run_threads d (a # as) s = Option.bind (thread_step d a s) (run_threads d as)"

inductive thread_reachable :: "'m node_design \<Rightarrow> 'm threads \<Rightarrow> bool" for d where
  initially: "thread_reachable d (start d)"
| act: "thread_reachable d s \<Longrightarrow> thread_step d a s = Some s' \<Longrightarrow> thread_reachable d s'"

lemma run_reachable:
  "thread_reachable d s \<Longrightarrow> run_threads d as s = Some s' \<Longrightarrow> thread_reachable d s'"
  by (induction "as" arbitrary: s) (auto split: Option.bind_splits intro: act)

text \<open>A state in which no handler is running.\<close>

definition quiescent :: "'m threads \<Rightarrow> bool" where
  "quiescent s \<longleftrightarrow> topic_pc s = None \<and> clear_pc s = Idle"

section \<open>The three designs\<close>

definition nothing_heard :: ur_robot_status where
  "nothing_heard = \<lparr>us_robot_mode = None, us_safety_mode = None, us_program_running = None\<rparr>"

definition ur_design :: "ur_msgs \<Rightarrow> ur_message node_design" where
  "ur_design ms = \<lparr>nd_translate = (\<lambda>msgs. ur_to_operational_status ms (fold ur_record_message msgs nothing_heard)),
     nd_overwrite = None, nd_republishes = (\<lambda>success. True)\<rparr>"

definition last_of :: "'a list \<Rightarrow> 'a option" where
  "last_of xs = (if xs = [] then None else Some (last xs))"

definition fanuc_design :: "fanuc_msgs \<Rightarrow> fanuc_robot_status node_design" where
  "fanuc_design ms = \<lparr>nd_translate = (\<lambda>msgs. fanuc_to_operational_status ms (last_of msgs)),
     nd_overwrite = None, nd_republishes = (\<lambda>success. False)\<rparr>"

definition khi_design :: "khi_error_info node_design" where
  "khi_design = \<lparr>nd_translate = (\<lambda>msgs. khi_to_operational_status (last_of msgs)),
     nd_overwrite = Some (mk_os ENABLED []), nd_republishes = (\<lambda>success. success)\<rparr>"

lemmas design_simps = ur_design_def fanuc_design_def khi_design_def

section \<open>Uninterrupted schedules are the callbacks\<close>

text \<open>The actions of one callback that nothing interrupts.\<close>

fun schedule :: "'m node_design \<Rightarrow> ('m, 'e) node_event \<Rightarrow> bool \<Rightarrow> 'm action list" where
  "schedule d (Message m) success = [Receive m, Publish_Topic]"
| "schedule d Publish_Timer success = [Tick, Publish_Topic]"
| "schedule d (Clear_Faults_Request env) success = [Request, Answer success]
     @ (if \<not> nd_republishes d success then []
        else (if success \<and> nd_overwrite d \<noteq> None then [Overwrite] else []) @ [Copy, Publish_Clear])"

lemma run_schedule:
  assumes "quiescent s"
  shows "run_threads d (schedule d e success) s = Some
    (case e of
       Message m \<Rightarrow> s\<lparr>received := received s @ [m], cached := nd_translate d (received s @ [m]),
         on_topic := on_topic s @ [nd_translate d (received s @ [m])]\<rparr>
     | Publish_Timer \<Rightarrow> s\<lparr>on_topic := on_topic s @ [cached s]\<rparr>
     | Clear_Faults_Request env \<Rightarrow>
         (if \<not> nd_republishes d success then s
          else let v = (if success then case nd_overwrite d of Some v \<Rightarrow> v | None \<Rightarrow> cached s else cached s)
            in s\<lparr>cached := v, on_topic := on_topic s @ [v]\<rparr>))"
  using assms
  by (cases e) (auto simp: quiescent_def Let_def split: option.split)

text \<open>A node seen as a quiescent state of the machine.\<close>

definition seen_as :: "('q, 'z) status_node_scheme \<Rightarrow> 'm threads \<Rightarrow> bool" where
  "seen_as n s \<longleftrightarrow> quiescent s \<and> cached s = node_status n \<and> on_topic s = published (trace n)"

definition ur_seen_as :: "ur_node \<Rightarrow> ur_message threads \<Rightarrow> bool" where
  "ur_seen_as n s \<longleftrightarrow> seen_as n s \<and> un_robot_status n = fold ur_record_message (received s) nothing_heard"

lemma last_of_snoc [simp]: "last_of (xs @ [x]) = Some x"
  by (simp add: last_of_def)

lemma khi_schedule:
  assumes "seen_as n s"
  shows "\<exists>s'. run_threads khi_design (schedule khi_design e (case e of Clear_Faults_Request env \<Rightarrow>
      tr_success (fst (khi_clear_faults_callback env n)) | _ \<Rightarrow> True)) s = Some s' \<and> seen_as (khi_step e n) s'"
  using assms run_schedule [of s khi_design e]
  by (cases e) (auto simp: seen_as_def quiescent_def khi_design_def khi_callback_run(2) Let_def)

lemma fanuc_schedule:
  assumes "seen_as n s"
  shows "\<exists>s'. run_threads (fanuc_design ms) (schedule (fanuc_design ms) e success) s = Some s'
    \<and> seen_as (fanuc_step ms e n) s'"
  using assms run_schedule [of s "fanuc_design ms" e]
  by (cases e) (auto simp: seen_as_def quiescent_def fanuc_design_def Let_def)

lemma ur_schedule:
  assumes "ur_seen_as n s"
  shows "\<exists>s'. run_threads (ur_design ms) (schedule (ur_design ms) e success) s = Some s'
    \<and> ur_seen_as (ur_step ms e n) s'"
  using assms run_schedule [of s "ur_design ms" e]
  by (cases e) (auto simp: ur_seen_as_def seen_as_def quiescent_def ur_design_def Let_def)

section \<open>Invariants of every interleaving\<close>

text \<open>A design whose statuses are well formed.\<close>

definition wf_design :: "'m node_design \<Rightarrow> bool" where
  "wf_design d \<longleftrightarrow> (\<forall>ms. wf_status (nd_translate d ms)) \<and> (\<forall>v. nd_overwrite d = Some v \<longrightarrow> wf_status v)"

lemma designs_wf: "wf_design (ur_design um)" "wf_design (fanuc_design fm)" "wf_design khi_design"
  by (simp_all add: wf_design_def design_simps ur_wf fanuc_wf khi_wf) (simp add: wf_status_def)

definition threads_wf :: "'m threads \<Rightarrow> bool" where
  "threads_wf s \<longleftrightarrow> wf_status (cached s) \<and> list_all wf_status (on_topic s)
     \<and> (\<forall>x. topic_pc s = Some x \<longrightarrow> wf_status x) \<and> (\<forall>x. clear_pc s = Copied x \<longrightarrow> wf_status x)"

lemma threads_wf_step:
  "wf_design d \<Longrightarrow> thread_step d a s = Some s' \<Longrightarrow> threads_wf s \<Longrightarrow> threads_wf s'"
  by (cases a) (auto simp: wf_design_def threads_wf_def Let_def split: if_split_asm option.split_asm clear_pc.split_asm)

lemma threads_wf_reachable: "thread_reachable d s \<Longrightarrow> wf_design d \<Longrightarrow> threads_wf s"
proof (induction rule: thread_reachable.induct)
  case initially
  then show ?case by (simp add: start_def threads_wf_def wf_design_def)
qed (blast intro: threads_wf_step)

text \<open>Where nothing overwrites it, the cached status is the translation of what was received.\<close>

lemma threads_translate_step:
  "nd_overwrite d = None \<Longrightarrow> thread_step d a s = Some s' \<Longrightarrow> cached s = nd_translate d (received s) \<Longrightarrow>
     cached s' = nd_translate d (received s')"
  by (cases a) (auto simp: Let_def split: if_split_asm option.split_asm clear_pc.split_asm)

lemma threads_translate:
  "thread_reachable d s \<Longrightarrow> nd_overwrite d = None \<Longrightarrow> cached s = nd_translate d (received s)"
proof (induction rule: thread_reachable.induct)
  case initially
  then show ?case by (simp add: start_def)
qed (blast intro: threads_translate_step)

lemma run_ticks:
  "topic_pc s = None \<Longrightarrow> run_threads d (concat (replicate k [Tick, Publish_Topic])) s =
     Some (s\<lparr>on_topic := on_topic s @ replicate k (cached s)\<rparr>)"
  by (induction k arbitrary: s) simp_all

section \<open>Properties\<close>

text \<open>
  C23: the threads refine the callbacks. Run without interruption, the critical sections and
  publications of each node have exactly the effect of its callback: same cached status, same
  publications, for messages, the timer and the fault clearing.
\<close>

theorem callbacks_are_schedules:
  "(seen_as k sk \<longrightarrow> (\<exists>s'. run_threads khi_design (schedule khi_design ek (case ek of Clear_Faults_Request env \<Rightarrow>
        tr_success (fst (khi_clear_faults_callback env k)) | _ \<Rightarrow> True)) sk = Some s' \<and> seen_as (khi_step ek k) s'))
   \<and> (seen_as f sf \<longrightarrow> (\<exists>s'. run_threads (fanuc_design fm) (schedule (fanuc_design fm) ef fb) sf = Some s'
        \<and> seen_as (fanuc_step fm ef f) s'))
   \<and> (ur_seen_as u su \<longrightarrow> (\<exists>s'. run_threads (ur_design um) (schedule (ur_design um) eu ub) su = Some s'
        \<and> ur_seen_as (ur_step um eu u) s'))"
  using khi_schedule fanuc_schedule ur_schedule by blast

theorem callbacks_are_schedules_witness:
  "\<exists>s. run_threads khi_design [Receive \<lparr>ke_error_codes = [1], ke_error_msgs = []\<rparr>, Publish_Topic]
       (start khi_design) = Some s
     \<and> seen_as (khi_step (Message \<lparr>ke_error_codes = [1], ke_error_msgs = []\<rparr>) example_khi_node) s"
proof -
  have "seen_as example_khi_node (start khi_design)"
    by (simp add: seen_as_def quiescent_def start_def khi_design_def last_of_def example_khi_node_sel
        khi_to_operational_status_def)
  with callbacks_are_schedules [of example_khi_node "start khi_design"
      "Message \<lparr>ke_error_codes = [1], ke_error_msgs = []\<rparr>"]
  show ?thesis by simp
qed

text \<open>
  C20: no interleaving loses a UR or FANUC fault. Whatever the threads do in whatever order, the
  cached status of these nodes is the translation of everything received, and every status any node
  publishes is well formed.
\<close>

theorem no_fault_lost:
  "(thread_reachable (ur_design um) su \<longrightarrow> cached su =
        ur_to_operational_status um (fold ur_record_message (received su) nothing_heard)
        \<and> list_all wf_status (on_topic su))
   \<and> (thread_reachable (fanuc_design fm) sf \<longrightarrow> cached sf = fanuc_to_operational_status fm (last_of (received sf))
        \<and> list_all wf_status (on_topic sf))
   \<and> (thread_reachable khi_design sk \<longrightarrow> list_all wf_status (on_topic sk))"
proof (intro conjI impI)
  have wf: "list_all wf_status (on_topic s)" if "thread_reachable d s" "wf_design d"
    for d :: "'x node_design" and s
    using threads_wf_reachable [OF that] by (simp add: threads_wf_def)
  show "list_all wf_status (on_topic su)" if "thread_reachable (ur_design um) su"
    using that designs_wf(1) by (rule wf)
  show "list_all wf_status (on_topic sf)" if "thread_reachable (fanuc_design fm) sf"
    using that designs_wf(2) by (rule wf)
  show "list_all wf_status (on_topic sk)" if "thread_reachable khi_design sk"
    using that designs_wf(3) by (rule wf)
  show "cached su = ur_to_operational_status um (fold ur_record_message (received su) nothing_heard)"
    if "thread_reachable (ur_design um) su"
    using threads_translate [OF that] by (simp add: ur_design_def)
  show "cached sf = fanuc_to_operational_status fm (last_of (received sf))"
    if "thread_reachable (fanuc_design fm) sf"
    using threads_translate [OF that] by (simp add: fanuc_design_def)
qed

theorem no_fault_lost_witness:
  "\<exists>s. run_threads (fanuc_design example_fanuc_msgs) [Request, Receive \<lparr>fs_in_error = True, fs_e_stopped = True,
       fs_motion_possible = False, fs_tp_enabled = False, fs_contact_stop_mode = 0\<rparr>, Answer True, Publish_Topic]
       (start (fanuc_design example_fanuc_msgs)) = Some s \<and> os_state (cached s) = FAULTED"
proof -
  let ?d = "fanuc_design example_fanuc_msgs"
  let ?m = "\<lparr>fs_in_error = True, fs_e_stopped = True, fs_motion_possible = False, fs_tp_enabled = False,
    fs_contact_stop_mode = 0\<rparr>"
  obtain s where s: "run_threads ?d [Request, Receive ?m, Answer True, Publish_Topic] (start ?d) = Some s"
      "received s = [?m]"
    by (simp add: start_def fanuc_design_def Let_def)
  have "thread_reachable ?d s" by (rule run_reachable [OF initially s(1)])
  then show ?thesis
    using s no_fault_lost by (fastforce simp: last_of_def fanuc_to_operational_status_def)
qed

text \<open>
  C21: a KHI fault can be lost for good. There is an interleaving in which an error arrives after the
  driver confirmed the reset and before the handler overwrites the cached status: once no handler is
  running, the node reports \<open>ENABLED\<close> although the last message received carries an error code, and
  so does everything the timer publishes from then on.
\<close>

theorem khi_fault_lost:
  "\<exists>s m. thread_reachable khi_design s \<and> quiescent s \<and> last_of (received s) = Some m \<and> ke_error_codes m \<noteq> []
     \<and> os_state (cached s) = ENABLED \<and> os_state (last (on_topic s)) = ENABLED
     \<and> (\<forall>k. run_threads khi_design (concat (replicate k [Tick, Publish_Topic])) s =
          Some (s\<lparr>on_topic := on_topic s @ replicate k (mk_os ENABLED [])\<rparr>))"
proof -
  let ?m = "\<lparr>ke_error_codes = [-31135], ke_error_msgs = [''Motor power OFF'']\<rparr>"
  let ?run = "[Request, Answer True, Receive ?m, Publish_Topic, Overwrite, Copy, Publish_Clear]"
  obtain s where s: "run_threads khi_design ?run (start khi_design) = Some s"
    and facts: "quiescent s" "received s = [?m]" "cached s = mk_os ENABLED []" "last (on_topic s) = mk_os ENABLED []"
    by (simp add: start_def khi_design_def Let_def quiescent_def)
  have "thread_reachable khi_design s" by (rule run_reachable [OF initially s])
  with facts show ?thesis
    by (intro exI [of _ s] exI [of _ ?m]) (simp add: last_of_def run_ticks quiescent_def)
qed

text \<open>
  A stale status can be the last one published, until the next timer tick. A publication is made
  outside the mutex, so an interleaving exists in which a KHI subscriber sees \<open>FAULTED\<close> followed by an
  older \<open>ENABLED\<close> while the cached status is \<open>FAULTED\<close>; a tick of the publish timer repairs it in
  every state in which no status callback is running.
\<close>

theorem stale_publication_is_repaired:
  "(\<exists>s. thread_reachable khi_design s \<and> quiescent s \<and> os_state (cached s) = FAULTED
      \<and> map os_state (on_topic s) = [FAULTED, ENABLED])
   \<and> (\<forall>d s. topic_pc s = None \<longrightarrow> (\<exists>s'. run_threads d [Tick, Publish_Topic] s = Some s'
        \<and> last (on_topic s') = cached s' \<and> cached s' = cached s \<and> clear_pc s' = clear_pc s))"
proof (intro conjI allI impI)
  let ?m = "\<lparr>ke_error_codes = [-31135], ke_error_msgs = [''Motor power OFF'']\<rparr>"
  let ?run = "[Request, Answer True, Overwrite, Copy, Receive ?m, Publish_Topic, Publish_Clear]"
  obtain s where s: "run_threads khi_design ?run (start khi_design) = Some s"
    and facts: "quiescent s" "os_state (cached s) = FAULTED" "map os_state (on_topic s) = [FAULTED, ENABLED]"
    by (simp add: start_def khi_design_def Let_def quiescent_def khi_to_operational_status_def last_of_def)
  have "thread_reachable khi_design s" by (rule run_reachable [OF initially s])
  with facts show "\<exists>s. thread_reachable khi_design s \<and> quiescent s \<and> os_state (cached s) = FAULTED
      \<and> map os_state (on_topic s) = [FAULTED, ENABLED]" by (intro exI [of _ s] conjI)
qed simp

theorem stale_publication_is_repaired_witness:
  "\<exists>s'. run_threads khi_design [Tick, Publish_Topic] (start khi_design) = Some s'
     \<and> last (on_topic s') = mk_os ENABLED []"
proof -
  have s: "topic_pc (start khi_design) = None" "cached (start khi_design) = mk_os ENABLED []"
    by (simp_all add: start_def khi_design_def last_of_def khi_to_operational_status_def)
  from stale_publication_is_repaired [THEN conjunct2, rule_format, OF s(1), of khi_design]
  obtain s' where s': "run_threads khi_design [Tick, Publish_Topic] (start khi_design) = Some s'"
      "last (on_topic s') = cached s'" "cached s' = cached (start khi_design)"
    by (elim exE conjE) (rule that)
  show ?thesis
    by (rule exI [of _ s'], intro conjI s'(1)) (simp only: s' s)
qed

end
