(* ===== verification/Node_Locks.thy ===== *)
theory Node_Locks
  imports Node_Threads
begin

text \<open>
  The critical sections of the vendor nodes opened up. The mutex is a resource that one thread holds
  at a time; each \<^verbatim>\<open>MutexLock\<close> scope is a lock, the accesses inside it one by one, and an unlock, so that
  a scope that is too wide or missing shows. The mutex is not recursive: a thread that locks it twice waits for
  itself. What is shown is that the handlers cannot block each other or themselves, and that the machine of
  \<^verbatim>\<open>Node_Threads\<close>, with one step per section, loses no behaviour.
\<close>

section \<open>Instructions and programs\<close>

datatype thread = Topic | Clear

text \<open>
  \<open>Store\<close> records a message and translates, \<open>Assign\<close> overwrites the cached status, \<open>Take\<close> reads the robot's status,
  \<open>Copy_Status\<close> fetches the cached status into the local variable that \<open>Publish_Copy\<close> publishes;
  \<open>Await_Reply\<close> stands for the calls of the driver.
\<close>

datatype 'm instr =
  Lock
| Unlock
| Store 'm
| Assign operational_status
| Take
| Copy_Status
| Publish_Copy
| Await_Reply

record 'm node_code =
  nc_translate :: "'m list \<Rightarrow> operational_status"
  nc_message :: "'m \<Rightarrow> 'm instr list"
  nc_timer :: "'m instr list"
  nc_clear :: "'m instr list"
  nc_after :: "bool \<Rightarrow> 'm instr list"

definition message_code :: "'m \<Rightarrow> 'm instr list" where
  "message_code m = [Lock, Store m, Copy_Status, Unlock, Publish_Copy]"

definition publish_code :: "'m instr list" where
  "publish_code = [Lock, Copy_Status, Unlock, Publish_Copy]"

definition ur_code :: "ur_msgs \<Rightarrow> ur_message node_code" where
  "ur_code ms = \<lparr>nc_translate = (\<lambda>msgs. ur_to_operational_status ms (fold ur_record_message msgs nothing_heard)),
     nc_message = message_code, nc_timer = publish_code,
     nc_clear = [Lock, Take, Unlock, Await_Reply], nc_after = (\<lambda>success. publish_code)\<rparr>"

definition fanuc_code :: "fanuc_msgs \<Rightarrow> fanuc_robot_status node_code" where
  "fanuc_code ms = \<lparr>nc_translate = (\<lambda>msgs. fanuc_to_operational_status ms (last_of msgs)),
     nc_message = message_code, nc_timer = publish_code,
     nc_clear = [Await_Reply], nc_after = (\<lambda>success. [])\<rparr>"

definition khi_code :: "khi_error_info node_code" where
  "khi_code = \<lparr>nc_translate = (\<lambda>msgs. khi_to_operational_status (last_of msgs)),
     nc_message = message_code, nc_timer = publish_code,
     nc_clear = [Await_Reply],
     nc_after = (\<lambda>success. if success then [Lock, Assign (mk_os ENABLED []), Unlock] @ publish_code else [])\<rparr>"

section \<open>The machine\<close>

record 'm locked_node =
  ln_received :: "'m list"
  ln_cached :: operational_status
  ln_on_topic :: "operational_status list"
  ln_mutex :: "thread option"
  ln_pc :: "thread \<Rightarrow> 'm instr list"
  ln_copy :: "thread \<Rightarrow> operational_status"

definition lock_start :: "'m node_code \<Rightarrow> 'm locked_node" where
  "lock_start c = \<lparr>ln_received = [], ln_cached = nc_translate c [], ln_on_topic = [], ln_mutex = None,
     ln_pc = (\<lambda>t. []), ln_copy = (\<lambda>t. nc_translate c [])\<rparr>"

text \<open>\<open>None\<close>: the instruction has to wait.\<close>

fun execute :: "'m node_code \<Rightarrow> thread \<Rightarrow> 'm instr \<Rightarrow> 'm locked_node \<Rightarrow> 'm locked_node option" where
  "execute c t Lock s = (if ln_mutex s = None then Some (s\<lparr>ln_mutex := Some t\<rparr>) else None)"
| "execute c t Unlock s = (if ln_mutex s = Some t then Some (s\<lparr>ln_mutex := None\<rparr>) else None)"
| "execute c t (Store m) s = Some (s\<lparr>ln_received := ln_received s @ [m],
     ln_cached := nc_translate c (ln_received s @ [m])\<rparr>)"
| "execute c t (Assign v) s = Some (s\<lparr>ln_cached := v\<rparr>)"
| "execute c t Take s = Some s"
| "execute c t Copy_Status s = Some (s\<lparr>ln_copy := (ln_copy s)(t := ln_cached s)\<rparr>)"
| "execute c t Publish_Copy s = Some (s\<lparr>ln_on_topic := ln_on_topic s @ [ln_copy s t]\<rparr>)"
| "execute c t Await_Reply s = Some s"

datatype 'm lock_action = Start_Message 'm | Start_Timer | Start_Clear | Step thread bool

definition continue_with :: "thread \<Rightarrow> 'm instr list \<Rightarrow> 'm locked_node \<Rightarrow> 'm locked_node" where
  "continue_with t rest s = s\<lparr>ln_pc := (ln_pc s)(t := rest)\<rparr>"

text \<open>
  The callback groups let a message and the timer wait for each other, and a request for the one before. The
  flag of a step is the driver's verdict, when the thread waits for it.
\<close>

fun lock_step :: "'m node_code \<Rightarrow> 'm lock_action \<Rightarrow> 'm locked_node \<Rightarrow> 'm locked_node option" where
  "lock_step c (Start_Message m) s =
     (if ln_pc s Topic = [] then Some (continue_with Topic (nc_message c m) s) else None)"
| "lock_step c Start_Timer s =
     (if ln_pc s Topic = [] then Some (continue_with Topic (nc_timer c) s) else None)"
| "lock_step c Start_Clear s =
     (if ln_pc s Clear = [] then Some (continue_with Clear (nc_clear c) s) else None)"
| "lock_step c (Step t success) s =
     (case ln_pc s t of
        [] \<Rightarrow> None
      | i # rest \<Rightarrow> map_option (continue_with t (case i of Await_Reply \<Rightarrow> nc_after c success | _ \<Rightarrow> rest))
          (execute c t i s))"

fun run_locks :: "'m node_code \<Rightarrow> 'm lock_action list \<Rightarrow> 'm locked_node \<Rightarrow> 'm locked_node option" where
  "run_locks c [] s = Some s"
| "run_locks c (a # as) s = Option.bind (lock_step c a s) (run_locks c as)"

inductive lock_reachable :: "'m node_code \<Rightarrow> 'm locked_node \<Rightarrow> bool" for c where
  starts: "lock_reachable c (lock_start c)"
| steps: "lock_reachable c s \<Longrightarrow> lock_step c a s = Some s' \<Longrightarrow> lock_reachable c s'"

lemma run_locks_reachable:
  "lock_reachable c s \<Longrightarrow> run_locks c as s = Some s' \<Longrightarrow> lock_reachable c s'"
  by (induction "as" arbitrary: s) (auto split: Option.bind_splits intro: steps)

section \<open>Scopes\<close>

text \<open>
  Every access to shared data lies inside a scope, no scope is opened inside another, every scope is
  closed, and nothing is published or awaited inside one.
\<close>

fun scoped :: "bool \<Rightarrow> 'm instr list \<Rightarrow> bool" where
  "scoped held [] \<longleftrightarrow> \<not> held"
| "scoped held (Lock # rest) \<longleftrightarrow> \<not> held \<and> scoped True rest"
| "scoped held (Unlock # rest) \<longleftrightarrow> held \<and> scoped False rest"
| "scoped held (Publish_Copy # rest) \<longleftrightarrow> \<not> held \<and> scoped False rest"
| "scoped held (Await_Reply # rest) \<longleftrightarrow> \<not> held"
| "scoped held (i # rest) \<longleftrightarrow> held \<and> scoped True rest"

definition scoped_code :: "'m node_code \<Rightarrow> bool" where
  "scoped_code c \<longleftrightarrow> (\<forall>m. scoped False (nc_message c m)) \<and> scoped False (nc_timer c)
     \<and> scoped False (nc_clear c) \<and> (\<forall>b. scoped False (nc_after c b))"

lemma codes_scoped: "scoped_code (ur_code um)" "scoped_code (fanuc_code fm)" "scoped_code khi_code"
  by (simp_all add: scoped_code_def ur_code_def fanuc_code_def khi_code_def message_code_def publish_code_def)

text \<open>Each thread is inside a scope exactly when it holds the mutex.\<close>

definition well_scoped :: "'m locked_node \<Rightarrow> bool" where
  "well_scoped s \<longleftrightarrow> (\<forall>t. scoped (ln_mutex s = Some t) (ln_pc s t))"

lemma execute_frame: "execute c t i s = Some s' \<Longrightarrow> ln_pc s' = ln_pc s"
  by (cases i) (auto split: if_split_asm)

lemma execute_scoped:
  assumes "execute c t i s = Some s'" and "scoped (ln_mutex s = Some t) (i # rest)"
  shows "t' \<noteq> t \<Longrightarrow> (ln_mutex s' = Some t') = (ln_mutex s = Some t')"
    and "i \<noteq> Await_Reply \<Longrightarrow> scoped (ln_mutex s' = Some t) rest"
    and "i = Await_Reply \<Longrightarrow> ln_mutex s' \<noteq> Some t"
  using assms by (cases i; auto split: if_split_asm)+

lemma well_scoped_step:
  assumes "scoped_code c" and "well_scoped s" and "lock_step c a s = Some s'"
  shows "well_scoped s'"
proof (cases a)
  case (Step t b)
  then obtain i rest s1 where pc: "ln_pc s t = i # rest" and run: "execute c t i s = Some s1"
    and s': "s' = continue_with t (case i of Await_Reply \<Rightarrow> nc_after c b | _ \<Rightarrow> rest) s1"
    using assms(3) by (auto split: list.split_asm)
  have here: "scoped (ln_mutex s = Some t) (i # rest)"
    using assms(2) pc unfolding well_scoped_def by metis
  note step = execute_scoped [OF run here]
  have "scoped (ln_mutex s1 = Some t) (case i of Await_Reply \<Rightarrow> nc_after c b | _ \<Rightarrow> rest)"
    using step(2,3) assms(1) by (cases i) (simp_all add: scoped_code_def)
  moreover have "scoped (ln_mutex s1 = Some t') (ln_pc s1 t')" if "t' \<noteq> t" for t'
    using step(1) [OF that] assms(2) execute_frame [OF run] by (simp add: well_scoped_def)
  ultimately show ?thesis by (auto simp: s' well_scoped_def continue_with_def)
qed (use assms in \<open>auto simp: well_scoped_def scoped_code_def continue_with_def split: if_split_asm\<close>,
    metis scoped.simps(1), metis scoped.simps(1), metis scoped.simps(1))

lemma well_scoped_reachable: "lock_reachable c s \<Longrightarrow> scoped_code c \<Longrightarrow> well_scoped s"
proof (induction rule: lock_reachable.induct)
  case starts
  then show ?case by (simp add: well_scoped_def lock_start_def)
qed (blast intro: well_scoped_step)

text \<open>No deadlock: while a handler runs, some thread can go on.\<close>

definition at_rest :: "'m locked_node \<Rightarrow> bool" where
  "at_rest s \<longleftrightarrow> (\<forall>t. ln_pc s t = [])"

lemma can_step:
  assumes "ln_pc s t = i # rest" and "scoped (ln_mutex s = Some t) (i # rest)"
    and "ln_mutex s = None \<or> ln_mutex s = Some t"
  shows "lock_step c (Step t b) s \<noteq> None"
  using assms by (cases i) auto

lemma lock_progress:
  assumes "well_scoped s"
  shows "at_rest s \<longleftrightarrow> (\<forall>t b. lock_step c (Step t b) s = None)"
proof
  show "\<forall>t b. lock_step c (Step t b) s = None" if "at_rest s"
    using that by (simp add: at_rest_def)
  show "at_rest s" if stuck: "\<forall>t b. lock_step c (Step t b) s = None"
  proof (cases "ln_mutex s")
    case None
    show ?thesis
      unfolding at_rest_def
    proof
      fix t
      show "ln_pc s t = []"
      proof (cases "ln_pc s t")
        case (Cons i rest)
        then have "scoped (ln_mutex s = Some t) (i # rest)" using assms unfolding well_scoped_def by metis
        from can_step [OF Cons this] None stuck show ?thesis by blast
      qed
    qed
  next
    case (Some t)
    then have holds: "scoped True (ln_pc s t)" using assms unfolding well_scoped_def by metis
    then obtain i rest where "ln_pc s t = i # rest" by (cases "ln_pc s t") auto
    from can_step [OF this] holds this Some stuck show ?thesis by (metis (full_types))
  qed
qed

text \<open>No livelock: how many steps running handlers have left.\<close>

fun steps_left :: "'m node_code \<Rightarrow> 'm instr list \<Rightarrow> nat" where
  "steps_left c [] = 0"
| "steps_left c (Await_Reply # rest) = Suc (max (length (nc_after c True)) (length (nc_after c False)))"
| "steps_left c (i # rest) = Suc (steps_left c rest)"

definition short_code :: "'m node_code \<Rightarrow> bool" where
  "short_code c \<longleftrightarrow> (\<forall>m. steps_left c (nc_message c m) \<le> 5) \<and> steps_left c (nc_timer c) \<le> 5
     \<and> steps_left c (nc_clear c) \<le> 8 \<and> (\<forall>b. Await_Reply \<notin> set (nc_after c b))"

lemma codes_short: "short_code (ur_code um)" "short_code (fanuc_code fm)" "short_code khi_code"
  by (simp_all add: short_code_def ur_code_def fanuc_code_def khi_code_def message_code_def publish_code_def)

lemma steps_left_length: "Await_Reply \<notin> set prog \<Longrightarrow> steps_left c prog = length prog"
  by (induction c prog rule: steps_left.induct) auto

definition left :: "'m node_code \<Rightarrow> 'm locked_node \<Rightarrow> nat" where
  "left c s = steps_left c (ln_pc s Topic) + steps_left c (ln_pc s Clear)"

lemma step_left:
  assumes "short_code c" and "lock_step c (Step t b) s = Some s'"
  shows "left c s' < left c s" and "steps_left c (ln_pc s' t') \<le> steps_left c (ln_pc s t')"
proof -
  obtain i rest s1 where pc: "ln_pc s t = i # rest" and run: "execute c t i s = Some s1"
    and s': "s' = continue_with t (case i of Await_Reply \<Rightarrow> nc_after c b | _ \<Rightarrow> rest) s1"
    using assms(2) by (auto split: list.split_asm)
  have "steps_left c (nc_after c b) \<le> max (length (nc_after c True)) (length (nc_after c False))"
    using assms(1) steps_left_length [of "nc_after c b" c] by (cases b) (auto simp: short_code_def)
  then have less: "steps_left c (case i of Await_Reply \<Rightarrow> nc_after c b | _ \<Rightarrow> rest) < steps_left c (i # rest)"
    by (cases i) simp_all
  then show "left c s' < left c s"
    using pc execute_frame [OF run] by (cases t) (simp_all add: left_def s' continue_with_def)
  show "steps_left c (ln_pc s' t') \<le> steps_left c (ln_pc s t')"
    using less pc execute_frame [OF run] by (simp add: s' continue_with_def)
qed

lemma left_bound:
  "lock_reachable c s \<Longrightarrow> short_code c \<Longrightarrow> steps_left c (ln_pc s Topic) \<le> 5 \<and> steps_left c (ln_pc s Clear) \<le> 8"
proof (induction rule: lock_reachable.induct)
  case starts
  then show ?case by (simp add: lock_start_def)
next
  case (steps s a s')
  show ?case
  proof (cases a)
    case (Step t b)
    with steps step_left(2) show ?thesis by (meson le_trans)
  qed (use steps in \<open>auto simp: short_code_def continue_with_def split: if_split_asm\<close>)
qed

definition is_step :: "'m lock_action \<Rightarrow> bool" where
  "is_step a \<longleftrightarrow> (case a of Step t b \<Rightarrow> True | _ \<Rightarrow> False)"

lemma run_left:
  "short_code c \<Longrightarrow> list_all is_step as \<Longrightarrow> run_locks c as s = Some s' \<Longrightarrow> length as + left c s' \<le> left c s"
proof (induction "as" arbitrary: s)
  case (Cons a "as")
  then obtain s1 where s1: "lock_step c a s = Some s1" "run_locks c as s1 = Some s'"
    by (auto split: Option.bind_splits)
  have "length as + left c s' \<le> left c s1" using Cons s1 by simp
  also have "left c s1 < left c s"
    using step_left(1) [OF Cons.prems(1)] s1(1) Cons.prems(2) by (cases a) (auto simp: is_step_def)
  finally show ?case by simp
qed simp

section \<open>The locks refine the sections\<close>

text \<open>The program of a node of a given design.\<close>

definition code_of :: "'m instr list \<Rightarrow> 'm node_design \<Rightarrow> 'm node_code" where
  "code_of before d = \<lparr>nc_translate = nd_translate d, nc_message = message_code, nc_timer = publish_code,
     nc_clear = before @ [Await_Reply],
     nc_after = (\<lambda>success. if nd_republishes d success
       then (case nd_overwrite d of
               Some v \<Rightarrow> if success then [Lock, Assign v, Unlock] else []
             | None \<Rightarrow> []) @ publish_code
       else [])\<rparr>"

lemma codes_of_designs:
  "ur_code um = code_of [Lock, Take, Unlock] (ur_design um)" "fanuc_code fm = code_of [] (fanuc_design fm)"
  "khi_code = code_of [] khi_design"
  by (auto simp: ur_code_def fanuc_code_def khi_code_def code_of_def design_simps)

text \<open>
  The sections commit where the shared data is accessed: a message when it is stored, a tick or the handler's copy
  when the status is copied, the overwriting when it is assigned.
\<close>

definition topic_related :: "'m locked_node \<Rightarrow> 'm threads \<Rightarrow> bool" where
  "topic_related s a \<longleftrightarrow>
     (\<exists>m. ln_pc s Topic \<in> {[], message_code m, tl (message_code m), publish_code}) \<and> topic_pc a = None
     \<or> ln_pc s Topic = tl publish_code \<and> (topic_pc a = None \<or> topic_pc a = Some (ln_cached s))
     \<or> ln_pc s Topic \<in> {[Unlock, Publish_Copy], [Publish_Copy]} \<and> topic_pc a = Some (ln_copy s Topic)"

definition clear_related :: "'m node_design \<Rightarrow> 'm locked_node \<Rightarrow> 'm threads \<Rightarrow> bool" where
  "clear_related d s a \<longleftrightarrow>
     ln_pc s Clear = [] \<and> clear_pc a = Idle
     \<or> ln_pc s Clear \<in> {[Lock, Take, Unlock, Await_Reply], [Take, Unlock, Await_Reply], [Unlock, Await_Reply], [Await_Reply]}
         \<and> clear_pc a = Waiting
     \<or> (\<exists>v. ln_pc s Clear \<in> {[Lock, Assign v, Unlock] @ publish_code, [Assign v, Unlock] @ publish_code}
          \<and> nd_overwrite d = Some v \<and> clear_pc a = Answered True)
     \<or> ln_pc s Clear = Unlock # publish_code \<and> clear_pc a = Overwritten
     \<or> ln_pc s Clear \<in> {publish_code, tl publish_code}
         \<and> (clear_pc a = Overwritten \<or> clear_pc a = Answered False \<or> clear_pc a = Answered True \<and> nd_overwrite d = None)
     \<or> ln_pc s Clear \<in> {[Unlock, Publish_Copy], [Publish_Copy]} \<and> clear_pc a = Copied (ln_copy s Clear)"

definition related :: "'m node_design \<Rightarrow> 'm locked_node \<Rightarrow> 'm threads \<Rightarrow> bool" where
  "related d s a \<longleftrightarrow> well_scoped s \<and> ln_received s = received a \<and> ln_cached s = cached a
     \<and> ln_on_topic s = on_topic a \<and> topic_related s a \<and> clear_related d s a"

lemma mutex_excludes: "well_scoped s \<Longrightarrow> ln_mutex s = Some t \<Longrightarrow> t' \<noteq> t \<Longrightarrow> scoped False (ln_pc s t')"
  unfolding well_scoped_def by (metis option.inject)

lemmas code_simps = message_code_def publish_code_def

definition moves :: "'m node_design \<Rightarrow> 'm threads \<Rightarrow> 'm threads \<Rightarrow> bool" where
  "moves d a a' \<longleftrightarrow> a' = a \<or> (\<exists>x. thread_step d x a = Some a')"

lemma moves_stay: "moves d a a"
  by (simp add: moves_def)

lemma moves_by: "thread_step d x a = Some a' \<Longrightarrow> moves d a a'"
  by (auto simp: moves_def)

lemma code_of_scoped: "before \<in> {[], [Lock, Take, Unlock]} \<Longrightarrow> scoped_code (code_of before d)"
  by (auto simp: scoped_code_def code_of_def code_simps split: option.split)

lemma clear_related_cong:
  "ln_pc s' Clear = ln_pc s Clear \<Longrightarrow> ln_copy s' Clear = ln_copy s Clear \<Longrightarrow> clear_pc a' = clear_pc a \<Longrightarrow>
     clear_related d s' a' = clear_related d s a"
  by (simp add: clear_related_def)

lemma topic_related_cong:
  "ln_pc s' Topic = ln_pc s Topic \<Longrightarrow> ln_copy s' Topic = ln_copy s Topic \<Longrightarrow> topic_pc a' = topic_pc a \<Longrightarrow>
     ln_cached s' = ln_cached s \<Longrightarrow> topic_related s' a' = topic_related s a"
  by (simp add: topic_related_def)

lemma related_topic_step:
  assumes "related d s a" and "lock_step (code_of before d) (Step Topic b) s = Some s'" and "well_scoped s'"
  shows "\<exists>a'. moves d a a' \<and> related d s' a'"
proof -
  have clear: "clear_related d s a" and same: "ln_received s = received a" "ln_cached s = cached a"
      "ln_on_topic s = on_topic a"
    using assms(1) by (simp_all add: related_def)
  have goal: "related d s' a'"
    if "clear_pc a' = clear_pc a" "ln_pc s' Clear = ln_pc s Clear" "ln_copy s' Clear = ln_copy s Clear"
      "ln_received s' = received a'" "ln_cached s' = cached a'" "ln_on_topic s' = on_topic a'" "topic_related s' a'" for a'
    using that assms(3) clear clear_related_cong [of s' s a' a d] by (simp add: related_def)
  consider (first) rest where "ln_pc s Topic = Lock # rest" "topic_pc a = None"
      "(\<exists>m. rest = tl (message_code m)) \<or> rest = tl publish_code"
    | (store) m where "ln_pc s Topic = tl (message_code m)" "topic_pc a = None"
    | (copy) "ln_pc s Topic = tl publish_code" "topic_pc a = None \<or> topic_pc a = Some (ln_cached s)"
    | (unlock) "ln_pc s Topic = [Unlock, Publish_Copy]" "topic_pc a = Some (ln_copy s Topic)"
    | (publish) "ln_pc s Topic = [Publish_Copy]" "topic_pc a = Some (ln_copy s Topic)"
    using assms(1,2) by (auto simp: related_def topic_related_def code_simps)
  then show ?thesis
  proof cases
    case (first rest)
    have s': "s' = s\<lparr>ln_mutex := Some Topic, ln_pc := (ln_pc s)(Topic := rest)\<rparr>"
      using assms(2) first(1) by (auto simp: continue_with_def split: if_split_asm)
    have "topic_related s' a" using first(2,3) unfolding topic_related_def s' by (auto simp: code_simps)
    then have "related d s' a" using same by (intro goal) (simp_all add: s')
    then show ?thesis using moves_stay by blast
  next
    case (store m)
    let ?st = "nd_translate d (received a @ [m])"
    let ?a = "a\<lparr>received := received a @ [m], cached := ?st, topic_pc := Some ?st\<rparr>"
    have s': "s' = s\<lparr>ln_received := received a @ [m], ln_cached := ?st, ln_pc := (ln_pc s)(Topic := tl publish_code)\<rparr>"
      using assms(2) store(1) same(1) by (auto simp: continue_with_def code_simps code_of_def)
    have "thread_step d (Receive m) a = Some ?a" using store(2) by (simp add: Let_def)
    moreover have "related d s' ?a"
      using same by (intro goal) (simp_all add: s' topic_related_def)
    ultimately show ?thesis using moves_by by blast
  next
    case copy
    let ?a = "a\<lparr>topic_pc := Some (cached a)\<rparr>"
    have s': "s' = s\<lparr>ln_copy := (ln_copy s)(Topic := ln_cached s), ln_pc := (ln_pc s)(Topic := [Unlock, Publish_Copy])\<rparr>"
      using assms(2) copy(1) by (auto simp: continue_with_def code_simps)
    have "moves d a ?a"
    proof (cases "topic_pc a")
      case None
      then have "thread_step d Tick a = Some ?a" by simp
      then show ?thesis by (rule moves_by)
    next
      case (Some x)
      then have "?a = a" using copy(2) same by simp
      then show ?thesis using moves_stay by metis
    qed
    moreover have "related d s' ?a"
      using same by (intro goal) (simp_all add: s' topic_related_def)
    ultimately show ?thesis by blast
  next
    case unlock
    have s': "s' = s\<lparr>ln_mutex := None, ln_pc := (ln_pc s)(Topic := [Publish_Copy])\<rparr>"
      using assms(2) unlock(1) by (auto simp: continue_with_def split: if_split_asm)
    have "related d s' a" using same unlock(2) by (intro goal) (simp_all add: s' topic_related_def)
    then show ?thesis using moves_stay by blast
  next
    case publish
    let ?a = "a\<lparr>topic_pc := None, on_topic := on_topic a @ [ln_copy s Topic]\<rparr>"
    have s': "s' = s\<lparr>ln_on_topic := ln_on_topic s @ [ln_copy s Topic], ln_pc := (ln_pc s)(Topic := [])\<rparr>"
      using assms(2) publish(1) by (auto simp: continue_with_def)
    have "thread_step d Publish_Topic a = Some ?a" using publish(2) by simp
    moreover have "related d s' ?a"
      using same by (intro goal) (simp_all add: s' topic_related_def)
    ultimately show ?thesis using moves_by by blast
  qed
qed

definition may_copy :: "'m node_design \<Rightarrow> clear_pc \<Rightarrow> bool" where
  "may_copy d p \<longleftrightarrow> p = Overwritten \<or> p = Answered False \<or> p = Answered True \<and> nd_overwrite d = None"

lemma related_clear_step:
  assumes "related d s a" and "lock_step (code_of before d) (Step Clear b) s = Some s'" and "well_scoped s'"
  shows "\<exists>a'. moves d a a' \<and> related d s' a'"
proof -
  have topic: "topic_related s a" and same: "ln_received s = received a" "ln_cached s = cached a"
      "ln_on_topic s = on_topic a" and ws: "well_scoped s"
    using assms(1) by (simp_all add: related_def)
  have goal: "related d s' a'"
    if "topic_pc a' = topic_pc a" "ln_pc s' Topic = ln_pc s Topic" "ln_copy s' Topic = ln_copy s Topic"
      "ln_received s' = received a'" "ln_cached s' = cached a'" "ln_on_topic s' = on_topic a'" "clear_related d s' a'"
      "ln_cached s' = ln_cached s" for a'
    using that assms(3) topic topic_related_cong [of s' s a' a] by (simp add: related_def)
  consider (before) i rest where "ln_pc s Clear = i # rest" "i \<in> {Lock, Take, Unlock}" "clear_pc a = Waiting"
      "rest \<in> {[Take, Unlock, Await_Reply], [Unlock, Await_Reply], [Await_Reply]}"
    | (await) "ln_pc s Clear = [Await_Reply]" "clear_pc a = Waiting"
    | (enter) v where "ln_pc s Clear = Lock # [Assign v, Unlock] @ publish_code" "nd_overwrite d = Some v"
        "clear_pc a = Answered True"
    | (assign) v where "ln_pc s Clear = [Assign v, Unlock] @ publish_code" "nd_overwrite d = Some v"
        "clear_pc a = Answered True"
    | (leave) "ln_pc s Clear = Unlock # publish_code" "clear_pc a = Overwritten"
    | (lock) "ln_pc s Clear = Lock # tl publish_code" "may_copy d (clear_pc a)"
    | (copy) "ln_pc s Clear = tl publish_code" "may_copy d (clear_pc a)"
    | (unlock) "ln_pc s Clear = [Unlock, Publish_Copy]" "clear_pc a = Copied (ln_copy s Clear)"
    | (publish) "ln_pc s Clear = [Publish_Copy]" "clear_pc a = Copied (ln_copy s Clear)"
    using assms(1,2) by (auto simp: related_def clear_related_def code_simps may_copy_def)
  then show ?thesis
  proof cases
    case (before i rest)
    have s': "ln_pc s' Clear = rest" "ln_pc s' Topic = ln_pc s Topic" "ln_copy s' = ln_copy s"
        "ln_received s' = ln_received s" "ln_cached s' = ln_cached s" "ln_on_topic s' = ln_on_topic s"
      using assms(2) before(1,2) by (auto simp: continue_with_def split: if_split_asm)
    have "clear_related d s' a" using before(3,4) s'(1) by (auto simp: clear_related_def)
    then have "related d s' a" using same s' by (intro goal) simp_all
    then show ?thesis using moves_stay by blast
  next
    case await
    let ?a = "a\<lparr>clear_pc := (if nd_republishes d b then Answered b else Idle)\<rparr>"
    have s': "s' = s\<lparr>ln_pc := (ln_pc s)(Clear := nc_after (code_of before d) b)\<rparr>"
      using assms(2) await(1) by (auto simp: continue_with_def)
    have "thread_step d (Answer b) a = Some ?a" using await(2) by simp
    moreover have "clear_related d s' ?a"
      by (cases "nd_overwrite d"; cases b) (auto simp: s' clear_related_def code_of_def)
    then have "related d s' ?a" using same by (intro goal) (simp_all add: s')
    ultimately show ?thesis using moves_by by blast
  next
    case (enter v)
    have s': "s' = s\<lparr>ln_mutex := Some Clear, ln_pc := (ln_pc s)(Clear := [Assign v, Unlock] @ publish_code)\<rparr>"
      using assms(2) enter(1) by (auto simp: continue_with_def split: if_split_asm)
    have "clear_related d s' a" using enter(2,3) by (auto simp: s' clear_related_def)
    then have "related d s' a" using same by (intro goal) (simp_all add: s')
    then show ?thesis using moves_stay by blast
  next
    case (assign v)
    let ?a = "a\<lparr>cached := v, clear_pc := Overwritten\<rparr>"
    have s': "s' = s\<lparr>ln_cached := v, ln_pc := (ln_pc s)(Clear := Unlock # publish_code)\<rparr>"
      using assms(2) assign(1) by (auto simp: continue_with_def)
    have "scoped (ln_mutex s = Some Clear) (ln_pc s Clear)" using ws by (simp add: well_scoped_def)
    then have "ln_mutex s = Some Clear" using assign(1) by simp
    then have "scoped False (ln_pc s Topic)" using mutex_excludes [OF ws] by simp
    then have "ln_pc s Topic \<noteq> tl publish_code" by (auto simp: code_simps)
    then have "topic_related s' ?a"
      using topic by (auto simp: topic_related_def s')
    moreover have "clear_related d s' ?a" by (simp add: s' clear_related_def)
    ultimately have "related d s' ?a" using same assms(3) by (simp add: related_def s')
    moreover have "thread_step d Overwrite a = Some ?a" using assign(2,3) by simp
    ultimately show ?thesis using moves_by by blast
  next
    case leave
    have s': "s' = s\<lparr>ln_mutex := None, ln_pc := (ln_pc s)(Clear := publish_code)\<rparr>"
      using assms(2) leave(1) by (auto simp: continue_with_def split: if_split_asm)
    have "related d s' a" using same leave(2) by (intro goal) (simp_all add: s' clear_related_def)
    then show ?thesis using moves_stay by blast
  next
    case lock
    have s': "s' = s\<lparr>ln_mutex := Some Clear, ln_pc := (ln_pc s)(Clear := tl publish_code)\<rparr>"
      using assms(2) lock(1) by (auto simp: continue_with_def split: if_split_asm)
    have "clear_related d s' a" using lock(2) by (simp add: s' clear_related_def may_copy_def)
    then have "related d s' a" using same by (intro goal) (simp_all add: s')
    then show ?thesis using moves_stay by blast
  next
    case copy
    let ?a = "a\<lparr>clear_pc := Copied (cached a)\<rparr>"
    have s': "s' = s\<lparr>ln_copy := (ln_copy s)(Clear := ln_cached s), ln_pc := (ln_pc s)(Clear := [Unlock, Publish_Copy])\<rparr>"
      using assms(2) copy(1) by (auto simp: continue_with_def code_simps)
    have "thread_step d Copy a = Some ?a" using copy(2) by (auto simp: may_copy_def)
    moreover have "related d s' ?a" using same by (intro goal) (simp_all add: s' clear_related_def)
    ultimately show ?thesis using moves_by by blast
  next
    case unlock
    have s': "s' = s\<lparr>ln_mutex := None, ln_pc := (ln_pc s)(Clear := [Publish_Copy])\<rparr>"
      using assms(2) unlock(1) by (auto simp: continue_with_def split: if_split_asm)
    have "related d s' a" using same unlock(2) by (intro goal) (simp_all add: s' clear_related_def)
    then show ?thesis using moves_stay by blast
  next
    case publish
    let ?a = "a\<lparr>clear_pc := Idle, on_topic := on_topic a @ [ln_copy s Clear]\<rparr>"
    have s': "s' = s\<lparr>ln_on_topic := ln_on_topic s @ [ln_copy s Clear], ln_pc := (ln_pc s)(Clear := [])\<rparr>"
      using assms(2) publish(1) by (auto simp: continue_with_def)
    have "thread_step d Publish_Clear a = Some ?a" using publish(2) by simp
    moreover have "related d s' ?a" using same by (intro goal) (simp_all add: s' clear_related_def)
    ultimately show ?thesis using moves_by by blast
  qed
qed

text \<open>Starting a handler commits only the request.\<close>

lemma related_start:
  assumes "related d s a" and "lock_step (code_of before d) x s = Some s'" and "well_scoped s'"
    and "x \<in> {Start_Timer, Start_Clear} \<union> range Start_Message" and "before \<in> {[], [Lock, Take, Unlock]}"
  shows "\<exists>a'. moves d a a' \<and> related d s' a'"
proof (cases "x = Start_Clear")
  case True
  then have idle: "ln_pc s Clear = []" and s': "s' = continue_with Clear (before @ [Await_Reply]) s"
    using assms(2) by (auto simp: code_of_def split: if_split_asm)
  let ?a = "a\<lparr>clear_pc := Waiting\<rparr>"
  have "clear_pc a = Idle" using assms(1) idle by (auto simp: related_def clear_related_def code_simps)
  then have "thread_step d Request a = Some ?a" by simp
  moreover have "clear_related d s' ?a"
    using assms(5) by (auto simp: clear_related_def s' continue_with_def)
  moreover have "topic_related s' ?a = topic_related s a"
    by (rule topic_related_cong) (simp_all add: s' continue_with_def)
  ultimately show ?thesis
    using assms(1,3) moves_by by (fastforce simp: related_def s' continue_with_def)
next
  case False
  then obtain prog where idle: "ln_pc s Topic = []" and s': "s' = continue_with Topic prog s"
    and prog: "(\<exists>m. prog = message_code m) \<or> prog = publish_code"
  proof (cases x)
    case (Start_Message m)
    then show ?thesis using assms(2) that [of "message_code m"] by (auto simp: code_of_def split: if_split_asm)
  next
    case Start_Timer
    then show ?thesis using assms(2) that [of publish_code] by (auto simp: code_of_def split: if_split_asm)
  qed (use False assms(4) in auto)
  have "topic_pc a = None" using assms(1) idle by (auto simp: related_def topic_related_def code_simps)
  then have "topic_related s' a" using prog by (auto simp: topic_related_def s' continue_with_def)
  moreover have "clear_related d s' a = clear_related d s a"
    by (rule clear_related_cong) (simp_all add: s' continue_with_def)
  ultimately have "related d s' a" using assms(1,3) by (simp add: related_def s' continue_with_def)
  then show ?thesis using moves_stay by blast
qed

lemma locks_refine_sections:
  assumes "lock_reachable (code_of before d) s" and "before \<in> {[], [Lock, Take, Unlock]}"
  shows "\<exists>a. thread_reachable d a \<and> related d s a"
  using assms(1)
proof (induction rule: lock_reachable.induct)
  case starts
  have "related d (lock_start (code_of before d)) (start d)"
    by (simp add: related_def well_scoped_def lock_start_def start_def topic_related_def clear_related_def code_of_def)
  then show ?case using initially by blast
next
  case (steps s x s')
  obtain a where a: "thread_reachable d a" "related d s a" using steps.IH by blast
  have ws: "well_scoped s'"
    using well_scoped_step [OF code_of_scoped [OF assms(2)] _ steps.hyps(2)] a(2) by (simp add: related_def)
  obtain a' where "moves d a a'" "related d s' a'"
  proof (cases x)
    case (Step t b)
    then show ?thesis
      using that related_topic_step [OF a(2) _ ws, of before b] related_clear_step [OF a(2) _ ws, of before b] steps.hyps(2)
      by (cases t) blast+
  qed (use that related_start [OF a(2) steps.hyps(2) ws _ assms(2)] in blast)+
  then show ?case using a(1) act unfolding moves_def by metis
qed

section \<open>Properties\<close>

lemma timer_after_rest:
  assumes "ln_pc s Topic = []" and "ln_mutex s = None" and "nc_timer c = publish_code"
  shows "\<exists>s'. run_locks c [Start_Timer, Step Topic b, Step Topic b, Step Topic b, Step Topic b] s = Some s'
    \<and> ln_on_topic s' = ln_on_topic s @ [ln_cached s] \<and> ln_cached s' = ln_cached s"
  using assms by (simp add: continue_with_def publish_code_def)

text \<open>What is shown of each node.\<close>

definition well_behaved :: "'m node_code \<Rightarrow> 'm node_design \<Rightarrow> 'm locked_node \<Rightarrow> 'm lock_action list \<Rightarrow> 'm locked_node \<Rightarrow> bool" where
  "well_behaved c d s as s' \<longleftrightarrow> length as \<le> 13
     \<and> (at_rest s' \<longleftrightarrow> (\<forall>t b. lock_step c (Step t b) s' = None))
     \<and> (\<forall>t i rest. ln_pc s' t = i # rest \<longrightarrow>
          (ln_mutex s' = Some t \<longleftrightarrow> i \<notin> {Lock, Publish_Copy, Await_Reply}))
     \<and> (at_rest s' \<longrightarrow> (\<exists>s''. run_locks c [Start_Timer, Step Topic True, Step Topic True, Step Topic True, Step Topic True] s' = Some s''
          \<and> ln_on_topic s'' = ln_on_topic s' @ [ln_cached s']))
     \<and> (\<exists>a. thread_reachable d a \<and> received a = ln_received s' \<and> cached a = ln_cached s' \<and> on_topic a = ln_on_topic s')"

lemma scoped_head: "scoped held (i # rest) \<Longrightarrow> held \<longleftrightarrow> i \<notin> {Lock, Publish_Copy, Await_Reply}"
  by (cases i) auto

lemma well_behaved_code:
  assumes "lock_reachable c s" and "list_all is_step as" and "run_locks c as s = Some s'"
    and "scoped_code c" and "short_code c" and "c = code_of before d" and "before \<in> {[], [Lock, Take, Unlock]}"
  shows "well_behaved c d s as s'"
  unfolding well_behaved_def
proof (intro conjI impI allI)
  have reach: "lock_reachable c s'" using assms(1,3) by (rule run_locks_reachable)
  have ws: "well_scoped s'" using reach assms(4) by (rule well_scoped_reachable)
  show "length as \<le> 13"
    using run_left [OF assms(5,2,3)] left_bound [OF assms(1,5)] by (simp add: left_def)
  show "at_rest s' \<longleftrightarrow> (\<forall>t b. lock_step c (Step t b) s' = None)" by (rule lock_progress [OF ws])
  show "ln_mutex s' = Some t \<longleftrightarrow> i \<notin> {Lock, Publish_Copy, Await_Reply}" if "ln_pc s' t = i # rest" for t i rest
  proof (rule scoped_head)
    show "scoped (ln_mutex s' = Some t) (i # rest)" using ws that unfolding well_scoped_def by metis
  qed
  show "\<exists>s''. run_locks c [Start_Timer, Step Topic True, Step Topic True, Step Topic True, Step Topic True] s' = Some s''
      \<and> ln_on_topic s'' = ln_on_topic s' @ [ln_cached s']" if "at_rest s'"
  proof -
    have "ln_mutex s' \<noteq> Some t" for t
      using ws [unfolded well_scoped_def, rule_format, of t] that by (simp add: at_rest_def)
    then have "ln_mutex s' = None" by (cases "ln_mutex s'") auto
    moreover have "nc_timer c = publish_code" using assms(6) by (simp add: code_of_def)
    ultimately show ?thesis using timer_after_rest [of s' c True] that unfolding at_rest_def by blast
  qed
  show "\<exists>a. thread_reachable d a \<and> received a = ln_received s' \<and> cached a = ln_cached s' \<and> on_topic a = ln_on_topic s'"
    using locks_refine_sections [OF reach [unfolded assms(6)] assms(7)] by (auto simp: related_def)
qed

text \<open>
  C22: the handlers of a node cannot block each other, nor themselves. In every state of a node's two threads
  and its mutex, at most 13 steps follow without new messages, ticks or requests; while a handler
  is unfinished some thread can go on; a thread holds the mutex exactly while it accesses shared data or is
  about to release it, never while it publishes or waits for the driver; once all handlers are finished a tick of
  the timer publishes the cached status. And whatever the instructions do in whatever order, what is received, cached and
  published is what the machine with one step per critical section can do.
\<close>

theorem handlers_terminate:
  "(lock_reachable (ur_code um) su \<and> list_all is_step au \<and> run_locks (ur_code um) au su = Some tu \<longrightarrow>
      well_behaved (ur_code um) (ur_design um) su au tu)
   \<and> (lock_reachable (fanuc_code fm) sf \<and> list_all is_step af \<and> run_locks (fanuc_code fm) af sf = Some tf \<longrightarrow>
      well_behaved (fanuc_code fm) (fanuc_design fm) sf af tf)
   \<and> (lock_reachable khi_code sk \<and> list_all is_step ak \<and> run_locks khi_code ak sk = Some tk \<longrightarrow>
      well_behaved khi_code khi_design sk ak tk)"
  using well_behaved_code [OF _ _ _ codes_scoped(1) codes_short(1) codes_of_designs(1)]
    well_behaved_code [OF _ _ _ codes_scoped(2) codes_short(2) codes_of_designs(2)]
    well_behaved_code [OF _ _ _ codes_scoped(3) codes_short(3) codes_of_designs(3)]
  by blast

theorem handlers_terminate_witness:
  "\<exists>s s'. run_locks khi_code [Start_Message \<lparr>ke_error_codes = [1], ke_error_msgs = []\<rparr>, Start_Clear] (lock_start khi_code) = Some s
     \<and> run_locks khi_code [Step Clear True, Step Clear True, Step Clear True, Step Clear True, Step Topic True] s = Some s'
     \<and> ln_mutex s' = Some Topic \<and> (\<exists>t b. lock_step khi_code (Step t b) s' \<noteq> None)"
proof -
  let ?as = "[Step Clear True, Step Clear True, Step Clear True, Step Clear True, Step Topic True]"
  obtain s where s: "run_locks khi_code [Start_Message \<lparr>ke_error_codes = [1], ke_error_msgs = []\<rparr>, Start_Clear]
      (lock_start khi_code) = Some s"
    and pc: "ln_pc s = (\<lambda>t. case t of Topic \<Rightarrow> message_code \<lparr>ke_error_codes = [1], ke_error_msgs = []\<rparr> | Clear \<Rightarrow> [Await_Reply])"
      "ln_mutex s = None"
    by (simp add: lock_start_def khi_code_def continue_with_def fun_eq_iff split: thread.split)
  obtain s' where s': "run_locks khi_code ?as s = Some s'" "ln_mutex s' = Some Topic" "ln_pc s' Topic \<noteq> []"
    using pc by (simp add: khi_code_def continue_with_def code_simps)
  have "lock_reachable khi_code s" by (rule run_locks_reachable [OF starts s])
  moreover have "list_all is_step ?as" by (simp add: is_step_def)
  ultimately have "well_behaved khi_code khi_design s ?as s'" using handlers_terminate s'(1) by blast
  then have "\<exists>t b. lock_step khi_code (Step t b) s' \<noteq> None"
    using s'(3) unfolding well_behaved_def at_rest_def by blast
  with s s' show ?thesis by blast
qed

end
