(* ===== verification/Module_Runs.thy ===== *)
theory Module_Runs
  imports Controller_Lifecycle
begin

text \<open>
  The module in the hands of its runtime: once initialised, ICON's calls, status messages and changes
  of the loaned interfaces reach it in any order. One event is one call (or message, or loan) as a
  whole; the state is the module and the vectors its parameters point to.
\<close>

section \<open>Initialisation\<close>

text \<open>
  The registry's documented behaviour: an advertised state buffer has the requested size, and an error
  is not \<open>Ok\<close>.
\<close>

definition registry_sound :: "registry \<Rightarrow> bool" where
  "registry_sound reg \<longleftrightarrow>
     (\<forall>s n. case advertise_state reg s n of Inr buf \<Rightarrow> length buf = n | Inl e \<Rightarrow> \<not> ok e)
     \<and> (\<forall>s n e. advertise_command reg s n = Inl e \<longrightarrow> \<not> ok e)"

lemma init_ok:
  assumes "init reg h0 = (r, h)" and "ok r" and "registry_sound reg"
  obtains pb vb where "h_params h = h_params h0" "joint_position_state h = Some pb"
    "joint_velocity_state h = Some vb" "length (jb_values pb) = hp_num_dofs (h_params h0)"
    "length (jb_values vb) = hp_num_dofs (h_params h0)" "jb_updated_at pb = None" "jb_updated_at vb = None"
    "latest_operational_status h = latest_operational_status h0"
proof -
  have state: "length buf = n" if "advertise_state reg s n = Inr buf" for s n buf
    using assms(3) [unfolded registry_sound_def, THEN conjunct1, THEN spec, THEN spec, of n s] that by simp
  have bad: "\<not> ok e" if "advertise_state reg s n = Inl e" for s n e
    using assms(3) [unfolded registry_sound_def, THEN conjunct1, THEN spec, THEN spec, of n s] that by simp
  have worse: "\<not> ok e" if "advertise_command reg s n = Inl e" for s n e
    using assms(3) that unfolding registry_sound_def by blast
  let ?n = "hp_num_dofs (h_params h0)"
  obtain pos where 1: "advertise_state reg ''joint_position_state'' ?n = Inr pos"
  proof (cases "advertise_state reg ''joint_position_state'' ?n")
    case (Inl e)
    then have "r = e" using assms(1) by (simp add: init_def Let_def)
    with bad [OF Inl] assms(2) show ?thesis by simp
  qed (rule that)
  obtain vel where 2: "advertise_state reg ''joint_velocity_state'' ?n = Inr vel"
  proof (cases "advertise_state reg ''joint_velocity_state'' ?n")
    case (Inl e)
    then have "r = e" using assms(1) 1 by (simp add: init_def Let_def)
    with bad [OF Inl] assms(2) show ?thesis by simp
  qed (rule that)
  obtain cmd where 3: "advertise_command reg ''joint_position_command'' ?n = Inr cmd"
  proof (cases "advertise_command reg ''joint_position_command'' ?n")
    case (Inl e)
    then have "r = e" using assms(1) 1 2 by (simp add: init_def Let_def)
    with worse [OF Inl] assms(2) show ?thesis by simp
  qed (rule that)
  have "h = h0\<lparr>joint_position_state := Some \<lparr>jb_values = pos, jb_updated_at = None\<rparr>,
      joint_velocity_state := Some \<lparr>jb_values = vel, jb_updated_at = None\<rparr>, joint_position_command := Some cmd\<rparr>"
    using assms(1) 1 2 3 by (simp add: init_def Let_def)
  then show ?thesis
    using state [OF 1] state [OF 2]
    by (intro that [of "\<lparr>jb_values = pos, jb_updated_at = None\<rparr>" "\<lparr>jb_values = vel, jb_updated_at = None\<rparr>"])
       simp_all
qed

section \<open>Events\<close>

text \<open>
  \<open>On_Loan\<close> is a change of the interfaces from outside: claiming, releasing, new values.
  \<open>Call_Read_Status\<close> carries the time of the call, \<open>Call_Apply_Command\<close> whether the status box was free and
  what ICON's command interface holds.
\<close>

datatype module_event =
  On_Status operational_status
| On_Loan iface_memory
| Call_Prepare hwm_env
| Call_Activate
| Call_Deactivate
| Call_Enable_Motion
| Call_Disable_Motion
| Call_Clear_Faults hwm_env
| Call_Shutdown hwm_env
| Call_Read_Status nat
| Call_Apply_Command bool "status + position_command"

type_synonym module_state = "hwm \<times> iface_memory"

definition answer :: "iface_memory \<Rightarrow> status \<times> hwm \<Rightarrow> (status \<times> module_state) outcome" where
  "answer mem x = Returned (fst x, snd x, mem)"

fun module_step :: "module_event \<Rightarrow> module_state \<Rightarrow> (status \<times> module_state) outcome" where
  "module_step (On_Status msg) (h, mem) = answer mem (OkStatus, on_operational_status msg h)"
| "module_step (On_Loan mem') (h, mem) = answer mem' (OkStatus, h)"
| "module_step (Call_Prepare env) (h, mem) = answer mem (prepare env h)"
| "module_step Call_Activate (h, mem) = answer mem (hwm_activate h, h)"
| "module_step Call_Deactivate (h, mem) = answer mem (hwm_deactivate h, h)"
| "module_step Call_Enable_Motion (h, mem) = answer mem (enable_motion h, h)"
| "module_step Call_Disable_Motion (h, mem) = answer mem (disable_motion h, h)"
| "module_step (Call_Clear_Faults env) (h, mem) = answer mem (clear_faults env h)"
| "module_step (Call_Shutdown env) (h, mem) = answer mem (shutdown env h)"
| "module_step (Call_Read_Status now) (h, mem) = on_returned (read_status mem now h) (answer mem)"
| "module_step (Call_Apply_Command got command) (h, mem) =
     on_returned (apply_command got command h mem) (\<lambda>(r, mem'). answer mem' (r, h))"

section \<open>The invariant\<close>

text \<open>
  The vectors are released or laid out as the parameters say; the two joint buffers are there, have one
  value per joint, and carry the same time stamp.
\<close>

definition vectors_ok :: "hwm_params \<Rightarrow> iface_memory \<Rightarrow> bool" where
  "vectors_ok p mem \<longleftrightarrow>
     (\<forall>a. hp_state_interfaces p = Some a \<longrightarrow> state_vec mem a = [] \<or> state_layout p (state_vec mem a))
     \<and> (\<forall>a. hp_command_interfaces p = Some a \<longrightarrow> command_vec mem a = [] \<or> command_layout p (command_vec mem a))"

definition buffers_ok :: "hwm \<Rightarrow> bool" where
  "buffers_ok h \<longleftrightarrow> (\<exists>pb vb. joint_position_state h = Some pb \<and> joint_velocity_state h = Some vb
     \<and> length (jb_values pb) = hp_num_dofs (h_params h) \<and> length (jb_values vb) = hp_num_dofs (h_params h)
     \<and> jb_updated_at pb = jb_updated_at vb)"

definition module_inv :: "hwm_params \<Rightarrow> module_state \<Rightarrow> bool" where
  "module_inv p s \<longleftrightarrow> h_params (fst s) = p \<and> buffers_ok (fst s) \<and> vectors_ok p (snd s)"

definition module_legal :: "hwm_params \<Rightarrow> module_event \<Rightarrow> bool" where
  "module_legal p e \<longleftrightarrow> (case e of On_Loan mem \<Rightarrow> vectors_ok p mem | _ \<Rightarrow> True)"

text \<open>When the joint state was last read completely.\<close>

definition read_stamp :: "hwm \<Rightarrow> nat option" where
  "read_stamp h = Option.bind (joint_position_state h) jb_updated_at"

section \<open>Each step\<close>

text \<open>The lifecycle calls only log, so they keep whatever does not look at the log.\<close>

lemma lifecycle_call_logs:
  "\<exists>t. snd (prepare env h) = h\<lparr>trace := t\<rparr>" "\<exists>t. snd (shutdown env h) = h\<lparr>trace := t\<rparr>"
  "\<exists>t. snd (clear_faults env' h) = h\<lparr>trace := t\<rparr>"
proof -
  have clock: "logs_only (reset_clock env p t)" for p t
    by (auto simp: reset_clock_def logs_only_def io_simps)
  note keep = logs_return_if_error [OF clock reactivate.both.only_logs]
    logs_return_if_error [OF clock teardown.both.only_logs] recover.only_logs
  show "\<exists>t. snd (prepare env h) = h\<lparr>trace := t\<rparr>"
    using keep(1) unfolding prepare_def prepare_steps_def logs_only_def by blast
  show "\<exists>t. snd (shutdown env h) = h\<lparr>trace := t\<rparr>"
    using keep(2) unfolding shutdown_def shutdown_steps_def logs_only_def by blast
  show "\<exists>t. snd (clear_faults env' h) = h\<lparr>trace := t\<rparr>"
    using keep(3) unfolding clear_faults_def logs_only_def by blast
qed

lemma module_inv_trace [simp]: "module_inv p (h\<lparr>trace := t\<rparr>, mem) = module_inv p (h, mem)"
  by (simp add: module_inv_def buffers_ok_def)

lemma read_stamp_trace [simp]: "read_stamp (h\<lparr>trace := t\<rparr>) = read_stamp h"
  by (simp add: read_stamp_def)

text \<open>The codes a recovery may answer with.\<close>

definition answers_in :: "status_code set \<Rightarrow> ('s, status) state \<Rightarrow> bool" where
  "answers_in C m \<longleftrightarrow> (\<forall>w. st_code (fst (run_state m w)) \<in> C)"

lemma answers_return_if_error:
  "answers_in C m \<Longrightarrow> answers_in C k \<Longrightarrow> answers_in C (return_if_error m k)"
  by (simp add: answers_in_def io_simps case_prod_beta)

lemma answers_round_trip:
  assumes "st_code absent \<in> C" and "st_code late \<in> C" and "\<And>r. st_code (judge r) \<in> C"
  shows "answers_in C (round_trip env name q wt rt absent late judge)"
  using assms by (simp add: answers_in_def run_round_trip Let_def case_prod_beta split: option.split)

definition recovery_codes :: "status_code set" where
  "recovery_codes = {kOk, kUnavailable, kDeadlineExceeded, kInternal}"

lemma answers_recovery: "answers_in recovery_codes (clear_faults_steps env p client)"
proof -
  have ret: "answers_in recovery_codes (State_Monad.return OkStatus)"
    by (simp add: answers_in_def recovery_codes_def io_simps)
  have switch: "answers_in recovery_codes (call_switch_controller env a d)" for a d
    unfolding call_switch_controller_round by (rule answers_round_trip) (simp_all add: recovery_codes_def)
  have vendor: "answers_in recovery_codes (call_clear_faults_service env s)" for s
    unfolding call_clear_faults_service_round by (rule answers_round_trip) (simp_all add: recovery_codes_def)
  have hw: "answers_in recovery_codes (call_set_hw_state env n t)" for n t
    unfolding call_set_hw_state_round by (rule answers_round_trip) (simp_all add: recovery_codes_def)
  have component: "answers_in recovery_codes (set_component env what p t)" for what t
    by (simp add: answers_in_def set_component_def reword_component_def io_simps case_prod_beta
        hw [unfolded answers_in_def]) (simp add: recovery_codes_def)
  show ?thesis
    unfolding clear_faults_steps_def
    by (intro answers_return_if_error switch component) (simp add: ret vendor split: option.split)
qed

text \<open>
  What a read leaves behind, success or not: buffers of the same size, and new time stamps exactly
  when it is complete.
\<close>

lemma read_status_step:
  assumes "module_inv p (h, mem)"
  shows "\<exists>r h'. read_status mem now h = Returned (r, h') \<and> st_code r \<in> {kOk, kUnavailable, kInternal}
    \<and> module_inv p (h', mem) \<and> latest_operational_status h' = latest_operational_status h
    \<and> read_stamp h' = (if ok r then Some now else read_stamp h)"
proof (cases "\<exists>a. hp_state_interfaces p = Some a \<and> state_vec mem a \<noteq> []")
  case False
  with assms show ?thesis
    by (auto simp: read_status_def Let_def module_inv_def split: option.split)
next
  case True
  then obtain a where a: "hp_state_interfaces p = Some a" "state_vec mem a \<noteq> []" by blast
  let ?n = "hp_num_dofs p" and ?s = "hp_state_stride p"
  obtain pb vb where b: "joint_position_state h = Some pb" "joint_velocity_state h = Some vb"
      "length (jb_values pb) = ?n" "length (jb_values vb) = ?n" "jb_updated_at pb = jb_updated_at vb"
    and p: "h_params h = p" "vectors_ok p mem"
    and lay: "block_layout ?s (hp_has_velocity_state p) ?n (state_vec mem a)"
    using assms a by (auto simp: module_inv_def buffers_ok_def vectors_ok_def state_layout_def)
  obtain r1 v1 where 1: "read_joints ''position'' 0 ?s (state_vec mem a) [0..<?n] (jb_values pb) = Returned (r1, v1)"
      "st_code r1 \<in> {kOk, kInternal}" "length v1 = ?n"
    by (rule read_block [OF lay b(3), of 0 "''position''"]) (auto split: if_splits)
  obtain r2 v2 where 2: "hp_has_velocity_state p \<Longrightarrow>
      read_joints ''velocity'' 1 ?s (state_vec mem a) [0..<?n] (jb_values vb) = Returned (r2, v2)"
      "st_code r2 \<in> {kOk, kInternal}" "length v2 = ?n"
  proof (cases "hp_has_velocity_state p")
    case vel: True
    show ?thesis
      by (rule read_block [OF lay b(4), of 1 "''velocity''"]) (use vel that in \<open>auto split: if_splits\<close>)
  qed (use that [of OkStatus "jb_values vb"] b(4) in simp)
  show ?thesis
    using a b p 1 2
    by (auto simp: read_status_def read_positions_def read_velocities_def stamp_joint_states_def ok_def
        module_inv_def buffers_ok_def read_stamp_def)
qed

text \<open>
  What a command is meant to do: nothing while the visible status forbids motion, and otherwise its
  writes, joint by joint, up to the first that is refused.
\<close>

definition commanded ::
  "hwm_params \<Rightarrow> bool \<Rightarrow> status + position_command \<Rightarrow> operational_status \<Rightarrow> iface_memory
     \<Rightarrow> status_code \<times> iface_memory" where
  "commanded p got command st mem =
    (if got \<and> os_state st \<in> {FAULTED, DISABLED} then (kFailedPrecondition, mem)
     else case command of
       Inl e \<Rightarrow> (st_code e, mem)
     | Inr c \<Rightarrow>
       if length (pc_position c) \<noteq> hp_num_dofs p \<or> length (pc_velocity_feedforward c) \<noteq> hp_num_dofs p
       then (kInternal, mem)
       else case hp_command_interfaces p of
         None \<Rightarrow> (kUnavailable, mem)
       | Some a \<Rightarrow>
         let cs = command_vec mem a;
             ws = command_writes p (pc_position c) (pc_velocity_feedforward c) [0..<hp_num_dofs p]
         in if cs = [] then (kUnavailable, mem)
            else (if list_all (\<lambda>w. lc_accepts (cs ! fst w)) ws then kOk else kInternal,
                  mem\<lparr>command_vec := (command_vec mem)
                    (a := fold store (takeWhile (\<lambda>w. lc_accepts (cs ! fst w)) ws) cs)\<rparr>))"

lemma check_refuses:
  "ok (check_operational_status got h) \<longleftrightarrow>
     \<not> (got \<and> os_state (latest_operational_status h) \<in> {FAULTED, DISABLED})"
  by (simp add: check_operational_status_def Let_def)

lemma apply_commanded:
  assumes "vectors_ok (h_params h) mem"
  shows "\<exists>r. apply_command got command h mem =
      Returned (r, snd (commanded (h_params h) got command (latest_operational_status h) mem))
    \<and> st_code r = fst (commanded (h_params h) got command (latest_operational_status h) mem)"
proof (cases "\<exists>a c. command_ready h a mem \<and> command = Inr c \<and> fits h c
    \<and> ok (check_operational_status got h)")
  case True
  then obtain a c where c: "command_ready h a mem" "command = Inr c" "fits h c"
      "ok (check_operational_status got h)" by blast
  have "commanded (h_params h) got command (latest_operational_status h) mem =
      (if list_all (\<lambda>w. lc_accepts (command_vec mem a ! fst w)) (writes_for h c) then kOk else kInternal,
       mem\<lparr>command_vec := (command_vec mem)
         (a := fold store (accepted_writes (command_vec mem a) (writes_for h c)) (command_vec mem a))\<rparr>)"
    using c by (simp add: commanded_def check_refuses command_ready_def fits_def accepted_writes_def Let_def)
  then show ?thesis using apply_effect [OF c(1,3,4)] c(2) by simp
next
  case False
  have blocked: "os_state (latest_operational_status h) \<in> {FAULTED, DISABLED} \<Longrightarrow>
      st_code (check_operational_status True h) = kFailedPrecondition"
    by (auto simp: check_operational_status_def Let_def)
  show ?thesis
    using False assms blocked
    by (auto simp: apply_command_def commanded_def check_refuses Let_def fits_def command_ready_def
        vectors_ok_def size_mismatch_def split: sum.split option.split)
qed

lemma apply_command_step:
  assumes "module_inv p (h, mem)"
  shows "\<exists>r mem'. apply_command got command h mem = Returned (r, mem') \<and> module_inv p (h, mem')
    \<and> (st_code r, mem') = commanded p got command (latest_operational_status h) mem"
proof -
  have p: "h_params h = p" "vectors_ok p mem" using assms by (simp_all add: module_inv_def)
  then obtain r mem' where run: "apply_command got command h mem = Returned (r, mem')"
    and names: "\<forall>a. map lc_name (command_vec mem' a) = map lc_name (command_vec mem a)"
    and state: "state_vec mem' = state_vec mem"
    using apply_command_frame [of h mem got command] by (auto simp: vectors_ok_def)
  have "length (command_vec mem' a) = length (command_vec mem a)" for a
    using names by (metis length_map)
  then have "module_inv p (h, mem')"
    using assms state by (simp add: module_inv_def vectors_ok_def command_layout_def block_layout_def
        flip: length_0_conv)
  then show ?thesis using run apply_commanded [of h mem got command] p by simp
qed

section \<open>The specification\<close>

text \<open>
  What the module promises, over the status it has seen, the time of the last complete read and the
  loaned interfaces: which answers an event may get, and what follows from event and answer.
\<close>

type_synonym module_view = "operational_status \<times> nat option \<times> iface_memory"

fun view_of :: "module_state \<Rightarrow> module_view" where
  "view_of (h, mem) = (latest_operational_status h, read_stamp h, mem)"

definition gate_code :: "operational_status \<Rightarrow> status_code" where
  "gate_code st = (if os_state st = FAULTED then kFailedPrecondition else kOk)"

fun may_answer :: "hwm_params \<Rightarrow> module_event \<Rightarrow> status \<Rightarrow> module_view \<Rightarrow> bool" where
  "may_answer p Call_Enable_Motion r (st, t, mem) = (st_code r = gate_code st)"
| "may_answer p Call_Disable_Motion r (st, t, mem) = (st_code r = gate_code st)"
| "may_answer p (Call_Apply_Command got command) r (st, t, mem) =
     (st_code r = fst (commanded p got command st mem))"
| "may_answer p (Call_Read_Status now) r v = (st_code r \<in> {kOk, kUnavailable, kInternal})"
| "may_answer p (Call_Clear_Faults env) r v = (st_code r \<in> recovery_codes)"
| "may_answer p (Call_Prepare env) r v = True"
| "may_answer p (Call_Shutdown env) r v = True"
| "may_answer p (On_Status msg) r v = ok r"
| "may_answer p (On_Loan mem') r v = ok r"
| "may_answer p Call_Activate r v = ok r"
| "may_answer p Call_Deactivate r v = ok r"

fun view_after :: "hwm_params \<Rightarrow> module_event \<Rightarrow> status \<Rightarrow> module_view \<Rightarrow> module_view" where
  "view_after p e r (st, t, mem) =
    (case e of
       On_Status msg \<Rightarrow> (msg, t, mem)
     | On_Loan mem' \<Rightarrow> (st, t, mem')
     | Call_Read_Status now \<Rightarrow> (st, if ok r then Some now else t, mem)
     | Call_Apply_Command got command \<Rightarrow> (st, t, snd (commanded p got command st mem))
     | _ \<Rightarrow> (st, t, mem))"

lemma module_step_view:
  assumes "module_inv p (h, mem)" and "module_legal p e"
  shows "\<exists>r s'. module_step e (h, mem) = Returned (r, s') \<and> module_inv p s'
    \<and> may_answer p e r (view_of (h, mem)) \<and> view_of s' = view_after p e r (view_of (h, mem))"
proof (cases e)
  case (On_Status msg)
  then show ?thesis
    using assms(1) by (auto simp: answer_def on_operational_status_def module_inv_def buffers_ok_def read_stamp_def)
next
  case (Call_Prepare env)
  then show ?thesis using assms(1) lifecycle_call_logs(1) [of env h] by (auto simp: answer_def)
next
  case (Call_Shutdown env)
  then show ?thesis using assms(1) lifecycle_call_logs(2) [of env h] by (auto simp: answer_def)
next
  case (Call_Clear_Faults env)
  have "st_code (fst (clear_faults env h)) \<in> recovery_codes"
    using answers_recovery unfolding clear_faults_def answers_in_def by blast
  then show ?thesis
    using Call_Clear_Faults assms(1) lifecycle_call_logs(3) [of env h] by (auto simp: answer_def)
next
  case (Call_Read_Status now)
  then show ?thesis
    using read_status_step [OF assms(1), of now] by (auto simp: answer_def)
next
  case (Call_Apply_Command got command)
  obtain r mem' where "apply_command got command h mem = Returned (r, mem')" "module_inv p (h, mem')"
      "(st_code r, mem') = commanded p got command (latest_operational_status h) mem"
    using apply_command_step [OF assms(1)] by blast
  then show ?thesis
    using Call_Apply_Command by (cases "commanded p got command (latest_operational_status h) mem") (simp add: answer_def)
qed (use assms in \<open>auto simp: answer_def module_legal_def module_inv_def hwm_activate_def hwm_deactivate_def
      enable_motion_def disable_motion_def gate_code_def Let_def\<close>)

interpretation hwm_module: refined_component module_step "module_inv p" "module_legal p" "\<lambda>_ _. True"
  view_of "may_answer p" "view_after p" for p
proof unfold_locales
  fix s e
  assume *: "module_inv p s" "module_legal p e"
  obtain h mem where s: "s = (h, mem)" by (cases s)
  note view = module_step_view [OF * [unfolded s]]
  show "\<exists>r s'. module_step e s = Returned (r, s') \<and> True \<and> module_inv p s'"
    using view s by blast
  show "may_answer p e r (view_of s) \<and> view_of s' = view_after p e r (view_of s)"
    if "module_step e s = Returned (r, s')" for r s'
    using view that s by (elim exE conjE) (metis outcome.inject prod.inject)
qed

section \<open>A stopped module\<close>

text \<open>
  Every status seen is in \<open>B\<close> and no cycle misses the status: commands are refused, and motion can be neither
  enabled nor disabled when \<open>B\<close> is just \<open>FAULTED\<close>. The interfaces may be claimed, released and given new
  values from outside at any time; what they hold is then what was put there last.
\<close>

definition halted :: "hwm_params \<Rightarrow> u8 set \<Rightarrow> module_state \<Rightarrow> bool" where
  "halted p B s \<longleftrightarrow> B \<subseteq> {FAULTED, DISABLED} \<and> module_inv p s
     \<and> os_state (latest_operational_status (fst s)) \<in> B"

definition keeps_halted :: "hwm_params \<Rightarrow> u8 set \<Rightarrow> module_event \<Rightarrow> bool" where
  "keeps_halted p B e \<longleftrightarrow> module_legal p e \<and> (case e of
       On_Status msg \<Rightarrow> os_state msg \<in> B
     | Call_Apply_Command got command \<Rightarrow> got
     | _ \<Rightarrow> True)"

definition refused :: "u8 set \<Rightarrow> module_event \<Rightarrow> status \<Rightarrow> bool" where
  "refused B e r \<longleftrightarrow> (case e of
       Call_Apply_Command got command \<Rightarrow> st_code r = kFailedPrecondition
     | Call_Enable_Motion \<Rightarrow> DISABLED \<in> B \<or> st_code r = kFailedPrecondition
     | Call_Disable_Motion \<Rightarrow> DISABLED \<in> B \<or> st_code r = kFailedPrecondition
     | _ \<Rightarrow> True)"

definition loaned :: "module_event \<Rightarrow> iface_memory \<Rightarrow> iface_memory" where
  "loaned e mem = (case e of On_Loan mem' \<Rightarrow> mem' | _ \<Rightarrow> mem)"

lemma halted_step:
  assumes "halted p B s" and "keeps_halted p B e"
  shows "\<exists>r s'. module_step e s = Returned (r, s') \<and> refused B e r \<and> halted p B s' \<and> snd s' = loaned e (snd s)"
proof -
  obtain h mem where s: "s = (h, mem)" and B: "B \<subseteq> {FAULTED, DISABLED}" and inv: "module_inv p (h, mem)"
    and st: "os_state (latest_operational_status h) \<in> B"
    using assms(1) by (cases s) (auto simp: halted_def)
  have "module_legal p e" using assms(2) by (simp add: keeps_halted_def)
  then obtain r h' mem' where run: "module_step e (h, mem) = Returned (r, h', mem')" "module_inv p (h', mem')"
      and ans: "may_answer p e r (view_of (h, mem))"
      and view: "view_of (h', mem') = view_after p e r (view_of (h, mem))"
    using module_step_view [OF inv] by (metis surj_pair)
  have "os_state (latest_operational_status h') \<in> B \<and> mem' = loaned e mem"
    using view st B assms(2) by (cases e) (auto simp: keeps_halted_def commanded_def loaned_def)
  moreover have "refused B e r"
    using ans st B assms(2) by (cases e) (auto simp: keeps_halted_def refused_def commanded_def gate_code_def)
  ultimately show ?thesis
    using run s B by (intro exI [of _ r] exI [of _ "(h', mem')"]) (simp add: halted_def)
qed

interpretation stopped: refined_component module_step "halted p B" "keeps_halted p B" "refused B"
  snd "\<lambda>_ _ _. True" "\<lambda>e _. loaned e" for p B
proof unfold_locales
  show "\<exists>r s'. module_step e s = Returned (r, s') \<and> refused B e r \<and> halted p B s'"
    if "halted p B s" "keeps_halted p B e" for s e
    using halted_step [OF that] by blast
  show "True \<and> snd s' = loaned e (snd s)"
    if "halted p B s" "keeps_halted p B e" "module_step e s = Returned (r, s')" for s e r s'
    using halted_step [OF that(1,2)] that(3) by auto
qed

lemma halted_run:
  assumes "halted p B (h, mem)" and "list_all (keeps_halted p B) es"
  shows "\<exists>rs h'. run_events module_step es (h, mem) = Returned (rs, (h', fold loaned es mem))
    \<and> list_all2 (refused B) es rs"
proof -
  obtain rs s' where "run_events module_step es (h, mem) = Returned (rs, s')" "list_all2 (refused B) es rs"
    using stopped.safe_run [OF assms] by blast
  moreover obtain rs2 s2 where "run_events module_step es (h, mem) = Returned (rs2, s2)"
      "conforms (\<lambda>_ _ _. True) (\<lambda>e _. loaned e) es rs2 mem (snd s2)"
    using stopped.refined_run [OF assms] by (auto simp only: snd_conv)
  ultimately show ?thesis
    using conforms_fold by (cases s') fastforce
qed

section \<open>A concrete module\<close>

text \<open>Two joints, both vectors claimed, every interface with a value and accepting.\<close>

definition example_loan :: iface_memory where
  "example_loan = \<lparr>state_vec = state_vec (example_state_memory True),
     command_vec = (\<lambda>a. if a = 1 then
        [\<lparr>lc_name = ''j1/position'', lc_value = 0, lc_accepts = True\<rparr>,
         \<lparr>lc_name = ''j2/position'', lc_value = 0, lc_accepts = True\<rparr>] else [])\<rparr>"

definition example_module :: "operational_status \<Rightarrow> module_state" where
  "example_module st = (on_operational_status st example_reading_hwm, example_loan)"

lemma example_reading_params: "h_params example_reading_hwm = example_params"
  by (simp add: example_reading_hwm_def init_def example_hwm_sel Let_def)

lemma example_module_inv: "module_inv example_params (example_module st)"
  by (simp add: example_module_def module_inv_def buffers_ok_def vectors_ok_def on_operational_status_def
      example_reading_params example_state_ready(5,6) example_loan_def example_state_memory_def
      state_layout_def command_layout_def block_layout_def example_params_def)

definition example_registry :: registry where
  "example_registry = \<lparr>advertise_state = (\<lambda>s n. Inr (replicate n 0)), advertise_command = (\<lambda>s n. Inr n)\<rparr>"

lemma example_registry_works:
  "registry_sound example_registry" "init example_registry h = (OkStatus, snd (init example_registry h))"
  by (simp_all add: registry_sound_def init_def example_registry_def Let_def)

section \<open>Properties\<close>

lemma initialised_inv:
  assumes "reachable rate (Active, c)" and "c_runtime c = Some rt" and "claimed c mem"
    and "init reg (rt_hwm rt) = (r, h)" and "ok r" and "registry_sound reg"
  shows "module_inv (h_params (rt_hwm rt)) (h, mem)"
    and "view_of (h, mem) = (mk_os UNKNOWN [], None, mem)"
proof -
  let ?p = "h_params (rt_hwm rt)"
  have conf: "configured (c_params c) c" using assms(1) by (rule reachable_active)
  have old: "latest_operational_status (rt_hwm rt) = mk_os UNKNOWN []"
    using configured_sel [OF conf] assms(2) by (metis option.inject)
  obtain clock where hp: "?p = hwm_params_of (c_params c) clock" by (rule runtime_params [OF conf assms(2)])
  obtain pb vb where b: "h_params h = ?p" "joint_position_state h = Some pb" "joint_velocity_state h = Some vb"
      "length (jb_values pb) = hp_num_dofs ?p" "length (jb_values vb) = hp_num_dofs ?p"
      "jb_updated_at pb = None" "jb_updated_at vb = None"
      "latest_operational_status h = latest_operational_status (rt_hwm rt)"
    by (rule init_ok [OF assms(4-6)])
  have "command_layout ?p (command_vec mem command_interfaces_addr)"
    using claimed_command_ready [OF conf assms(3,2)] by (simp add: command_ready_def)
  then have "vectors_ok ?p mem"
    using claimed_state_layout [OF conf assms(3,2)] by (simp add: vectors_ok_def hp)
  with b show "module_inv ?p (h, mem)" by (simp add: module_inv_def buffers_ok_def)
  show "view_of (h, mem) = (mk_os UNKNOWN [], None, mem)" using b old by (simp add: read_stamp_def)
qed

text \<open>
  C1: a stopped robot is not moved. In a well-formed module whose latest status is \<open>FAULTED\<close> or
  \<open>DISABLED\<close>, let calls, recoveries, reads, statuses and loans (interfaces claimed, released, given new
  values) arrive in any order, the statuses of that kind, and no cycle missing the status. Then every event is
  answered, every command is refused with \<open>kFailedPrecondition\<close>, and at the end the interfaces hold what was
  loaned last: the module has written to none of them.
\<close>

theorem stopped_run_writes_nothing:
  assumes "module_inv p (h, mem)" and "os_state (latest_operational_status h) \<in> {FAULTED, DISABLED}"
    and "list_all (keeps_halted p {FAULTED, DISABLED}) es"
  shows "\<exists>rs h'. run_events module_step es (h, mem) = Returned (rs, (h', fold loaned es mem)) \<and> length rs = length es
    \<and> (\<forall>i < length es. \<forall>command. es ! i = Call_Apply_Command True command \<longrightarrow> st_code (rs ! i) = kFailedPrecondition)"
proof -
  have "halted p {FAULTED, DISABLED} (h, mem)" using assms(1,2) by (simp add: halted_def)
  from halted_run [OF this assms(3)] obtain rs h' where
    run: "run_events module_step es (h, mem) = Returned (rs, (h', fold loaned es mem))"
    and ans: "list_all2 (refused {FAULTED, DISABLED}) es rs" by (elim exE conjE) (rule that)
  have "st_code (rs ! i) = kFailedPrecondition"
    if "i < length es" "es ! i = Call_Apply_Command True command" for i command
    using list_all2_nthD [OF ans that(1)] that(2) by (simp add: refused_def)
  then show ?thesis
    using run list_all2_lengthD [OF ans] by (intro exI [of _ rs] exI [of _ h']) simp
qed

theorem stopped_run_writes_nothing_witness:
  "\<exists>rs h'. run_events module_step
       [Call_Clear_Faults accepting_env, On_Status (mk_os DISABLED []),
        On_Loan (example_loan\<lparr>state_vec := \<lambda>_. []\<rparr>), Call_Read_Status 7,
        Call_Apply_Command True (Inr example_command)]
       (example_module (mk_os FAULTED ''E-stop'')) = Returned (rs, (h', example_loan\<lparr>state_vec := \<lambda>_. []\<rparr>))
     \<and> st_code (rs ! 4) = kFailedPrecondition"
proof -
  let ?mem = "example_loan\<lparr>state_vec := \<lambda>_. []\<rparr>"
  let ?es = "[Call_Clear_Faults accepting_env, On_Status (mk_os DISABLED []), On_Loan ?mem, Call_Read_Status 7,
        Call_Apply_Command True (Inr example_command)]"
  have "vectors_ok example_params ?mem"
    using example_module_inv by (simp add: example_module_def module_inv_def vectors_ok_def)
  then have "list_all (keeps_halted example_params {FAULTED, DISABLED}) ?es"
    by (simp add: keeps_halted_def module_legal_def)
  moreover have "os_state (latest_operational_status (on_operational_status (mk_os FAULTED ''E-stop'')
      example_reading_hwm)) \<in> {FAULTED, DISABLED}" by (simp add: on_operational_status_def)
  ultimately obtain rs h' where *: "run_events module_step ?es (example_module (mk_os FAULTED ''E-stop''))
        = Returned (rs, (h', fold loaned ?es example_loan))"
      "\<forall>i < length ?es. \<forall>command. ?es ! i = Call_Apply_Command True command \<longrightarrow>
         st_code (rs ! i) = kFailedPrecondition"
    using stopped_run_writes_nothing [OF example_module_inv [unfolded example_module_def]]
    unfolding example_module_def by blast
  from *(2) [rule_format, of 4] *(1) show ?thesis by (simp add: loaned_def)
qed

text \<open>
  C4: the module is never undefined. Once an active controller's module is initialised, every sequence of
  calls, statuses and loans that are released or laid out as configured is answered to its end, and the
  module is well-formed again: its two joint buffers keep one value per joint and one common time
  stamp, its parameters are those the controller gave it.
\<close>

theorem module_never_undefined:
  assumes "reachable rate (Active, c)" and "c_runtime c = Some rt" and "claimed c mem"
    and "init reg (rt_hwm rt) = (r, h)" and "ok r" and "registry_sound reg"
    and "list_all (module_legal (h_params (rt_hwm rt))) es"
  shows "\<exists>rs s'. run_events module_step es (h, mem) = Returned (rs, s') \<and> length rs = length es
    \<and> module_inv (h_params (rt_hwm rt)) s'"
proof -
  obtain rs s' where run: "run_events module_step es (h, mem) = Returned (rs, s')"
      "list_all2 (\<lambda>_ _. True) es rs" "module_inv (h_params (rt_hwm rt)) s'"
    using hwm_module.safe_run [OF initialised_inv(1) [OF assms(1-6)] assms(7)] by (elim exE conjE) (rule that)
  then show ?thesis
    using list_all2_lengthD [OF run(2)] by (intro exI [of _ rs] exI [of _ s']) simp
qed

theorem module_never_undefined_witness:
  "\<exists>rt rs s'. c_runtime (example_configured True) = Some rt
     \<and> run_events module_step
          [Call_Activate, On_Loan \<lparr>state_vec = (\<lambda>_. []), command_vec = (\<lambda>_. [])\<rparr>, Call_Read_Status 7,
           Call_Apply_Command False (Inr \<lparr>pc_position = [7], pc_velocity_feedforward = []\<rparr>)]
          (snd (init example_registry (rt_hwm rt)), example_claimed) = Returned (rs, s')
     \<and> length rs = 4"
proof -
  obtain rt where rt: "c_runtime (example_configured True) = Some rt"
    using example_configured_runtime(1) by blast
  let ?es = "[Call_Activate, On_Loan \<lparr>state_vec = (\<lambda>_. []), command_vec = (\<lambda>_. [])\<rparr>, Call_Read_Status 7,
           Call_Apply_Command False (Inr \<lparr>pc_position = [7], pc_velocity_feedforward = []\<rparr>)]"
  have "list_all (module_legal (h_params (rt_hwm rt))) ?es"
    by (simp add: module_legal_def vectors_ok_def)
  from module_never_undefined [OF example_configured_reachable(2) rt example_claimed_claimed
      example_registry_works(2) ok_OkStatus example_registry_works(1) this] rt
  show ?thesis by (elim exE conjE) (intro exI conjI, assumption+, simp)
qed


text \<open>
  C5: the module implements its specification. In every run from a well-formed state, each answer is one
  the specification permits, and status, time stamp and interfaces are at the end what the specification
  computes from events and answers: the last status received, the time of the last read that returned
  \<open>Ok\<close>, and the interfaces after the writes of the commands let through, each up to its first refusal.
\<close>

theorem module_implements_spec:
  assumes "module_inv p (h, mem)" and "list_all (module_legal p) es"
  shows "\<exists>rs s'. run_events module_step es (h, mem) = Returned (rs, s')
    \<and> conforms (may_answer p) (view_after p) es rs (view_of (h, mem)) (view_of s')"
  using hwm_module.refined_run [OF assms] by (elim exE conjE) (intro exI conjI)

theorem module_implements_spec_witness:
  "\<exists>rs h' mem'. run_events module_step
       [On_Status (mk_os ENABLED []), Call_Apply_Command True (Inr example_command), Call_Read_Status 7]
       (example_module (mk_os FAULTED ''E-stop'')) = Returned (rs, (h', mem'))
     \<and> st_code (rs ! 1) = kOk \<and> map lc_value (command_vec mem' 1) = [10, 20]
     \<and> latest_operational_status h' = mk_os ENABLED []"
proof -
  let ?es = "[On_Status (mk_os ENABLED []), Call_Apply_Command True (Inr example_command), Call_Read_Status 7]"
  have "list_all (module_legal example_params) ?es" by (simp add: module_legal_def)
  from module_implements_spec [OF example_module_inv [unfolded example_module_def] this]
  obtain rs s' where run: "run_events module_step ?es (example_module (mk_os FAULTED ''E-stop'')) = Returned (rs, s')"
    and spec: "conforms (may_answer example_params) (view_after example_params) ?es rs
      (view_of (example_module (mk_os FAULTED ''E-stop''))) (view_of s')"
    unfolding example_module_def by blast
  obtain h' mem' where s': "s' = (h', mem')" by (cases s')
  have writes: "commanded example_params True (Inr example_command) (mk_os ENABLED []) example_loan =
      (kOk, example_loan\<lparr>command_vec := (command_vec example_loan)(1 :=
        [\<lparr>lc_name = ''j1/position'', lc_value = 10, lc_accepts = True\<rparr>,
         \<lparr>lc_name = ''j2/position'', lc_value = 20, lc_accepts = True\<rparr>])\<rparr>)"
    by (simp add: commanded_def example_params_def example_command_def example_loan_def command_writes_def
        writes_of_def example_upt store_def)
  show ?thesis
    using run spec s' by (auto simp: conforms_Cons example_module_def on_operational_status_def writes)
qed

end


