(* ===== verification/System_Runs.thy ===== *)
theory System_Runs
  imports Node_Threads Module_Runs
begin

text \<open>
  A vendor node, the status topic and the module as one system. The node's threads interleave as in
  \<^verbatim>\<open>Node_Threads\<close>, what they publish waits on the topic, the module takes the oldest waiting status; in
  between ICON calls the module. The topic is the documented one of a reliable subscription with a bounded
  history: it may give up the oldest waiting status for a newer one, never the newest.
\<close>

section \<open>The system\<close>

record 'm system =
  sy_node :: "'m threads"
  sy_topic :: "operational_status list"
  sy_module :: module_state

datatype 'm system_event = Node_Action "'m action" | Deliver | Overrun | Module_Call module_event

definition linked :: "'m node_design \<Rightarrow> module_state \<Rightarrow> 'm system" where
  "linked d m = \<lparr>sy_node = start d, sy_topic = [], sy_module = m\<rparr>"

definition subscribed :: "module_state \<Rightarrow> bool" where
  "subscribed m \<longleftrightarrow> operational_status_subscription (fst m) \<noteq> None"

text \<open>An action of the node that is not enabled does not happen.\<close>

fun system_step :: "'m node_design \<Rightarrow> 'm system_event \<Rightarrow> 'm system \<Rightarrow> (status \<times> 'm system) outcome" where
  "system_step d (Node_Action a) s =
     (case thread_step d a (sy_node s) of
        None \<Rightarrow> Returned (OkStatus, s)
      | Some n \<Rightarrow> Returned (OkStatus, s\<lparr>sy_node := n,
          sy_topic := sy_topic s @ drop (length (on_topic (sy_node s))) (on_topic n)\<rparr>))"
| "system_step d Deliver s =
     (case sy_topic s of
        [] \<Rightarrow> Returned (OkStatus, s)
      | status # ss \<Rightarrow>
          if subscribed (sy_module s)
          then on_returned (module_step (On_Status status) (sy_module s))
                 (\<lambda>(r, m). Returned (r, s\<lparr>sy_topic := ss, sy_module := m\<rparr>))
          else Returned (OkStatus, s\<lparr>sy_topic := ss\<rparr>))"
| "system_step d Overrun s =
     (case sy_topic s of
        a # b # ss \<Rightarrow> Returned (OkStatus, s\<lparr>sy_topic := b # ss\<rparr>)
      | _ \<Rightarrow> Returned (OkStatus, s))"
| "system_step d (Module_Call e) s =
     on_returned (module_step e (sy_module s)) (\<lambda>(r, m). Returned (r, s\<lparr>sy_module := m\<rparr>))"

text \<open>Statuses reach the module over the topic only.\<close>

definition system_legal :: "hwm_params \<Rightarrow> 'm system_event \<Rightarrow> bool" where
  "system_legal p e \<longleftrightarrow> (case e of
       Module_Call c \<Rightarrow> module_legal p c \<and> (\<forall>msg. c \<noteq> On_Status msg)
     | _ \<Rightarrow> True)"

section \<open>The invariant\<close>

text \<open>The node's state is one of its threads', and everything under way is well formed.\<close>

definition system_inv :: "hwm_params \<Rightarrow> 'm node_design \<Rightarrow> 'm system \<Rightarrow> bool" where
  "system_inv p d s \<longleftrightarrow>
     module_inv p (sy_module s) \<and> subscribed (sy_module s) \<and> thread_reachable d (sy_node s)
     \<and> wf_status (latest_operational_status (fst (sy_module s))) \<and> list_all wf_status (sy_topic s)"

lemma read_parts_frame:
  "read_positions ifs h = Returned (r, h') \<Longrightarrow> operational_status_subscription h' = operational_status_subscription h"
  "read_velocities ifs h = Returned (r, h') \<Longrightarrow> operational_status_subscription h' = operational_status_subscription h"
  "stamp_joint_states now h = Returned (r, h') \<Longrightarrow> operational_status_subscription h' = operational_status_subscription h"
  by (auto simp: read_positions_def read_velocities_def stamp_joint_states_def on_returned_eq_Returned
      split: option.split_asm)

lemma read_status_frame:
  "read_status mem now h = Returned (r, h') \<Longrightarrow>
     operational_status_subscription h' = operational_status_subscription h"
  by (auto simp: read_status_def Let_def on_returned_eq_Returned split: option.split_asm if_split_asm
      dest!: read_parts_frame)

lemma module_step_subscribed:
  assumes "module_step e m = Returned (r, m')"
  shows "subscribed m' = subscribed m"
proof -
  obtain h mem where m: "m = (h, mem)" by (cases m)
  show ?thesis
  proof (cases e)
    case (Call_Prepare env)
    then show ?thesis using assms m lifecycle_call_logs(1) [of env h] by (auto simp: answer_def subscribed_def)
  next
    case (Call_Shutdown env)
    then show ?thesis using assms m lifecycle_call_logs(2) [of env h] by (auto simp: answer_def subscribed_def)
  next
    case (Call_Clear_Faults env)
    then show ?thesis using assms m lifecycle_call_logs(3) [of env h] by (auto simp: answer_def subscribed_def)
  next
    case (Call_Read_Status now)
    then show ?thesis
      using assms m read_status_frame by (fastforce simp: answer_def subscribed_def on_returned_eq_Returned)
  qed (use assms m in \<open>auto simp: answer_def subscribed_def on_operational_status_def on_returned_eq_Returned\<close>)
qed

lemma module_step_status:
  assumes "module_inv p m" and "module_legal p e" and "\<forall>msg. e \<noteq> On_Status msg"
  shows "\<exists>r m'. module_step e m = Returned (r, m') \<and> module_inv p m' \<and> subscribed m' = subscribed m
    \<and> latest_operational_status (fst m') = latest_operational_status (fst m)"
proof -
  obtain h mem where m: "m = (h, mem)" by (cases m)
  obtain r m' where run: "module_step e m = Returned (r, m')" "module_inv p m'"
      and view: "view_of m' = view_after p e r (view_of m)"
    using module_step_view [OF assms(1) [unfolded m] assms(2)] m by blast
  have "latest_operational_status (fst m') = latest_operational_status (fst m)"
    using view assms(3) m by (cases m'; cases e) auto
  then show ?thesis using run module_step_subscribed [OF run(1)] by blast
qed

section \<open>Any node, linked to the module\<close>

lemma thread_step_topic:
  "thread_step d a s = Some s' \<Longrightarrow> \<exists>ss. on_topic s' = on_topic s @ ss"
  by (cases a) (auto simp: Let_def split: if_split_asm option.split_asm clear_pc.split_asm)

locale status_system =
  fixes d :: "'m node_design"
  assumes wf: "wf_design d"
begin

lemma system_safe:
  assumes "system_inv p d s" and "system_legal p e"
  shows "\<exists>r s'. system_step d e s = Returned (r, s') \<and> True \<and> system_inv p d s'"
proof (cases e)
  case (Node_Action a)
  show ?thesis
  proof (cases "thread_step d a (sy_node s)")
    case (Some n)
    have reach: "thread_reachable d n"
      using assms(1) Some by (auto simp: system_inv_def intro: thread_reachable.act)
    have sent: "list_all wf_status (on_topic n)"
      using threads_wf_reachable [OF reach wf] by (simp add: threads_wf_def)
    obtain ss where ss: "on_topic n = on_topic (sy_node s) @ ss" using thread_step_topic [OF Some] by blast
    have "list_all wf_status ss" using sent ss by simp
    then show ?thesis
      using assms(1) Node_Action Some reach ss by (simp add: system_inv_def)
  qed (use assms(1) Node_Action in simp)
next
  case Deliver
  show ?thesis
  proof (cases "sy_topic s")
    case (Cons status ss)
    obtain h mem where m: "sy_module s = (h, mem)" by (cases "sy_module s")
    have "module_inv p (on_operational_status status h, mem)"
      using assms(1) m by (auto simp: system_inv_def module_inv_def buffers_ok_def on_operational_status_def)
    then show ?thesis
      using assms(1) Deliver Cons m
      by (auto simp: system_inv_def answer_def subscribed_def on_operational_status_def)
  qed (use assms Deliver in simp)
next
  case Overrun
  then show ?thesis
    using assms(1) by (cases "sy_topic s" rule: remdups_adj.cases) (auto simp: system_inv_def)
next
  case (Module_Call c)
  then have "module_legal p c" "\<forall>msg. c \<noteq> On_Status msg" using assms(2) by (simp_all add: system_legal_def)
  from module_step_status [OF _ this, of "sy_module s"] obtain r m' where
    "module_step c (sy_module s) = Returned (r, m')" "module_inv p m'" "subscribed m' = subscribed (sy_module s)"
    "latest_operational_status (fst m') = latest_operational_status (fst (sy_module s))"
    using assms(1) by (auto simp: system_inv_def)
  then show ?thesis
    using assms(1) Module_Call by (auto simp: system_inv_def)
qed

end

sublocale status_system \<subseteq> sys: safe_component "system_step d" "system_inv p d" "system_legal p" "\<lambda>_ _. True" for p
  by unfold_locales (rule system_safe)

text \<open>Delivering what is under way leaves the module with the newest status.\<close>

lemma deliver_all:
  "subscribed (sy_module s) \<Longrightarrow> \<exists>rs. run_events (system_step d) (replicate (length (sy_topic s)) Deliver) s =
     Returned (rs, s\<lparr>sy_topic := [], sy_module :=
       (fst (sy_module s)\<lparr>latest_operational_status :=
          last (latest_operational_status (fst (sy_module s)) # sy_topic s)\<rparr>, snd (sy_module s))\<rparr>)"
proof (induction "sy_topic s" arbitrary: s)
  case (Cons status ss)
  let ?m = "sy_module s"
  let ?s = "s\<lparr>sy_topic := ss, sy_module := (on_operational_status status (fst ?m), snd ?m)\<rparr>"
  have step: "system_step d Deliver s = Returned (OkStatus, ?s)"
    using Cons.hyps(2) [symmetric] Cons.prems by (cases ?m) (simp add: answer_def)
  have "subscribed (sy_module ?s)" using Cons.prems by (simp add: subscribed_def on_operational_status_def)
  from Cons.hyps(1) [of ?s, OF _ this] show ?case
    using step Cons.hyps(2) [symmetric] by (auto simp: on_operational_status_def)
qed (cases "s", simp)

lemma run_events_append:
  "run_events step es s = Returned (rs, s1) \<Longrightarrow> run_events step es' s1 = Returned (rs', s2) \<Longrightarrow>
     run_events step (es @ es') s = Returned (rs @ rs', s2)"
  by (induction es arbitrary: s rs) (auto simp: on_returned_eq_Returned)

section \<open>The gates follow the node\<close>

definition gates_agree :: "operational_status \<Rightarrow> hwm \<Rightarrow> bool" where
  "gates_agree status h \<longleftrightarrow> latest_operational_status h = status \<and> wf_status status
     \<and> (ok (enable_motion h) \<longleftrightarrow> os_state status \<noteq> FAULTED)
     \<and> (ok (check_operational_status True h) \<longleftrightarrow> os_state status \<notin> {FAULTED, DISABLED})"

text \<open>
  The run is answered to its end. If no status callback is running then, one tick of the publish timer and the
  delivery of what is under way bring the module's gates in line with \<open>robot\<close> of the messages received.
\<close>

definition settle :: "'m system \<Rightarrow> 'm system_event list" where
  "settle s = [Node_Action Tick, Node_Action Publish_Topic] @ replicate (Suc (length (sy_topic s))) Deliver"

definition system_follows ::
  "'m node_design \<Rightarrow> 'm system_event list \<Rightarrow> 'm system \<Rightarrow> ('m list \<Rightarrow> operational_status \<Rightarrow> bool) \<Rightarrow> bool" where
  "system_follows d es s0 robot \<longleftrightarrow>
     (\<exists>rs s. run_events (system_step d) es s0 = Returned (rs, s)
        \<and> (topic_pc (sy_node s) = None \<longrightarrow>
            (\<exists>rs' s' status. run_events (system_step d) (settle s) s = Returned (rs', s')
               \<and> received (sy_node s') = received (sy_node s) \<and> robot (received (sy_node s')) status
               \<and> gates_agree status (fst (sy_module s')))))"

text \<open>A module that can be linked to a node.\<close>

definition linkable :: "hwm_params \<Rightarrow> module_state \<Rightarrow> bool" where
  "linkable p m \<longleftrightarrow> module_inv p m \<and> subscribed m \<and> wf_status (latest_operational_status (fst m))"

text \<open>An initialised module of an active controller that names a status topic is one.\<close>

lemma init_subscription:
  "operational_status_subscription (snd (init reg h)) = operational_status_subscription h"
  by (simp add: init_def Let_def split: sum.split)

lemma create_subscribes:
  assumes "create p = Inr h" and "hp_operational_status_topic p \<noteq> []"
  shows "operational_status_subscription h \<noteq> None"
  using assms by (auto simp: create_def split: if_splits)

lemma initialised_linkable:
  assumes "reachable rate (Active, c)" and "c_runtime c = Some rt" and "claimed c mem"
    and "init reg (rt_hwm rt) = (r, h)" and "ok r" and "registry_sound reg"
    and "hp_operational_status_topic (h_params (rt_hwm rt)) \<noteq> []"
  shows "linkable (h_params (rt_hwm rt)) (h, mem)"
proof -
  obtain p where "create p = Inr (rt_hwm rt)"
    using reachable_active [OF assms(1)] assms(2) by (auto simp: configured_def)
  then have "operational_status_subscription (rt_hwm rt) \<noteq> None"
    using assms(7) create_subscribes create_sel(1) by metis
  then have "subscribed (h, mem)"
    using init_subscription [of reg "rt_hwm rt"] assms(4) by (simp add: subscribed_def)
  then show ?thesis
    using initialised_inv [OF assms(1-6)] by (simp add: linkable_def wf_status_def)
qed

context status_system begin

lemma settled:
  assumes "system_inv p d s" and "topic_pc (sy_node s) = None"
  shows "\<exists>rs s'. run_events (system_step d) (settle s) s = Returned (rs, s') \<and> received (sy_node s') = received (sy_node s)
    \<and> gates_agree (cached (sy_node s)) (fst (sy_module s'))"
proof -
  let ?c = "cached (sy_node s)"
  let ?s1 = "s\<lparr>sy_node := (sy_node s)\<lparr>topic_pc := None, on_topic := on_topic (sy_node s) @ [?c]\<rparr>,
    sy_topic := sy_topic s @ [?c]\<rparr>"
  have tick: "run_events (system_step d) [Node_Action Tick, Node_Action Publish_Topic] s = Returned ([OkStatus, OkStatus], ?s1)"
    using assms(2) by simp
  have "subscribed (sy_module ?s1)" using assms(1) by (simp add: system_inv_def)
  from deliver_all [OF this] obtain rs where
    del: "run_events (system_step d) (replicate (Suc (length (sy_topic s))) Deliver) ?s1 =
      Returned (rs, ?s1\<lparr>sy_topic := [], sy_module := (fst (sy_module s)\<lparr>latest_operational_status := ?c\<rparr>, snd (sy_module s))\<rparr>)"
    by auto
  have "wf_status ?c"
    using assms(1) threads_wf_reachable [OF _ wf] by (simp add: system_inv_def threads_wf_def)
  then have "gates_agree ?c (fst (sy_module s)\<lparr>latest_operational_status := ?c\<rparr>)"
    unfolding gates_agree_def by (simp add: enable_motion_def check_refuses Let_def)
  then show ?thesis
    unfolding settle_def using run_events_append [OF tick del]
    by (intro exI conjI) (assumption, simp_all)
qed

lemma follows:
  assumes "linkable p m" and "list_all (system_legal p) es"
    and "\<And>rs s. run_events (system_step d) es (linked d m) = Returned (rs, s) \<Longrightarrow> thread_reachable d (sy_node s) \<Longrightarrow>
      robot (received (sy_node s)) (cached (sy_node s))"
  shows "system_follows d es (linked d m) robot"
proof -
  have "system_inv p d (linked d m)"
    using assms(1) by (simp add: system_inv_def linked_def linkable_def thread_reachable.initially)
  from sys.safe_run [OF this assms(2)] obtain rs s where
    run: "run_events (system_step d) es (linked d m) = Returned (rs, s)"
    and inv: "system_inv p d s" by (elim exE conjE) (rule that)
  have robot: "robot (received (sy_node s)) (cached (sy_node s))"
    using assms(3) [OF run] inv by (simp add: system_inv_def)
  then show ?thesis
    using settled [OF inv] run unfolding system_follows_def by metis
qed

end

interpretation ur_system: status_system "ur_design ms" for ms
  by unfold_locales (rule designs_wf)

interpretation fanuc_system: status_system "fanuc_design ms" for ms
  by unfold_locales (rule designs_wf)

interpretation khi_system: status_system khi_design
  by unfold_locales (rule designs_wf)

text \<open>
  A status is the robot's word for a KHI node if it is the translation of the last message received, or if
  it is the \<open>ENABLED\<close> that a recovery confirmed by the driver wrote over it since that message.
\<close>

definition overwritten_since :: "'m node_design \<Rightarrow> 'm system_event list \<Rightarrow> 'm system \<Rightarrow> 'm list \<Rightarrow> bool" where
  "overwritten_since d es s0 msgs \<longleftrightarrow> (\<exists>es1 es2 rs s. es = es1 @ Node_Action Overwrite # es2
     \<and> run_events (system_step d) es1 s0 = Returned (rs, s)
     \<and> clear_pc (sy_node s) = Answered True \<and> received (sy_node s) = msgs)"

lemma run_events_snoc:
  "run_events step (es @ [e]) s = Returned (rs, s') \<Longrightarrow>
     \<exists>rs1 s1 r. run_events step es s = Returned (rs1, s1) \<and> step e s1 = Returned (r, s')"
  by (induction es arbitrary: s rs) (fastforce simp: on_returned_eq_Returned)+

lemma overwritten_since_mono:
  "overwritten_since d es s0 msgs \<Longrightarrow> overwritten_since d (es @ [e]) s0 msgs"
  unfolding overwritten_since_def by (elim exE conjE) (intro exI conjI, simp, assumption+)

lemma system_step_node:
  "system_step d e s = Returned (r, s') \<Longrightarrow>
     sy_node s' = sy_node s \<or> (\<exists>a. e = Node_Action a \<and> thread_step d a (sy_node s) = Some (sy_node s'))"
  by (cases e) (auto simp: on_returned_eq_Returned split: option.split_asm list.split_asm if_split_asm)

text \<open>What one action does to the cached status.\<close>

lemma thread_step_cached:
  "thread_step d a s = Some s' \<Longrightarrow>
     cached s' = nd_translate d (received s')
     \<or> cached s' = cached s \<and> received s' = received s
     \<or> a = Overwrite \<and> clear_pc s = Answered True \<and> nd_overwrite d = Some (cached s') \<and> received s' = received s"
  by (cases a) (auto simp: Let_def split: if_split_asm option.split_asm clear_pc.split_asm)

lemma run_cached:
  assumes "run_events (system_step d) es (linked d m) = Returned (rs, s)"
  shows "cached (sy_node s) = nd_translate d (received (sy_node s))
    \<or> nd_overwrite d = Some (cached (sy_node s)) \<and> overwritten_since d es (linked d m) (received (sy_node s))"
  using assms
proof (induction es arbitrary: rs s rule: rev_induct)
  case Nil
  then show ?case by (auto simp: linked_def start_def)
next
  case (snoc e es)
  obtain rs1 s1 r where run: "run_events (system_step d) es (linked d m) = Returned (rs1, s1)"
    and step: "system_step d e s1 = Returned (r, s)"
    using run_events_snoc [OF snoc.prems] by blast
  note before = snoc.IH [OF run]
  have same: ?case if "cached (sy_node s) = cached (sy_node s1)" "received (sy_node s) = received (sy_node s1)"
    using before overwritten_since_mono that by metis
  show ?case
  proof (cases "sy_node s = sy_node s1")
    case False
    then obtain a where a: "e = Node_Action a" "thread_step d a (sy_node s1) = Some (sy_node s)"
      using system_step_node [OF step] by blast
    have new: "overwritten_since d (es @ [e]) (linked d m) (received (sy_node s))"
      if "a = Overwrite" "clear_pc (sy_node s1) = Answered True" "received (sy_node s) = received (sy_node s1)"
      unfolding overwritten_since_def using run a(1) that by fastforce
    show ?thesis using thread_step_cached [OF a(2)] same new by blast
  qed (use same in simp)
qed

lemma created_as_started:
  "ur_create api = Some u \<Longrightarrow> ur_seen_as u (start (ur_design um))"
  "fanuc_create api = Some f \<Longrightarrow> seen_as f (start (fanuc_design fm))"
  "khi_create api = Some k \<Longrightarrow> seen_as k (start khi_design)"
  using ur_created(1,2) [of api u] ur_created(3) [of api u um] fanuc_created(1,2) [of api f] khi_created(1,2) [of api k]
  by (auto simp: ur_seen_as_def seen_as_def quiescent_def start_def design_simps nothing_heard_def ur_consistent_def
      last_of_def)

section \<open>Properties\<close>

text \<open>
  C6: the module's motion gates follow the robot, whatever the interleaving. A node as its constructor
  leaves it is linked to an initialised module. Its threads, the topic and ICON's calls then take any number
  of steps in any order, the topic dropping older statuses for newer ones. All of them are answered, and
  whenever no status callback is running one tick of the publish timer and the delivery of what is under
  way bring the gates in line with the robot: for UR and FANUC with the translation of the driver's last
  messages, for KHI with that of the last message or, if the driver confirmed a recovery whose overwrite
  came after that message, with \<open>ENABLED\<close>.
\<close>

theorem system_gates_follow_robot:
  assumes "linkable p m"
    and "ur_create api = Some u" and "fanuc_create api = Some f" and "khi_create api = Some k"
    and "list_all (system_legal p) ue" and "list_all (system_legal p) fe" and "list_all (system_legal p) ke"
  shows "ur_seen_as u (start (ur_design um)) \<and> seen_as f (start (fanuc_design fm)) \<and> seen_as k (start khi_design)
    \<and> system_follows (ur_design um) ue (linked (ur_design um) m)
        (\<lambda>msgs status. status = ur_to_operational_status um (fold ur_record_message msgs nothing_heard))
    \<and> system_follows (fanuc_design fm) fe (linked (fanuc_design fm) m)
        (\<lambda>msgs status. status = fanuc_to_operational_status fm (last_of msgs))
    \<and> system_follows khi_design ke (linked khi_design m)
        (\<lambda>msgs status. status = khi_to_operational_status (last_of msgs)
           \<or> status = mk_os ENABLED [] \<and> overwritten_since khi_design ke (linked khi_design m) msgs)"
proof (intro conjI)
  show "system_follows khi_design ke (linked khi_design m)
        (\<lambda>msgs status. status = khi_to_operational_status (last_of msgs)
           \<or> status = mk_os ENABLED [] \<and> overwritten_since khi_design ke (linked khi_design m) msgs)"
    by (rule khi_system.follows [OF assms(1,7)], drule run_cached) (auto simp: khi_design_def)
  show "system_follows (ur_design um) ue (linked (ur_design um) m)
        (\<lambda>msgs status. status = ur_to_operational_status um (fold ur_record_message msgs nothing_heard))"
    by (rule ur_system.follows [OF assms(1,5)], drule threads_translate) (simp_all add: ur_design_def)
  show "system_follows (fanuc_design fm) fe (linked (fanuc_design fm) m)
        (\<lambda>msgs status. status = fanuc_to_operational_status fm (last_of msgs))"
    by (rule fanuc_system.follows [OF assms(1,6)], drule threads_translate) (simp_all add: fanuc_design_def)
qed (use created_as_started assms(2-4) in blast)+

lemma example_module_linkable: "wf_status st \<Longrightarrow> linkable example_params (example_module st)"
  using example_module_inv [of st]
  by (simp add: linkable_def subscribed_def example_module_def on_operational_status_def
      example_reading_hwm_def init_def Let_def example_hwm_def create_def example_params_def)

theorem system_gates_follow_robot_witness:
  "system_follows (fanuc_design example_fanuc_msgs)
     [Node_Action Request, Node_Action (Receive \<lparr>fs_in_error = True, fs_e_stopped = True,
        fs_motion_possible = False, fs_tp_enabled = False, fs_contact_stop_mode = 0\<rparr>),
      Module_Call Call_Enable_Motion, Node_Action (Answer True), Node_Action Publish_Topic, Overrun]
     (linked (fanuc_design example_fanuc_msgs) (example_module (mk_os ENABLED [])))
     (\<lambda>msgs status. status = fanuc_to_operational_status example_fanuc_msgs (last_of msgs))"
proof -
  let ?fe = "[Node_Action Request, Node_Action (Receive \<lparr>fs_in_error = True, fs_e_stopped = True,
        fs_motion_possible = False, fs_tp_enabled = False, fs_contact_stop_mode = 0\<rparr>),
      Module_Call Call_Enable_Motion, Node_Action (Answer True), Node_Action Publish_Topic, Overrun]"
  have "linkable example_params (example_module (mk_os ENABLED []))"
    by (rule example_module_linkable) (simp add: wf_status_def)
  from system_gates_follow_robot [OF this example_ur_created example_fanuc_created example_khi_created, of "[]" ?fe "[]"]
  show ?thesis by (simp add: system_legal_def module_legal_def)
qed

end
