(* ===== verification/Spec2Isabelle.thy ===== *)
theory Spec2Isabelle
  imports Publication_Timer Destruction Node_Locks System_Runs
begin

text \<open>
  The ICON ROS 2 hardware module controller.

  \<^bold>\<open>The program.\<close> Intrinsic's ICON real-time control talks to a robot through a hardware module.
  This program is such a module for any robot driven by ros2-control: a controller plugin
  (\<^verbatim>\<open>icon_hwm_controller\<close>) that claims a robot's joint interfaces, creates a hardware module
  (\<^verbatim>\<open>Ros2HwmImpl\<close>) and the runtime that owns it, and drives the shared real-time clock; and,
  per robot vendor, a node that translates the driver's status into one \<^verbatim>\<open>OperationalStatus\<close>
  and recovers the robot on request. The parts interact as follows: a vendor node publishes its
  status, the module subscribes to it and lets it gate motion; ICON commands and reads joints through
  the module each cycle; ICON's \<^verbatim>\<open>ClearFaults\<close> calls the vendor node's
  \<^verbatim>\<open>clear_faults\<close> service and then reactivates the hardware component and the controllers
  through the controller manager.

  \<^bold>\<open>The theories.\<close> File names are those under \<^verbatim>\<open>src/\<close>; definitions keep the names of the
  functions, types and members they model, \<^verbatim>\<open>ur_\<close>, \<^verbatim>\<open>fanuc_\<close> and \<^verbatim>\<open>khi_\<close>
  tell the vendors apart, and record fields carry a prefix of their type.

  \<^item> \<^verbatim>\<open>Hwm_Prelude\<close>: integers, undefined behaviour as a value, the library's
    status and its early return, decimal formatting and reading; runs of a component, with the locales
    \<open>safe_component\<close> (it keeps an invariant, so every run is answered) and \<open>refined_component\<close> (it
    implements a specification, so every run conforms to it); the collections \<open>io_simps\<close>,
    \<open>status_simps\<close>, \<open>time_rules\<close>, \<open>frame_rules\<close>.
  \<^item> \<^verbatim>\<open>Messages\<close>: \<^verbatim>\<open>OperationalStatus.msg\<close> and \<^verbatim>\<open>HardwareModuleState.msg\<close>;
    \<open>wf_status\<close> is what the nodes keep of the first one's comments.
  \<^item> \<^verbatim>\<open>Ros_Io\<close>: waiting for a service, calling it, sleeping and publishing, as state-monad
    operations that log what happened and how long it took. The outside is a record of functions from
    the whole history to its next answer, so a statement about every environment is one about every
    behaviour.
  \<^item> \<^verbatim>\<open>Service_Calls\<close>: the locales of the blocking calls. \<open>status_call\<close> (a call sends a
    prefix of its plan, all of it on success, within its time budget, and only logs),
    \<open>call_sequence\<close> (two of them under the early return are one again) and \<open>relabelled_call\<close>;
    \<open>round_trip\<close> is the pattern all service calls but two instantiate; \<open>accepts\<close> is its verdict as a
    function of the history, \<open>history_after\<close> what it adds to the history. \<open>takes\<close> is the exact duration of
    an operation, with one rule per way of composing operations.
  \<^item> \<^verbatim>\<open>Ros2_Hwm\<close>: \<^verbatim>\<open>Ros2HwmImpl\<close> outside the cycle (\<^verbatim>\<open>ros2_hwm_impl.cpp\<close>):
    \<open>create\<close>, \<open>init\<close>, \<open>prepare\<close>, \<open>enable_motion\<close>, \<open>disable_motion\<close>, \<open>clear_faults\<close>, \<open>shutdown\<close>, the
    status subscription and the controller-manager calls.
  \<^item> \<^verbatim>\<open>Hwm_Realtime\<close>: the cycle of the same class, \<open>read_status\<close> and \<open>apply_command\<close>,
    with checked vector accesses; \<open>writes_for\<close> and \<open>store\<close> specify a command as a list of writes.
  \<^item> \<^verbatim>\<open>Cxx_Text\<close>: \<open>clamp_cast\<close>, \<open>convert_severity\<close>, the log bridge, \<open>strncpy\<close> and
    \<open>memcpy\<close> of \<^verbatim>\<open>icon_hwm_controller.cpp\<close>.
  \<^item> \<^verbatim>\<open>Icon_Controller\<close>: the rest of that file: claimed interfaces, \<open>on_init\<close>,
    \<open>on_configure\<close> (split into \<open>create_module\<close> and \<open>start_runtime\<close> where the code goes on), \<open>on_cleanup\<close>,
    \<open>update\<close> and \<open>publish_current_hwm_state\<close>.
  \<^item> \<^verbatim>\<open>Controller_Lifecycle\<close>: the handlers under the protocol of ROS managed nodes, a step
    relation with its reachable states and invariants; \<^verbatim>\<open>Publication_Timer\<close>: the timer callback
    interleaved with them, the handlers taken apart into the assignments of members that both sides use; \<^verbatim>\<open>Destruction\<close>: the members of both classes in the order the
    headers declare them, the controller while they are destroyed, and the timer and status callbacks that
    start meanwhile. The locale \<open>declared\<close> holds what the order of declaration implies.
  \<^item> \<^verbatim>\<open>Module_Runs\<close>: the module in use. \<open>module_step\<close> composes its operations
    under arbitrary sequences of calls, status messages and changes of the loaned interfaces;
    \<open>module_inv\<close> is the invariant an initialised module has, \<open>may_answer\<close> and \<open>view_after\<close> the
    specification it implements, over the last status, the time of the last complete read and the
    interfaces; \<open>halted\<close> the invariant of a module whose robot is stopped and \<open>keeps_halted\<close> the events that
    keep it (loans included).
  \<^item> \<^verbatim>\<open>Vendor_Node\<close>: what the vendor nodes share: parameters, endpoints and callback
    groups, the executor of their processes, the guarded status, and the locales
    \<open>status_publisher\<close> (what a step publishes is the status it leaves) and \<open>status_link\<close> (a subscriber
    that keeps the latest message).
  \<^item> \<^verbatim>\<open>Ur_Node\<close>, \<^verbatim>\<open>Fanuc_Node\<close>, \<^verbatim>\<open>Khi_Node\<close>: the three
    \<^verbatim>\<open>*_operational_state_node.cpp\<close> and their mains: \<open>to_operational_status\<close>, the
    constructor \<open>create\<close>, one operation per callback, the recovery \<open>clear_faults\<close>, and \<open>step\<close>, one
    callback as a whole.
  \<^item> \<^verbatim>\<open>Node_Threads\<close>: the nodes with one status callback and one recovery running at the
    same time, one step per critical section and publication; \<^verbatim>\<open>Node_Locks\<close>: the same with the
    mutex as a resource and one step per instruction, and the proof that it refines the former.
  \<^item> \<^verbatim>\<open>System_Runs\<close>: the threads of a node, the status topic and the module as one
    system (\<open>system_step\<close>); \<open>settle\<close> is one tick of the publish timer and the delivery of what is under way; the
    locale \<open>status_system\<close> is interpreted for the three vendors.
  \<^item> This theory: the properties that span components.

  \<^bold>\<open>What is shown.\<close> The module, over whole runs: it never has undefined behaviour and
  stays well-formed; it implements its specification, exact writes and refusals included; while every status
  is faulted or disabled and every cycle sees it, the module writes no interface, whatever is called, read or
  loaned in between. Single operations: an
  accepted command puts each value into the interface named after its joint, a read takes each joint's own;
  a failed read leaves both time stamps; recovery sends its requests in order and has a time bound;
  preparation and shutdown stop at the first failure, with the exact history for every verdict of the clock
  and of the controller manager. The controller: \<^verbatim>\<open>on_configure\<close>
  either builds everything or records a readable error; the module never outlives its clock, neither under
  the lifecycle nor in the destructor; what is published is faithful. The nodes: the exact tables of reported states, the order, the success conditions
  and the time of the recoveries, that everything published is well formed, that no handler can block
  another or itself under any interleaving of instructions, and that error codes can be read back from the
  text. Across them: the motion gates follow the driver's messages, a stop any vendor reports halts the module, a
  vendor's error text reaches ICON, ICON's recovery of a UR or FANUC robot succeeds exactly when the
  driver does what is asked and its answers fit into the time, a successful KHI recovery reopens the gates once
  the node's status has arrived, and not before, recoveries cannot block
  themselves. Negative results are stated as theorems too: the overwritten KHI fault, the recovery longer
  than the module's deadline, the start error that is never shown, the publication that races with the
  handlers, the callbacks that can use a member already destroyed.

  \<^bold>\<open>Bounds.\<close> Times are milliseconds. With \<open>T\<close> the service and
  \<open>A\<close> the action timeout of a node: the module's recovery blocks at most 18 s, preparation and
  shutdown 32 s (20 s of them the clock), the FANUC recovery 4.2 s + 2 \<open>T\<close>, KHI 2 s +
  \<open>T\<close>, UR 8 s + 7 \<open>T\<close> + \<open>A\<close>; the module waits 5 s for any of them. For a UR driver that
  always answers the same way \<open>ur_recovery_time\<close> is the exact time. A
  run of the module is a finite list of events of any length; a node's running handlers take at most 13
  more instructions. No definition uses fuel: every loop of the program runs over a list or a joint range, and
  every definition is total by structural recursion, except decimal formatting, whose argument decreases.

  \<^bold>\<open>Parameters of the model.\<close> The outside (\<open>ros_env\<close>, \<open>hwm_env\<close>, \<open>ur_env\<close>), the interface registry,
  the shared-memory libraries (\<open>controller_env\<close>), parameter declaration (\<open>node_api\<close>), the number
  of executor threads, the mode constants of \<^verbatim>\<open>ur_dashboard_msgs\<close> and \<^verbatim>\<open>fanuc_msgs\<close>. What the
  properties assume of them is named: \<open>clock_resets_in_time\<close>, \<open>registry_sound\<close>, \<open>claimed\<close>,
  \<open>honours_ranges\<close>, \<open>documented_threads\<close>, \<open>distinct_labels\<close>, \<open>distinct_services\<close> (the nine names a UR node
  resolves stay different), \<open>serves\<close>, \<open>served_by\<close>, \<open>stationary\<close>,
  \<open>delivers_last\<close>; each has an instance in a witness.

  \<^bold>\<open>Abstractions.\<close> A \<^verbatim>\<open>double\<close> is its bit pattern, for the program only copies doubles;
  text is a list of characters; a pointer to a member is an address, a service client the name it
  was created with; log output is left out, except the bridge that formats it.

  \<^bold>\<open>Not modelled.\<close> The floating-point conversion of a publish rate into a timer period (a function of
  \<open>node_api\<close>); the inside of the ROS executor, of the interface registry and its flat buffers, of the
  hardware module runtime and of the real-time clock, none of which is in the repository; quality of
  service beyond which messages a topic delivers; the plugin export and the hardware interface
  registration macros; the Python entry point and launch files, the build files and the tests. Every
  function body of the C++ sources is modelled; what the headers only declare is modelled where it is
  defined.
\<close>

section \<open>From the vendor's status to the motion gates\<close>

lemma faulted_gates:
  assumes "os_state s = FAULTED"
  shows "st_code (enable_motion (on_operational_status s h)) = kFailedPrecondition"
    and "st_code (disable_motion (on_operational_status s h)) = kFailedPrecondition"
    and "\<exists>r. apply_command True command (on_operational_status s h) mem = Returned (r, mem)
       \<and> st_code r = kFailedPrecondition"
  using assms
  by (simp_all add: enable_motion_def disable_motion_def on_operational_status_def apply_command_def
      check_operational_status_def Let_def)

text \<open>What each vendor's node calls a stop.\<close>

lemma robot_stop_faulted:
  assumes "(\<exists>rs m. s = ur_to_operational_status um rs \<and> us_safety_mode rs = Some m
        \<and> us_robot_mode rs \<noteq> None \<and> us_program_running rs \<noteq> None
        \<and> m \<notin> safety_value um ` {NORMAL, REDUCED})
    \<or> (\<exists>r. s = fanuc_to_operational_status fm (Some r)
        \<and> (fs_e_stopped r \<or> fs_contact_stop_mode r \<noteq> CONTACT_STOP_MODE_NONE fm
           \<or> fs_in_error r \<and> \<not> fs_tp_enabled r))
    \<or> (\<exists>i. s = khi_to_operational_status (Some i) \<and> ke_error_codes i \<noteq> [])"
  shows "os_state s = FAULTED"
  using assms by (auto simp: ur_to_operational_status_def fanuc_to_operational_status_def
      khi_to_operational_status_def Let_def)

text \<open>
  C2: a stop at the robot halts the module. Let a UR robot report a safety mode other than normal
  or reduced (all topics heard), a FANUC robot an emergency stop, a contact stop or an alarm outside
  teach mode, or a KHI robot an error code, and let the module receive that node's status. Then, in
  whatever order calls, recoveries, reads, loans and further faults follow, everything is answered, motion can
  be neither enabled nor disabled, every command is refused, and the interfaces end up with what was loaned
  last: the module writes to none of them. This holds until a status arrives that is no fault, or a cycle
  misses the lock of the status.
\<close>

theorem robot_stop_halts_module:
  assumes "(\<exists>rs m. s = ur_to_operational_status um rs \<and> us_safety_mode rs = Some m
        \<and> us_robot_mode rs \<noteq> None \<and> us_program_running rs \<noteq> None
        \<and> m \<notin> safety_value um ` {NORMAL, REDUCED})
    \<or> (\<exists>r. s = fanuc_to_operational_status fm (Some r)
        \<and> (fs_e_stopped r \<or> fs_contact_stop_mode r \<noteq> CONTACT_STOP_MODE_NONE fm
           \<or> fs_in_error r \<and> \<not> fs_tp_enabled r))
    \<or> (\<exists>i. s = khi_to_operational_status (Some i) \<and> ke_error_codes i \<noteq> [])"
    and "module_inv p (h, mem)" and "list_all (keeps_halted p {FAULTED}) es"
  shows "\<exists>rs h'. run_events module_step (On_Status s # es) (h, mem)
      = Returned (OkStatus # rs, (h', fold loaned es mem))
    \<and> length rs = length es
    \<and> (\<forall>i < length es. es ! i \<in> {Call_Enable_Motion, Call_Disable_Motion} \<union> range (Call_Apply_Command True)
         \<longrightarrow> st_code (rs ! i) = kFailedPrecondition)"
proof -
  have "module_inv p (on_operational_status s h, mem)"
    using assms(2) by (auto simp: module_inv_def buffers_ok_def on_operational_status_def)
  then have "halted p {FAULTED} (on_operational_status s h, mem)"
    using robot_stop_faulted [OF assms(1)] by (simp add: halted_def on_operational_status_def)
  from halted_run [OF this assms(3)] obtain rs h' where
    run: "run_events module_step es (on_operational_status s h, mem) = Returned (rs, (h', fold loaned es mem))"
    and ans: "list_all2 (refused {FAULTED}) es rs"
    by (elim exE conjE) (rule that)
  have "st_code (rs ! i) = kFailedPrecondition"
    if "i < length es" "es ! i \<in> {Call_Enable_Motion, Call_Disable_Motion} \<union> range (Call_Apply_Command True)" for i
    using list_all2_nthD [OF ans that(1)] that(2) by (auto simp: refused_def)
  then show ?thesis
    using run list_all2_lengthD [OF ans] by (intro exI [of _ rs] exI [of _ h']) (simp add: answer_def)
qed

theorem robot_stop_halts_module_witness:
  "\<exists>rs h'. run_events module_step
       [On_Status (khi_to_operational_status (Some \<lparr>ke_error_codes = [-31135], ke_error_msgs = [''Motor power OFF'']\<rparr>)),
        Call_Enable_Motion, On_Loan (example_loan\<lparr>state_vec := \<lambda>_. []\<rparr>), Call_Clear_Faults accepting_env,
        Call_Apply_Command True (Inr example_command)]
       (example_module (mk_os ENABLED [])) = Returned (rs, (h', example_loan\<lparr>state_vec := \<lambda>_. []\<rparr>))
     \<and> st_code (rs ! 1) = kFailedPrecondition \<and> st_code (rs ! 4) = kFailedPrecondition"
proof -
  let ?s = "khi_to_operational_status (Some \<lparr>ke_error_codes = [-31135], ke_error_msgs = [''Motor power OFF'']\<rparr>)"
  let ?mem = "example_loan\<lparr>state_vec := \<lambda>_. []\<rparr>"
  let ?es = "[Call_Enable_Motion, On_Loan ?mem, Call_Clear_Faults accepting_env,
    Call_Apply_Command True (Inr example_command)]"
  have "vectors_ok example_params ?mem"
    using example_module_inv by (simp add: example_module_def module_inv_def vectors_ok_def)
  then have halted: "list_all (keeps_halted example_params {FAULTED}) ?es"
    by (simp add: keeps_halted_def module_legal_def)
  have stop: "\<exists>i. ?s = khi_to_operational_status (Some i) \<and> ke_error_codes i \<noteq> []"
    by (intro exI conjI, rule refl) simp
  note runs = robot_stop_halts_module [OF disjI2 [OF disjI2 [OF stop]]
      example_module_inv [of "mk_os ENABLED []", unfolded example_module_def] halted]
  obtain rs h' where run: "run_events module_step (On_Status ?s # ?es) (example_module (mk_os ENABLED []))
      = Returned (OkStatus # rs, (h', ?mem))"
    and ans: "\<forall>i < length ?es. ?es ! i \<in> {Call_Enable_Motion, Call_Disable_Motion} \<union> range (Call_Apply_Command True)
         \<longrightarrow> st_code (rs ! i) = kFailedPrecondition"
    using runs by (elim exE conjE) (rule that [unfolded example_module_def], simp_all add: loaned_def)
  show ?thesis
    using run ans [rule_format, of 0] ans [rule_format, of 3]
    by (intro exI [of _ "OkStatus # rs"] exI [of _ h']) simp
qed

text \<open>
  A stop at the robot stops the motion. When a UR robot reports a safety mode other than normal
  or reduced (all topics heard), a FANUC robot an emergency stop, a contact stop or an alarm outside
  teach mode, or a KHI robot an error code, then, once the module received the node's status, motion
  can be neither enabled nor disabled and a commanded cycle writes to no interface, whatever ICON sends.
\<close>

theorem robot_stop_blocks_motion:
  assumes "(\<exists>rs m. s = ur_to_operational_status um rs \<and> us_safety_mode rs = Some m
        \<and> us_robot_mode rs \<noteq> None \<and> us_program_running rs \<noteq> None
        \<and> m \<notin> safety_value um ` {NORMAL, REDUCED})
    \<or> (\<exists>r. s = fanuc_to_operational_status fm (Some r)
        \<and> (fs_e_stopped r \<or> fs_contact_stop_mode r \<noteq> CONTACT_STOP_MODE_NONE fm
           \<or> fs_in_error r \<and> \<not> fs_tp_enabled r))
    \<or> (\<exists>i. s = khi_to_operational_status (Some i) \<and> ke_error_codes i \<noteq> [])"
  shows "st_code (enable_motion (on_operational_status s h)) = kFailedPrecondition
    \<and> st_code (disable_motion (on_operational_status s h)) = kFailedPrecondition
    \<and> (\<exists>r. apply_command True command (on_operational_status s h) mem = Returned (r, mem)
         \<and> st_code r = kFailedPrecondition)"
  using faulted_gates [OF robot_stop_faulted [OF assms]] by blast

theorem robot_stop_blocks_motion_witness:
  "st_code (enable_motion (on_operational_status (khi_to_operational_status
     (Some \<lparr>ke_error_codes = [-31135], ke_error_msgs = [''Motor power OFF'']\<rparr>)) example_hwm))
   = kFailedPrecondition"
  by (rule robot_stop_blocks_motion [THEN conjunct1]) (intro disjI2 exI conjI, rule refl, simp)

text \<open>
  C38: what the motion gates let through. Enabling motion is refused exactly for \<open>FAULTED\<close>,
  a cycle's command exactly when the status is visible and \<open>FAULTED\<close> or \<open>DISABLED\<close>: a robot that
  reports \<open>DISABLED\<close> can be enabled but its commands are then refused. A cycle that does not get the lock
  of the status applies its command as if the robot had reported \<open>ENABLED\<close>, whatever it reported.
\<close>

theorem motion_gates:
  "(ok (enable_motion h) \<longleftrightarrow> os_state (latest_operational_status h) \<noteq> FAULTED)
   \<and> (ok (disable_motion h) \<longleftrightarrow> ok (enable_motion h))
   \<and> (\<not> ok (check_operational_status got h) \<longleftrightarrow>
        got \<and> os_state (latest_operational_status h) \<in> {FAULTED, DISABLED})
   \<and> (ok (enable_motion h) \<and> \<not> ok (check_operational_status True h) \<longleftrightarrow>
        os_state (latest_operational_status h) = DISABLED)
   \<and> apply_command False command h mem =
        apply_command True command (on_operational_status (mk_os ENABLED []) h) mem"
  by (auto simp: enable_motion_def disable_motion_def check_operational_status_def apply_command_def
      on_operational_status_def Let_def)

section \<open>From the driver's messages to the motion gates\<close>

text \<open>The module is the subscriber each node is linked to.\<close>

interpretation ur_link: status_link "ur_step ms" node_status "\<lambda>n. published (trace n)"
  on_operational_status latest_operational_status for ms
  by unfold_locales (simp add: on_operational_status_def)

interpretation fanuc_link: status_link "fanuc_step ms" node_status "\<lambda>n. published (trace n)"
  on_operational_status latest_operational_status for ms
  by unfold_locales (simp add: on_operational_status_def)

interpretation khi_link: status_link khi_step node_status "\<lambda>n. published (trace n)"
  on_operational_status latest_operational_status
  by unfold_locales (simp add: on_operational_status_def)

text \<open>The topic between a node and the module may drop messages, but not the last one.\<close>

definition delivers_last :: "operational_status list \<Rightarrow> operational_status list \<Rightarrow> bool" where
  "delivers_last ss sent \<longleftrightarrow> ss \<noteq> [] \<and> subseq ss sent \<and> last ss = last sent"

text \<open>What the module then holds, per vendor.\<close>

lemma ur_delivered:
  assumes "ur_create api = Some n" and "delivers_last ss (published (trace (fold (ur_step um) es n)))"
  shows "latest_operational_status (fold on_operational_status ss h) = ur_to_operational_status um (latest_status es)"
  using ur_link.latest_is_cached [where n = n and ms = um and es = es and ss = ss and h = h] assms(2)
    ur_created(1) [OF assms(1)] ur_created_wf [OF assms(1)] ur_run_status [OF assms(1)]
  by (simp add: delivers_last_def)

lemma fanuc_delivered:
  assumes "fanuc_create api = Some n" and "delivers_last ss (published (trace (fold (fanuc_step fm) es n)))"
  shows "latest_operational_status (fold on_operational_status ss h) =
    fanuc_to_operational_status fm (last_message es None)"
  using fanuc_link.latest_is_cached [where n = n and ms = fm and es = es and ss = ss and h = h] assms(2)
    fanuc_created(1) [OF assms(1)] fanuc_created_wf [OF assms(1)] fanuc_run_status [OF fanuc_created(2) [OF assms(1)]]
  by (simp add: delivers_last_def)

lemma khi_delivered:
  assumes "khi_create api = Some n" and "delivers_last ss (published (trace (fold khi_step es n)))"
  shows "latest_operational_status (fold on_operational_status ss h) = node_status (fold khi_step es n)
    \<and> wf_status (node_status (fold khi_step es n))"
  using khi_link.latest_is_cached [where n = n and es = es and ss = ss and h = h] assms(2)
    khi_created(1,2) [OF assms(1)] khi_wf
  by (simp add: delivers_last_def)

text \<open>
  The motion gates follow the robot, run by run. Take a freshly started node of any of the three vendors and
  let it handle any sequence of driver messages, timer ticks and recoveries; let the topic deliver any
  part of what it published that ends with the last publication. Then the module's status is
  well formed and is the translation of the driver's last messages (UR: the last value of each topic;
  KHI: what the node caches), motion can be enabled exactly when that is not \<open>FAULTED\<close>, and a
  commanded cycle is refused without a write when it is \<open>FAULTED\<close> or \<open>DISABLED\<close>.
\<close>

theorem gates_follow_robot:
  assumes "(\<exists>n. ur_create api = Some n \<and> delivers_last ss (published (trace (fold (ur_step um) ue n)))
        \<and> robot = ur_to_operational_status um (latest_status ue))
    \<or> (\<exists>n. fanuc_create api = Some n \<and> delivers_last ss (published (trace (fold (fanuc_step fm) fe n)))
        \<and> robot = fanuc_to_operational_status fm (last_message fe None))
    \<or> (\<exists>n. khi_create api = Some n \<and> delivers_last ss (published (trace (fold khi_step ke n)))
        \<and> robot = node_status (fold khi_step ke n))"
    and "h' = fold on_operational_status ss h"
  shows "latest_operational_status h' = robot \<and> wf_status robot
    \<and> (ok (enable_motion h') \<longleftrightarrow> os_state robot \<noteq> FAULTED)
    \<and> (os_state robot \<in> {FAULTED, DISABLED} \<longrightarrow>
        (\<exists>r. apply_command True command h' mem = Returned (r, mem) \<and> st_code r = kFailedPrecondition))"
proof -
  have "latest_operational_status h' = robot \<and> wf_status robot"
    using assms(1) unfolding assms(2)
    by (elim disjE exE conjE) (simp_all add: ur_delivered fanuc_delivered khi_delivered ur_wf fanuc_wf)
  then show ?thesis
    by (auto simp: enable_motion_def apply_command_def check_operational_status_def Let_def)
qed

theorem gates_follow_robot_witness:
  "\<not> ok (enable_motion (fold on_operational_status
     (published (trace (fold khi_step
       [Publish_Timer, Message \<lparr>ke_error_codes = [-31135], ke_error_msgs = [''Motor power OFF'']\<rparr>]
       example_khi_node))) example_hwm))"
proof -
  let ?e = "[Publish_Timer, Message \<lparr>ke_error_codes = [-31135], ke_error_msgs = [''Motor power OFF'']\<rparr>]"
  have "delivers_last (published (trace (fold khi_step ?e example_khi_node)))
      (published (trace (fold khi_step ?e example_khi_node)))"
    by (simp add: delivers_last_def)
  then have "\<exists>n. khi_create default_api = Some n
      \<and> delivers_last (published (trace (fold khi_step ?e example_khi_node))) (published (trace (fold khi_step ?e n)))
      \<and> node_status (fold khi_step ?e example_khi_node) = node_status (fold khi_step ?e n)"
    using example_khi_created by blast
  from gates_follow_robot [OF disjI2 [OF disjI2 [OF this]] refl, of example_hwm] show ?thesis
    by (simp add: khi_to_operational_status_def)
qed

section \<open>From the module's recovery to the vendor's\<close>

text \<open>
  The module's client is served by a vendor handler that answers with \<open>response\<close> after \<open>t\<close>
  milliseconds.
\<close>

definition served_by ::
  "(hwm_request, 'm, reply, 'e) ros_env_scheme \<Rightarrow> string \<Rightarrow> nat \<Rightarrow> trigger_response \<Rightarrow> bool" where
  "served_by outside service t response \<longleftrightarrow> (\<forall>h. env_wait outside h service = Some 0)
     \<and> (\<forall>h. env_reply outside h service TriggerRequest =
          Some (t, \<lparr>rp_success = tr_success response, rp_message = tr_message response\<rparr>))"

lemma clear_faults_served:
  assumes "clear_faults_client h = Some service" and "served_by outside service t response"
  shows "5000 < t \<Longrightarrow> clear_faults outside h = (mk_status kDeadlineExceeded ''ClearFaults service call timed out'',
      h\<lparr>trace := trace h @ [Waited service 0 True, Sent service TriggerRequest, Awaited service 5000 False]\<rparr>)"
    and "t \<le> 5000 \<Longrightarrow> \<not> tr_success response \<Longrightarrow> clear_faults outside h =
      (mk_status kInternal (''ClearFaults service call failed with message: '' @ tr_message response),
       h\<lparr>trace := trace h @ [Waited service 0 True, Sent service TriggerRequest, Awaited service t True]\<rparr>)"
  using assms
  by (simp_all add: served_by_def clear_faults_def clear_faults_steps_def io_simps
      call_clear_faults_service_round run_round_trip wait_result_def reply_result_def)

text \<open>
  C25: the reason of a failed recovery reaches ICON, if it comes in time. When the handler of any of the
  three vendor nodes reports failure, the module's \<^verbatim>\<open>ClearFaults\<close> fails and touches
  neither the hardware component nor the controllers. An answer within the 5 s the module waits gives
  ICON that handler's text, which is never empty; a later one, such as a handler that runs into its own
  default timeout of 5 s gives, leaves ICON with \<open>kDeadlineExceeded\<close> and the module's text.
\<close>

theorem recovery_failure_explained:
  assumes "clear_faults_client h = Some service" and "served_by outside service t response"
    and "\<not> tr_success response"
    and "response = fst (ur_clear_faults_callback um ue un) \<or> response = fst (fanuc_clear_faults_callback fe fn)
       \<or> response = fst (khi_clear_faults_callback ke kn)"
  shows "tr_message response \<noteq> []
    \<and> fst (clear_faults outside h) =
        (if t \<le> 5000
         then mk_status kInternal (''ClearFaults service call failed with message: '' @ tr_message response)
         else mk_status kDeadlineExceeded ''ClearFaults service call timed out'')
    \<and> requests (trace (snd (clear_faults outside h))) = requests (trace h) @ [(service, TriggerRequest)]"
proof -
  have "tr_message response \<noteq> []"
    using assms(4) ur_callback_message fanuc_callback_message khi_callback_message by metis
  then show ?thesis
    using clear_faults_served [OF assms(1,2)] assms(3) by (cases "t \<le> 5000") simp_all
qed

definition serving :: "nat \<Rightarrow> trigger_response \<Rightarrow> hwm_env" where
  "serving t response = accepting_env\<lparr>env_reply := \<lambda>h s q.
     Some (t, \<lparr>rp_success = tr_success response, rp_message = tr_message response\<rparr>)\<rparr>"

lemma serving_served: "served_by (serving t response) service t response"
  by (simp add: served_by_def serving_def accepting_env_def)

theorem recovery_failure_explained_witness:
  "st_code (fst (clear_faults (serving 10 (fst (khi_clear_faults_callback (khi_driver False) example_khi_node)))
     example_hwm)) = kInternal
   \<and> st_code (fst (clear_faults (serving 7000 (fst (khi_clear_faults_callback (khi_driver False) example_khi_node)))
     example_hwm)) = kDeadlineExceeded"
proof -
  have "\<not> tr_success (fst (khi_clear_faults_callback (khi_driver False) example_khi_node))"
    by (simp add: khi_driver_answers)
  note runs = recovery_failure_explained [OF example_hwm_sel(3) serving_served this]
  show ?thesis using runs [where t = 10] runs [where t = 7000] by fastforce
qed

definition slow_driver :: fanuc_env where
  "slow_driver = \<lparr>env_wait = (\<lambda>h s. Some 2000), env_reply = (\<lambda>h s q. Some (5000, 0))\<rparr>"

lemma slow_recovery:
  "tr_success (fst (fanuc_clear_faults_callback slow_driver example_fanuc_node))"
  "elapsed (trace (snd (fanuc_clear_faults_callback slow_driver example_fanuc_node))) = 14200"
  by (simp_all add: fanuc_callback_run fanuc_clear_faults_def fanuc_clear_faults_steps_def io_simps sleep_for_def
      fanuc_reset_round fanuc_switch_round run_round_trip wait_result_def reply_result_def slow_driver_def
      example_fanuc_node_sel seconds_def)

text \<open>
  C26: the module gives up on recoveries that succeed. The module waits 5 seconds for the vendor; with
  default parameters a FANUC recovery that succeeds can take up to 14.2 seconds. There is a driver for
  which the handler succeeds after more than 5 seconds, and every module served by it reports
  \<open>kDeadlineExceeded\<close> and reactivates nothing.
\<close>

theorem recovery_outlasts_deadline:
  "\<exists>driver node response node' t. fanuc_create default_api = Some node
     \<and> fanuc_clear_faults_callback driver node = (response, node') \<and> tr_success response
     \<and> t = elapsed (trace node') \<and> t = 14200
     \<and> (\<forall>outside (h :: hwm) service. clear_faults_client h = Some service \<and> served_by (outside :: hwm_env) service t response \<longrightarrow>
          st_code (fst (clear_faults outside h)) = kDeadlineExceeded
          \<and> requests (trace (snd (clear_faults outside h))) = requests (trace h) @ [(service, TriggerRequest)])"
proof (intro exI conjI allI impI)
  show "fanuc_create default_api = Some example_fanuc_node" by (rule example_fanuc_created)
  show "fanuc_clear_faults_callback slow_driver example_fanuc_node =
      (fst (fanuc_clear_faults_callback slow_driver example_fanuc_node),
       snd (fanuc_clear_faults_callback slow_driver example_fanuc_node))" by simp
  fix outside :: hwm_env and h :: hwm and service
  assume "clear_faults_client h = Some service \<and> served_by outside service
      (elapsed (trace (snd (fanuc_clear_faults_callback slow_driver example_fanuc_node))))
      (fst (fanuc_clear_faults_callback slow_driver example_fanuc_node))"
  from clear_faults_served(1) [OF this [THEN conjunct1] this [THEN conjunct2]] slow_recovery(2)
  show "st_code (fst (clear_faults outside h)) = kDeadlineExceeded"
    "requests (trace (snd (clear_faults outside h))) = requests (trace h) @ [(service, TriggerRequest)]"
    by simp_all
qed (rule slow_recovery refl)+

theorem recovery_outlasts_deadline_witness:
  "\<exists>response. tr_success response \<and> st_code (fst (clear_faults (serving 14200 response) example_hwm)) = kDeadlineExceeded"
proof -
  from recovery_outlasts_deadline obtain driver node response node' t where r: "tr_success response" "t = 14200"
    and late: "\<forall>outside (h :: hwm) service. clear_faults_client h = Some service
        \<and> served_by (outside :: hwm_env) service t response \<longrightarrow>
          st_code (fst (clear_faults outside h)) = kDeadlineExceeded
          \<and> requests (trace (snd (clear_faults outside h))) = requests (trace h) @ [(service, TriggerRequest)]"
    by (elim exE conjE) (rule that)
  have "st_code (fst (clear_faults (serving t response) example_hwm)) = kDeadlineExceeded"
    by (rule late [THEN spec, THEN spec, THEN spec, THEN mp, THEN conjunct1])
       (rule conjI, rule example_hwm_sel(3), rule serving_served)
  with r show ?thesis by blast
qed

text \<open>
  C17: a recovered KHI robot can move again. When the vendor's handler succeeds and answers the module
  within 5 seconds, and the controller manager serves its two requests, \<^verbatim>\<open>ClearFaults\<close>
  returns \<open>Ok\<close>; and once the module got the status the handler published last, motion can be enabled
  and the realtime commands are no longer refused, whatever fault was reported before. It is the status that
  reopens the gates, not the reset: until it is delivered the module answers \<^verbatim>\<open>EnableMotion\<close>
  as it did before, and so it does after a \<^verbatim>\<open>Prepare\<close>, which does not call the node. That is
  the first of the two resets the README of the KHI module asks for: the hardware and the clock recover, and
  enabling motion still fails with the cached fault.
\<close>

theorem khi_recovery_restores_motion:
  assumes "khi_clear_faults_callback driver node = (response, node')" and "tr_success response"
    and "clear_faults_client h = Some service" and "served_by outside service t response" and "t \<le> 5000"
    and "manager_serves outside" and "delivers_last ss (published (trace node'))"
    and "clear_faults outside h = (r, h1)" and "h' = fold on_operational_status ss h1"
  shows "r = OkStatus \<and> ok (enable_motion h') \<and> ok (check_operational_status got h')
    \<and> requests (trace node') = requests (trace node) @ [(reset_error_client node, Reset_Error)]
    \<and> enable_motion h1 = enable_motion h
    \<and> (\<forall>env. enable_motion (snd (prepare env h)) = enable_motion h)"
proof -
  have gates: "enable_motion h1 = enable_motion h" "enable_motion (snd (prepare env h)) = enable_motion h" for env
    using lifecycle_call_logs(3) [of outside h] lifecycle_call_logs(1) [of env h] assms(8)
    by (auto simp: enable_motion_def)
  have "serves outside service TriggerRequest"
    using assms(2,4,5) by (auto simp: served_by_def serves_def)
  then have "r = OkStatus"
    using served_recovery [of outside "clear_faults_client h" "h_params h" h] assms(3,6,8)
    by (simp add: clear_faults_def)
  moreover have newest: "last ss = mk_os ENABLED []" "ss \<noteq> []"
      "requests (trace node') = requests (trace node) @ [(reset_error_client node, Reset_Error)]"
    using khi_clear_faults_success [OF assms(1,2)] assms(7) by (simp_all add: delivers_last_def)
  moreover have "ok (enable_motion h') \<and> ok (check_operational_status got h')"
    using khi_link.latest_last [of ss h1] newest assms(9)
    by (simp add: enable_motion_def check_operational_status_def Let_def)
  ultimately show ?thesis using gates by blast
qed

theorem khi_recovery_restores_motion_witness:
  "\<exists>r h1. clear_faults (serving 10 (fst (khi_clear_faults_callback (khi_driver True) example_khi_node)))
       (on_operational_status (mk_os FAULTED ''Motor power OFF'') example_hwm) = (r, h1)
     \<and> st_code (enable_motion h1) = kFailedPrecondition
     \<and> ok (enable_motion (fold on_operational_status
          (published (trace (snd (khi_clear_faults_callback (khi_driver True) example_khi_node)))) h1))"
proof -
  let ?out = "khi_clear_faults_callback (khi_driver True) example_khi_node"
  let ?env = "serving 10 (fst ?out)"
  let ?hwm = "on_operational_status (mk_os FAULTED ''Motor power OFF'') example_hwm"
  obtain r h1 where r: "clear_faults ?env ?hwm = (r, h1)" by (cases "clear_faults ?env ?hwm")
  have succ: "tr_success (fst ?out)" by (simp add: khi_driver_answers)
  have split: "?out = (fst ?out, snd ?out)" by simp
  have client: "clear_faults_client ?hwm = clear_faults_client example_hwm" by (simp add: on_operational_status_def)
  have manager: "manager_serves ?env"
    using succ by (auto simp: manager_serves_def serves_def serving_def accepting_env_def)
  have topic: "delivers_last (published (trace (snd ?out))) (published (trace (snd ?out)))"
    using khi_clear_faults_success(1) [OF split succ] by (simp add: delivers_last_def)
  have soon: "(10 :: nat) \<le> 5000" by simp
  note restored = khi_recovery_restores_motion [OF split succ trans [OF client example_hwm_sel(3)] serving_served
      soon manager topic r refl]
  have same: "enable_motion h1 = enable_motion ?hwm" using restored by blast
  have "st_code (enable_motion h1) = kFailedPrecondition"
    unfolding same by (rule faulted_gates) simp
  with r restored show ?thesis by blast
qed

text \<open>The module's recovery through a vendor whose answer is known.\<close>

lemma clear_faults_served_iff:
  assumes "clear_faults_client h = Some service" and "served_by outside service t response"
    and "manager_serves outside"
  shows "ok (fst (clear_faults outside h)) \<longleftrightarrow> tr_success response \<and> t \<le> 5000"
proof (cases "tr_success response \<and> t \<le> 5000")
  case True
  then have "serves outside service TriggerRequest" using assms(2) by (auto simp: served_by_def serves_def)
  then show ?thesis
    using True served_recovery [of outside "clear_faults_client h" "h_params h" h] assms(1,3)
    by (simp add: clear_faults_def)
next
  case False
  then show ?thesis using clear_faults_served [OF assms(1,2)] by (cases "t \<le> 5000") simp_all
qed

text \<open>
  The same for a KHI node: its one service appears within 2 s, confirms within the timeout, and both fit
  into 5 s.
\<close>

lemma khi_recovery_end_to_end:
  assumes "stationary driver W R" and "khi_clear_faults_callback driver n = (response, n')"
    and "clear_faults_client h = Some service" and "manager_serves outside"
    and "served_by outside service (elapsed (trace n') - elapsed (trace n)) response"
  shows "ok (fst (clear_faults outside h)) \<longleftrightarrow>
    (\<exists>w r x. W (reset_error_client n) = Some w \<and> R (reset_error_client n) Reset_Error = Some (r, x)
       \<and> kr_success x \<and> w \<le> 2000 \<and> r \<le> seconds (service_timeout n) \<and> w + r \<le> 5000)"
  using clear_faults_served_iff [OF assms(3,5,4)] khi_recovery_works [OF assms(1), of n] assms(2)
  by (auto simp: in_time_def answers_def)

text \<open>
  C18: when ICON's recovery of a FANUC robot succeeds, to the millisecond. With a driver that answers the
  same way each time and a controller manager that serves, the module's \<^verbatim>\<open>ClearFaults\<close> returns
  \<open>Ok\<close> exactly when both services appear within 2 s, both answer 0 within the node's timeout, and the two
  waits, the two answers and the pause of 200 ms between them fit into the 5 s the module waits.
\<close>

theorem fanuc_recovery_end_to_end:
  assumes "stationary driver W R" and "fanuc_clear_faults_callback driver n = (response, n')"
    and "clear_faults_client h = Some service" and "manager_serves outside"
    and "served_by outside service (elapsed (trace n') - elapsed (trace n)) response"
  shows "ok (fst (clear_faults outside h)) \<longleftrightarrow>
    (\<exists>w1 r1 w2 r2. W (reset_client n) = Some w1 \<and> R (reset_client n) Reset_Request = Some (r1, 0)
       \<and> W (switch_control_state_client n) = Some w2
       \<and> R (switch_control_state_client n) (Switch_Control_State 1) = Some (r2, 0)
       \<and> w1 \<le> 2000 \<and> w2 \<le> 2000 \<and> r1 \<le> seconds (service_timeout n) \<and> r2 \<le> seconds (service_timeout n)
       \<and> w1 + r1 + 200 + w2 + r2 \<le> 5000)"
  using clear_faults_served_iff [OF assms(3,5,4)] fanuc_recovery_works [OF assms(1), of n] assms(2)
  by (auto simp: in_time_def answers_def)

theorem fanuc_recovery_end_to_end_witness:
  "\<exists>response n'. fanuc_clear_faults_callback (fanuc_driver 0) example_fanuc_node = (response, n')
     \<and> ok (fst (clear_faults (serving (elapsed (trace n') - elapsed (trace example_fanuc_node)) response) example_hwm))"
proof -
  obtain response n' where out: "fanuc_clear_faults_callback (fanuc_driver 0) example_fanuc_node = (response, n')"
    by (cases "fanuc_clear_faults_callback (fanuc_driver 0) example_fanuc_node")
  have "tr_success response" using fanuc_driver_accepts out by simp
  then have "manager_serves (serving t response)" if "t \<le> 5000" for t
    using that by (auto simp: manager_serves_def serves_def serving_def accepting_env_def)
  moreover have "elapsed (trace n') - elapsed (trace example_fanuc_node) = 500"
    using fanuc_recovery_works(2) [OF fanuc_driver_stationary, of 0 example_fanuc_node] fanuc_driver_accepts out
    by simp
  ultimately show ?thesis
    using out fanuc_recovery_end_to_end [OF fanuc_driver_stationary out example_hwm_sel(3) _ serving_served]
    by (auto simp: example_fanuc_node_sel seconds_def)
qed

text \<open>
  C14: when ICON's recovery of a UR robot succeeds, to the millisecond. With a driver that answers the same way
  each time and a controller manager that serves, the module's \<^verbatim>\<open>ClearFaults\<close> returns \<open>Ok\<close>
  exactly when the robot state helper reaches RUNNING in time or the program can be resent, and the whole
  handler fits into the 5 s the module waits: connecting when disconnected, unlocking or restarting by the
  cached safety mode (with its pause of 500 ms), dismissing the two popups, \<^verbatim>\<open>SetMode\<close>, and, only when that
  failed, releasing the brakes and resending. Each call counts its wait (500 ms when the service is absent) and its answer or timeout.
\<close>

theorem ur_recovery_end_to_end:
  assumes "ur_stationary driver W R G Q" and "ur_clear_faults_callback ms driver n = (response, n')"
    and "set_mode_action_client n = Some action" and "resend_robot_program_client n = Some resend"
    and "clear_faults_client h = Some service" and "manager_serves outside"
    and "served_by outside service (elapsed (trace n') - elapsed (trace n)) response"
  shows "ok (fst (clear_faults outside h)) \<longleftrightarrow>
    (set_mode_works W G Q action (Set_Mode_Goal (robot_value ms RUNNING) True True) (action_timeout n)
       \<or> trigger_works W R resend (service_timeout n))
    \<and> ur_recovery_time ms n action W R G Q \<le> 5000"
  using clear_faults_served_iff [OF assms(5,7,6)] ur_recovery_works [OF assms(1,3,4), of ms] assms(2)
  by simp

theorem ur_recovery_end_to_end_witness:
  "\<exists>response n'. ur_clear_faults_callback example_ur_msgs (ur_driver False True) example_ur_node = (response, n')
     \<and> ok (fst (clear_faults (serving (elapsed (trace n') - elapsed (trace example_ur_node)) response) example_hwm))"
proof -
  obtain response n' where out:
      "ur_clear_faults_callback example_ur_msgs (ur_driver False True) example_ur_node = (response, n')"
    by (cases "ur_clear_faults_callback example_ur_msgs (ur_driver False True) example_ur_node")
  note works = ur_recovery_works [OF ur_driver_stationary example_ur_node_sel(4,5), of example_ur_msgs False True]
  have fast: "ur_recovery_time example_ur_msgs example_ur_node ''ur_robot_state_helper/set_mode'' (\<lambda>s. Some 0)
      (\<lambda>s q. Some (0, \<lparr>rp_success = True, rp_message = []\<rparr>)) (\<lambda>q. Some (0, None))
      (\<lambda>i. Some (0, \<lparr>wr_code = SUCCEEDED, wr_result = Some \<lparr>rp_success = True, rp_message = []\<rparr>\<rparr>)) = 0"
    using ur_created(2) [OF example_ur_created]
    by (simp add: ur_recovery_time_def trigger_time_def set_mode_time_def wait_result_def reply_result_def
        ur_unlock_duration_def in_time_def example_ur_msgs_def Let_def split: option.split)
  have resent: "trigger_works (\<lambda>s. Some 0) (\<lambda>s q. Some (0, \<lparr>rp_success = True, rp_message = []\<rparr>)) c t" for c t
    by (simp add: trigger_works_def in_time_def answers_def)
  have "tr_success response" using works(1) out resent by simp
  then have "manager_serves (serving t response)" if "t \<le> 5000" for t
    using that by (auto simp: manager_serves_def serves_def serving_def accepting_env_def)
  moreover have "elapsed (trace n') - elapsed (trace example_ur_node) = 0"
    using works(2) out fast by simp
  ultimately show ?thesis
    using out resent fast
      ur_recovery_end_to_end [OF ur_driver_stationary out example_ur_node_sel(4,5) example_hwm_sel(3) _ serving_served]
    by auto
qed

section \<open>Nodes and controller as constructed\<close>

text \<open>
  C40: a recovery cannot block itself. Each executable runs one node under an executor that may run
  two callbacks at once, and the node puts its status callbacks into one mutually exclusive group, the
  blocking \<^verbatim>\<open>clear_faults\<close> handler into another and its clients into a reentrant third: while
  a recovery waits, every reply and every status callback may start (with one thread none could), and
  two status callbacks never run at once. All timeouts lie between 1 and 300 seconds when the parameter
  ranges are honoured.
\<close>

theorem nodes_soundly_wired:
  assumes "documented_threads threads" and "honours_ranges api"
    and "ur_main api = Some pu" and "fanuc_main api = Some pf" and "khi_main api = Some pk"
  shows "\<exists>u f k. pr_nodes pu = [u] \<and> pr_nodes pf = [f] \<and> pr_nodes pk = [k]
    \<and> (\<forall>(ex, es) \<in> {(pr_executor pu, node_endpoints u), (pr_executor pf, node_endpoints f),
           (pr_executor pk, node_endpoints k)}.
         sound_wiring es \<and> stays_responsive threads ex es \<and> \<not> stays_responsive threads SingleThreadedExecutor es)
    \<and> {sint (service_timeout u), sint (action_timeout u), sint (service_timeout f), sint (service_timeout k)}
        \<subseteq> {1..300}"
proof -
  obtain u where u: "ur_create api = Some u" "pr_nodes pu = [u]" "pr_executor pu = MultiThreadedExecutor"
    using assms(3) by (auto simp: ur_main_def split: Option.bind_splits)
  obtain f where f: "fanuc_create api = Some f" "pr_nodes pf = [f]" "pr_executor pf = MultiThreadedExecutor"
    using assms(4) by (auto simp: fanuc_main_def split: Option.bind_splits)
  obtain k where k: "khi_create api = Some k" "pr_nodes pk = [k]" "pr_executor pk = MultiThreadedExecutor"
    using assms(5) by (auto simp: khi_main_def split: Option.bind_splits)
  note created = ur_created(4,5,6) [OF u(1)] fanuc_created(3,4,5) [OF f(1)] khi_created(3,4,5) [OF k(1)]
  note live = responsive_multi [OF assms(1)] responsive_single [OF assms(1)]
  show ?thesis
    using u f k created live assms(2)
    by (intro exI [of _ u] exI [of _ f] exI [of _ k]) simp
qed

theorem nodes_soundly_wired_witness:
  "stays_responsive (\<lambda>ex. if ex = SingleThreadedExecutor then 1 else 2) MultiThreadedExecutor (node_endpoints example_ur_node)
   \<and> sound_wiring (node_endpoints example_khi_node)"
proof -
  have "documented_threads (\<lambda>ex. if ex = SingleThreadedExecutor then 1 else 2)"
    by (simp add: documented_threads_def)
  from nodes_soundly_wired [OF this default_api_honours, of "the (ur_main default_api)"
      "the (fanuc_main default_api)" "the (khi_main default_api)"]
  show ?thesis
    by (simp add: ur_main_def fanuc_main_def khi_main_def example_ur_created example_fanuc_created
        example_khi_created)
qed

text \<open>
  C31: ICON reads each joint's own values, by name. In an active state, with the interfaces the
  controller asked for, a module initialised with buffers of the advertised size and a value on every
  interface, \<^verbatim>\<open>ReadStatus\<close> returns \<open>Ok\<close>, and entry \<open>i\<close> of the position buffer is the value
  of the interface called after the \<open>i\<close>-th joint and the first state type, stamped with the time of
  the read; likewise the velocity buffer and the second type, when there is one.
\<close>

theorem read_reaches_named_joint:
  assumes "reachable rate (Active, c)" and "c_runtime c = Some rt" and "claimed c mem"
    and "init reg (rt_hwm rt) = (r, h)" and "ok r" and "registry_sound reg"
    and "\<forall>l \<in> set (state_vec mem state_interfaces_addr). ls_value l \<noteq> None"
    and "dofs = cp_dof_names (c_params c)" and "types = cp_reference_and_state_interfaces (c_params c)"
    and "state = state_vec mem state_interfaces_addr"
  shows "\<exists>h' p v. read_status mem now h = Returned (OkStatus, h')
    \<and> joint_position_state h' = Some \<lparr>jb_values = p, jb_updated_at = Some now\<rparr> \<and> length p = length dofs
    \<and> joint_velocity_state h' = Some \<lparr>jb_values = v, jb_updated_at = Some now\<rparr> \<and> length v = length dofs
    \<and> (\<forall>i < length dofs. \<exists>k. ls_name (state ! k) = dofs ! i @ ''/'' @ types ! 0 \<and> ls_value (state ! k) = Some (p ! i))
    \<and> (1 < length types \<longrightarrow> (\<forall>i < length dofs. \<exists>k.
         ls_name (state ! k) = dofs ! i @ ''/'' @ types ! 1 \<and> ls_value (state ! k) = Some (v ! i)))"
proof -
  let ?n = "length dofs" and ?s = "length types"
  have conf: "configured (c_params c) c" using assms(1) by (rule reachable_active)
  obtain clock where hp: "h_params (rt_hwm rt) = hwm_params_of (c_params c) clock"
    by (rule runtime_params [OF conf assms(2)])
  have sel: "hp_state_stride (h_params (rt_hwm rt)) = ?s" "hp_num_dofs (h_params (rt_hwm rt)) = ?n"
      "hp_has_velocity_state (h_params (rt_hwm rt)) = (1 < ?s)"
      "hp_state_interfaces (h_params (rt_hwm rt)) = Some state_interfaces_addr"
    by (simp_all add: hp assms(8,9))
  obtain pb vb where init: "h_params h = h_params (rt_hwm rt)" "joint_position_state h = Some pb"
      "joint_velocity_state h = Some vb" "length (jb_values pb) = ?n" "length (jb_values vb) = ?n"
    using init_ok [OF assms(4-6)] sel(2) by metis
  have ready: "state_ready h state_interfaces_addr mem"
    using claimed_state_layout [OF conf assms(3,2)] init sel by (simp add: state_ready_def)
  have pos: "0 < ?s" "0 < ?n" using conf assms(8,9) by (auto simp: configured_def)
  have len: "length state = ?n * ?s" using claimed_lengths(2) [OF assms(3)] assms(8-10) by simp
  then have "state \<noteq> []" using pos by auto
  have idx: "k + i * ?s < length state"
    and name: "ls_name (state ! (k + i * ?s)) = dofs ! i @ ''/'' @ types ! k" if "i < ?n" "k < ?s" for i k
    using claimed_state_name [OF assms(3), of i k] that assms(8-10) by simp_all
  have vals: "ls_value (state ! (k + i * ?s)) \<noteq> None" if "i < ?n" "k < ?s" for i k
    using assms(7,10) idx [OF that] by simp
  let ?p = "map (\<lambda>i. the (ls_value (state ! (i * ?s)))) [0..<?n]"
  let ?v = "if 1 < ?s then map (\<lambda>i. the (ls_value (state ! (1 + i * ?s)))) [0..<?n] else jb_values vb"
  have "read_status mem now h = Returned (OkStatus,
      h\<lparr>joint_position_state := Some \<lparr>jb_values = ?p, jb_updated_at = Some now\<rparr>,
        joint_velocity_state := Some \<lparr>jb_values = ?v, jb_updated_at = Some now\<rparr>\<rparr>)"
    using read_status_reads [OF ready _ init(3) refl refl, of now] \<open>state \<noteq> []\<close> vals [of _ 0] vals [of _ 1] pos
    by (simp add: init(1) sel flip: assms(10))
  moreover have "length ?v = ?n" using init(5) by simp
  moreover have "\<exists>k. ls_name (state ! k) = dofs ! i @ ''/'' @ types ! 0 \<and> ls_value (state ! k) = Some (?p ! i)"
    if "i < ?n" for i
    using name [of i 0] vals [of i 0] pos that by (intro exI [of _ "i * ?s"]) simp
  moreover have "\<exists>k. ls_name (state ! k) = dofs ! i @ ''/'' @ types ! 1 \<and> ls_value (state ! k) = Some (?v ! i)"
    if "i < ?n" "1 < ?s" for i
    using name [of i 1] vals [of i 1] that by (intro exI [of _ "1 + i * ?s"]) simp
  ultimately show ?thesis
    by (intro exI [of _ "h\<lparr>joint_position_state := _, joint_velocity_state := _\<rparr>"] exI [of _ ?p] exI [of _ ?v])
       simp
qed

definition example_readable :: iface_memory where
  "example_readable = \<lparr>
     state_vec = (\<lambda>a. if a = state_interfaces_addr then
        [\<lparr>ls_name = ''j1/position'', ls_value = Some 11\<rparr>, \<lparr>ls_name = ''j1/velocity'', ls_value = Some 12\<rparr>,
         \<lparr>ls_name = ''j2/position'', ls_value = Some 21\<rparr>, \<lparr>ls_name = ''j2/velocity'', ls_value = Some 22\<rparr>]
        else []),
     command_vec = command_vec example_claimed\<rparr>"

theorem read_reaches_named_joint_witness:
  "\<exists>rt h'. c_runtime (example_configured True) = Some rt
     \<and> read_status example_readable 5 (snd (init example_registry (rt_hwm rt))) = Returned (OkStatus, h')
     \<and> (\<exists>p k. map_option jb_values (joint_position_state h') = Some p
          \<and> ls_name (state_vec example_readable state_interfaces_addr ! k) = ''j2/position''
          \<and> ls_value (state_vec example_readable state_interfaces_addr ! k) = Some (p ! 1))"
proof -
  obtain rt where rt: "c_runtime (example_configured True) = Some rt"
    using example_configured_runtime(1) by blast
  have claim: "claimed (example_configured True) example_readable"
    using example_claimed_claimed by (simp add: claimed_def example_readable_def example_claimed_def)
  have vals: "\<forall>l \<in> set (state_vec example_readable state_interfaces_addr). ls_value l \<noteq> None"
    by (simp add: example_readable_def)
  have init: "init example_registry (rt_hwm rt) = (OkStatus, snd (init example_registry (rt_hwm rt)))"
    by (simp add: init_def example_registry_def Let_def)
  have sound: "registry_sound example_registry"
    by (simp add: registry_sound_def example_registry_def)
  obtain h' p v where *: "read_status example_readable 5 (snd (init example_registry (rt_hwm rt))) = Returned (OkStatus, h')"
      "joint_position_state h' = Some \<lparr>jb_values = p, jb_updated_at = Some 5\<rparr>"
      "\<forall>i < 2. \<exists>k. ls_name (state_vec example_readable state_interfaces_addr ! k) = [''j1'', ''j2''] ! i @ ''/position''
         \<and> ls_value (state_vec example_readable state_interfaces_addr ! k) = Some (p ! i)"
    using read_reaches_named_joint [OF example_configured_reachable(2) rt claim init ok_OkStatus sound vals
        refl refl refl, of 5]
    by (auto simp: example_configured_sel numeral_2_eq_2)
  from *(3) [rule_format, of 1] *(1,2) rt show ?thesis by auto
qed

end
